(* ===== verification/Prelude.thy ===== *)
theory Prelude
  imports Main
begin

text \<open>
  Shared foundations of the development: programs with state and exceptions, their
  weakest preconditions, loops over lists, and the generic list and map facts that
  the component theories use.

  A Python method that reads and writes state and may raise is a
  \<open>('e, 's, 'a) prog\<close>: a function from the state to either an exception (\<open>Inl\<close>) or a
  value (\<open>Inr\<close>), together with the state at that moment. An exception does not undo
  the writes made before it, exactly as in the source.
\<close>

named_theorems wp_simps \<open>equations that push wp through the program combinators\<close>

type_synonym ('e, 's, 'a) prog = "'s \<Rightarrow> ('e + 'a) \<times> 's"

section \<open>Program combinators\<close>

definition returnE :: "'a \<Rightarrow> ('e, 's, 'a) prog" where
  "returnE a = (\<lambda>s. (Inr a, s))"

definition raiseE :: "'e \<Rightarrow> ('e, 's, 'a) prog" where
  "raiseE e = (\<lambda>s. (Inl e, s))"

definition bindE :: "('e, 's, 'a) prog \<Rightarrow> ('a \<Rightarrow> ('e, 's, 'b) prog) \<Rightarrow> ('e, 's, 'b) prog" where
  "bindE f g = (\<lambda>s. case f s of (Inl e, t) \<Rightarrow> (Inl e, t) | (Inr a, t) \<Rightarrow> g a t)"

text \<open>\<open>try: f except: h\<close>, where the handler sees the exception and the state it left.\<close>

definition catchE :: "('e, 's, 'a) prog \<Rightarrow> ('e \<Rightarrow> ('e, 's, 'a) prog) \<Rightarrow> ('e, 's, 'a) prog" where
  "catchE f h = (\<lambda>s. case f s of (Inl e, t) \<Rightarrow> h e t | (Inr a, t) \<Rightarrow> (Inr a, t))"

text \<open>A call that cannot raise, such as reading a clock.\<close>

definition liftE :: "('s \<Rightarrow> 'a \<times> 's) \<Rightarrow> ('e, 's, 'a) prog" where
  "liftE f = (\<lambda>s. case f s of (a, t) \<Rightarrow> (Inr a, t))"

text \<open>A value that may already be an exception, such as the result of a validator.\<close>

definition resultE :: "'e + 'a \<Rightarrow> ('e, 's, 'a) prog" where
  "resultE r = (\<lambda>s. (r, s))"

definition guardE :: "bool \<Rightarrow> 'e \<Rightarrow> ('e, 's, unit) prog" where
  "guardE b e = (if b then returnE () else raiseE e)"

text \<open>Loops over a list: \<open>foldE\<close> threads the local variables the body assigns.\<close>

primrec foldE :: "('x \<Rightarrow> 'b \<Rightarrow> ('e, 's, 'b) prog) \<Rightarrow> 'x list \<Rightarrow> 'b \<Rightarrow> ('e, 's, 'b) prog" where
  "foldE f [] b = returnE b"
| "foldE f (x # xs) b = bindE (f x b) (foldE f xs)"

primrec forE :: "('x \<Rightarrow> ('e, 's, unit) prog) \<Rightarrow> 'x list \<Rightarrow> ('e, 's, unit) prog" where
  "forE f [] = returnE ()"
| "forE f (x # xs) = bindE (f x) (\<lambda>_. forE f xs)"

primrec mapE :: "('x \<Rightarrow> ('e, 's, 'b) prog) \<Rightarrow> 'x list \<Rightarrow> ('e, 's, 'b list) prog" where
  "mapE f [] = returnE []"
| "mapE f (x # xs) = bindE (f x) (\<lambda>y. bindE (mapE f xs) (\<lambda>ys. returnE (y # ys)))"

text \<open>\<open>next(x for x in xs if p(x))\<close> with a default of \<open>None\<close>: the first match.\<close>

definition first_match :: "('a \<Rightarrow> bool) \<Rightarrow> 'a list \<Rightarrow> 'a option" where
  "first_match p xs = List.find p xs"

section \<open>Weakest preconditions\<close>

text \<open>
  \<open>wp f Q E s\<close>: run from \<open>s\<close>, the program either returns and satisfies \<open>Q\<close>, or raises and
  satisfies \<open>E\<close>. Programs are total functions, so \<open>wp f Q (\<lambda>_ _. False) s\<close> says that it
  returns.
\<close>

definition wp :: "('e, 's, 'a) prog \<Rightarrow> ('a \<Rightarrow> 's \<Rightarrow> bool) \<Rightarrow> ('e \<Rightarrow> 's \<Rightarrow> bool) \<Rightarrow> 's \<Rightarrow> bool" where
  "wp f Q E s = (case f s of (Inl e, t) \<Rightarrow> E e t | (Inr a, t) \<Rightarrow> Q a t)"

lemma wp_returnE [wp_simps]: "wp (returnE a) Q E = Q a"
  by (simp add: fun_eq_iff wp_def returnE_def)

lemma wp_raiseE [wp_simps]: "wp (raiseE e) Q E = E e"
  by (simp add: fun_eq_iff wp_def raiseE_def)

lemma wp_bindE [wp_simps]: "wp (bindE f g) Q E = wp f (\<lambda>a. wp (g a) Q E) E"
  by (auto simp: fun_eq_iff wp_def bindE_def split: prod.splits sum.splits)

lemma wp_catchE [wp_simps]: "wp (catchE f h) Q E = wp f Q (\<lambda>e. wp (h e) Q E)"
  by (auto simp: fun_eq_iff wp_def catchE_def split: prod.splits sum.splits)

lemma wp_liftE: "wp (liftE f) Q E = (\<lambda>s. case f s of (a, t) \<Rightarrow> Q a t)"
  by (auto simp: fun_eq_iff wp_def liftE_def split: prod.splits)

lemma wp_resultE [wp_simps]:
  "wp (resultE r) Q E = (\<lambda>s. case r of Inl e \<Rightarrow> E e s | Inr a \<Rightarrow> Q a s)"
  by (auto simp: fun_eq_iff wp_def resultE_def split: sum.splits)

lemma wp_guardE [wp_simps]: "wp (guardE b e) Q E = (\<lambda>s. if b then Q () s else E e s)"
  by (simp add: fun_eq_iff guardE_def wp_simps)

lemma wp_if [wp_simps]:
  "wp (if b then f else g) Q E = (\<lambda>s. if b then wp f Q E s else wp g Q E s)"
  by simp

lemma wp_case_option [wp_simps]:
  "wp (case x of None \<Rightarrow> f | Some y \<Rightarrow> g y) Q E =
     (\<lambda>s. case x of None \<Rightarrow> wp f Q E s | Some y \<Rightarrow> wp (g y) Q E s)"
  by (simp split: option.splits)

lemma wp_case_sum [wp_simps]:
  "wp (case x of Inl y \<Rightarrow> f y | Inr z \<Rightarrow> g z) Q E =
     (\<lambda>s. case x of Inl y \<Rightarrow> wp (f y) Q E s | Inr z \<Rightarrow> wp (g z) Q E s)"
  by (simp split: sum.splits)

lemma wp_case_prod [wp_simps]:
  "wp (case x of (a, b) \<Rightarrow> f a b) Q E = (\<lambda>s. case x of (a, b) \<Rightarrow> wp (f a b) Q E s)"
  by (simp split: prod.splits)

lemma wp_foldE_simps [wp_simps]:
  "wp (foldE f [] b) Q E = Q b"
  "wp (foldE f (x # xs) b) Q E = wp (f x b) (\<lambda>b. wp (foldE f xs b) Q E) E"
  by (simp_all add: wp_simps)

lemma wp_mono:
  assumes "wp f Q E s"
    and "\<And>a t. Q a t \<Longrightarrow> Q' a t"
    and "\<And>e t. E e t \<Longrightarrow> E' e t"
  shows "wp f Q' E' s"
  using assms by (auto simp: wp_def split: prod.splits sum.splits)

lemma wp_conj:
  assumes "wp f Q E s" and "wp f Q' E' s"
  shows "wp f (\<lambda>a t. Q a t \<and> Q' a t) (\<lambda>e t. E e t \<and> E' e t) s"
  using assms by (auto simp: wp_def split: prod.splits sum.splits)

lemma wp_run:
  "wp f Q E s \<Longrightarrow> f s = (Inr a, t) \<Longrightarrow> Q a t"
  "wp f Q E s \<Longrightarrow> f s = (Inl e, t) \<Longrightarrow> E e t"
  by (simp_all add: wp_def)

lemma wp_I:
  assumes "\<And>a t. f s = (Inr a, t) \<Longrightarrow> Q a t"
    and "\<And>e t. f s = (Inl e, t) \<Longrightarrow> E e t"
  shows "wp f Q E s"
  using assms by (auto simp: wp_def split: prod.splits sum.splits)

text \<open>Loop rules: an invariant over the elements that are still to be visited.\<close>

lemma wp_foldE:
  assumes "I xs b s"
    and step: "\<And>x ys b s. I (x # ys) b s \<Longrightarrow> wp (f x b) (I ys) E s"
    and "\<And>b s. I [] b s \<Longrightarrow> Q b s"
  shows "wp (foldE f xs b) Q E s"
  using assms(1)
proof (induction xs arbitrary: b s)
  case Nil
  then show ?case by (simp add: wp_simps assms(3))
next
  case (Cons x xs)
  have "wp (f x b) (I xs) E s" using Cons.prems by (rule step)
  then show ?case
    unfolding wp_foldE_simps by (rule wp_mono) (use Cons.IH in blast)+
qed

lemma wp_forE:
  assumes "I xs s"
    and step: "\<And>x ys s. I (x # ys) s \<Longrightarrow> wp (f x) (\<lambda>_. I ys) E s"
    and "\<And>s. I [] s \<Longrightarrow> Q () s"
  shows "wp (forE f xs) Q E s"
  using assms(1)
proof (induction xs arbitrary: s)
  case Nil
  then show ?case by (simp add: wp_simps assms(3))
next
  case (Cons x xs)
  have "wp (f x) (\<lambda>_. I xs) E s" using Cons.prems by (rule step)
  then show ?case
    unfolding forE.simps wp_bindE by (rule wp_mono) (use Cons.IH in blast)+
qed

lemma wp_mapE:
  assumes "I [] xs s"
    and step: "\<And>x ys zs s. I zs (x # ys) s \<Longrightarrow> wp (f x) (\<lambda>y. I (zs @ [y]) ys) E s"
    and "\<And>zs s. I zs [] s \<Longrightarrow> Q zs s"
  shows "wp (mapE f xs) Q E s"
proof -
  have "I zs xs s \<Longrightarrow> wp (mapE f xs) (\<lambda>ys. Q (zs @ ys)) E s" for zs
  proof (induction xs arbitrary: zs s)
    case Nil
    then show ?case by (simp add: wp_simps assms(3))
  next
    case (Cons x xs)
    have "wp (f x) (\<lambda>y. I (zs @ [y]) xs) E s" using Cons.prems by (rule step)
    then show ?case
      unfolding mapE.simps wp_bindE
    proof (rule wp_mono)
      fix y t assume "I (zs @ [y]) xs t"
      from Cons.IH [OF this]
      show "wp (mapE f xs) (\<lambda>ys. wp (returnE (y # ys)) (\<lambda>ys. Q (zs @ ys)) E) E t"
        by (simp add: wp_simps)
    qed
  qed
  from this [OF assms(1)] show ?thesis by simp
qed

section \<open>Lists and maps\<close>

lemma first_match_None [simp]: "first_match p xs = None \<longleftrightarrow> (\<forall>x \<in> set xs. \<not> p x)"
  by (auto simp: first_match_def find_None_iff)

lemma first_match_SomeD: "first_match p xs = Some x \<Longrightarrow> x \<in> set xs \<and> p x"
  by (auto simp: first_match_def find_Some_iff)

lemma first_match_ex: "x \<in> set xs \<Longrightarrow> p x \<Longrightarrow> \<exists>y. first_match p xs = Some y"
  by (cases "first_match p xs") (auto simp: first_match_None)

lemma map_le_apply: "m \<subseteq>\<^sub>m n \<Longrightarrow> m k = Some v \<Longrightarrow> n k = Some v"
  by (metis domI map_le_def)

lemma distinct_bounded_length:
  assumes "distinct xs" and "\<forall>x \<in> set xs. a \<le> x \<and> x \<le> b"
  shows "int (length xs) \<le> max 0 (b - a + 1)"
proof -
  have "length xs = card (set xs)" using assms(1) by (simp add: distinct_card)
  also have "\<dots> \<le> card {a..b}" using assms(2) by (intro card_mono) auto
  finally show ?thesis by simp
qed

end
