(* ===== verification/PyText.thy ===== *)
theory PyText
  imports Prelude "HOL-Library.Word"
begin

text \<open>
  The parts of Python's text and \<open>uuid\<close> modules that the services use.

  Text that patterns restrict to ASCII (identifiers, tokens, container states) is a
  \<open>string\<close>. Text a person types (display names) and paths are lists of Unicode code points, so
  that \<open>length\<close> counts what Python's \<open>len\<close> counts and \<open>utf8_length\<close> what
  \<open>len(s.encode("utf-8"))\<close> counts. A UUID is its 128-bit value.
\<close>

type_synonym ustring = "nat list"
type_synonym uuid = "128 word"

definition ustring_of :: "string \<Rightarrow> ustring" where
  "ustring_of cs = map of_char cs"

section \<open>Character classes\<close>

definition char_between :: "char \<Rightarrow> char \<Rightarrow> char \<Rightarrow> bool" where
  "char_between lo hi c \<longleftrightarrow>
     (of_char lo :: nat) \<le> of_char c \<and> (of_char c :: nat) \<le> of_char hi"

definition is_lower_ascii :: "char \<Rightarrow> bool" where
  "is_lower_ascii c \<longleftrightarrow> char_between CHR ''a'' CHR ''z'' c"

definition is_digit_ascii :: "char \<Rightarrow> bool" where
  "is_digit_ascii c \<longleftrightarrow> char_between CHR ''0'' CHR ''9'' c"

definition is_alnum_ascii :: "char \<Rightarrow> bool" where
  "is_alnum_ascii c \<longleftrightarrow>
     is_lower_ascii c \<or> is_digit_ascii c \<or> char_between CHR ''A'' CHR ''Z'' c"

definition is_hex_lower :: "char \<Rightarrow> bool" where
  "is_hex_lower c \<longleftrightarrow> is_digit_ascii c \<or> char_between CHR ''a'' CHR ''f'' c"

lemmas char_class_defs =
  char_between_def is_lower_ascii_def is_digit_ascii_def is_alnum_ascii_def is_hex_lower_def

text \<open>A pattern of the shape \<open>^[first][rest]*$\<close>.\<close>

fun head_tail_pattern :: "(char \<Rightarrow> bool) \<Rightarrow> (char \<Rightarrow> bool) \<Rightarrow> string \<Rightarrow> bool" where
  "head_tail_pattern f r [] = False"
| "head_tail_pattern f r (c # cs) = (f c \<and> list_all r cs)"

section \<open>UTF-8 lengths\<close>

definition utf8_size :: "nat \<Rightarrow> nat" where
  "utf8_size c = (if c < 128 then 1 else if c < 2048 then 2 else if c < 65536 then 3 else 4)"

definition utf8_length :: "ustring \<Rightarrow> nat" where
  "utf8_length cs = sum_list (map utf8_size cs)"

lemma utf8_size_pos: "1 \<le> utf8_size c"
  by (simp add: utf8_size_def)

lemma length_le_utf8_length: "length cs \<le> utf8_length cs"
  unfolding utf8_length_def
proof (induction cs)
  case (Cons c cs)
  then show ?case using utf8_size_pos [of c] by simp
qed simp

section \<open>Decimal and hexadecimal numerals\<close>

definition digit_char :: "nat \<Rightarrow> char" where
  "digit_char d = ''0123456789abcdef'' ! d"

fun dec_of_nat :: "nat \<Rightarrow> string" where
  "dec_of_nat n = (if n < 10 then [digit_char n] else dec_of_nat (n div 10) @ [digit_char (n mod 10)])"

declare dec_of_nat.simps [simp del]

text \<open>\<open>str(n)\<close> for a Python integer.\<close>

definition str_of_int :: "int \<Rightarrow> string" where
  "str_of_int i = (if i < 0 then ''-'' @ dec_of_nat (nat (- i)) else dec_of_nat (nat i))"

primrec hex_of_nat :: "nat \<Rightarrow> nat \<Rightarrow> string" where
  "hex_of_nat 0 n = []"
| "hex_of_nat (Suc w) n = hex_of_nat w (n div 16) @ [digit_char (n mod 16)]"

text \<open>\<open>uuid.hex\<close>: 32 lower-case digits; \<open>str(uuid)\<close>: the same in groups of 8-4-4-4-12.\<close>

definition uuid_hex :: "uuid \<Rightarrow> string" where
  "uuid_hex u = hex_of_nat 32 (unat u)"

definition uuid_str :: "uuid \<Rightarrow> string" where
  "uuid_str u =
     (let h = uuid_hex u
      in take 8 h @ ''-'' @ take 4 (drop 8 h) @ ''-'' @ take 4 (drop 12 h) @ ''-'' @
         take 4 (drop 16 h) @ ''-'' @ drop 20 h)"

lemma less_16_cases:
  "(d::nat) < 16 \<Longrightarrow> d = 0 \<or> d = 1 \<or> d = 2 \<or> d = 3 \<or> d = 4 \<or> d = 5 \<or> d = 6 \<or> d = 7 \<or>
     d = 8 \<or> d = 9 \<or> d = 10 \<or> d = 11 \<or> d = 12 \<or> d = 13 \<or> d = 14 \<or> d = 15"
  by presburger

lemma digit_char_simps [simp]:
  "digit_char 0 = CHR ''0''" "digit_char 1 = CHR ''1''" "digit_char 2 = CHR ''2''"
  "digit_char 3 = CHR ''3''" "digit_char 4 = CHR ''4''" "digit_char 5 = CHR ''5''"
  "digit_char 6 = CHR ''6''" "digit_char 7 = CHR ''7''" "digit_char 8 = CHR ''8''"
  "digit_char 9 = CHR ''9''" "digit_char 10 = CHR ''a''" "digit_char 11 = CHR ''b''"
  "digit_char 12 = CHR ''c''" "digit_char 13 = CHR ''d''" "digit_char 14 = CHR ''e''"
  "digit_char 15 = CHR ''f''" "digit_char (Suc 0) = CHR ''1''"
  by (simp_all add: digit_char_def)

lemma is_hex_lower_digit_char: "d < 16 \<Longrightarrow> is_hex_lower (digit_char d)"
  by (drule less_16_cases) (auto simp: char_class_defs)

lemma digit_char_inj: "d < 16 \<Longrightarrow> e < 16 \<Longrightarrow> digit_char d = digit_char e \<Longrightarrow> d = e"
  unfolding digit_char_def
  by (rule nth_eq_iff_index_eq [THEN iffD1, of "''0123456789abcdef''"]) simp_all

lemma length_hex_of_nat [simp]: "length (hex_of_nat w n) = w"
  by (induction w arbitrary: n) simp_all

lemma hex_of_nat_chars: "list_all is_hex_lower (hex_of_nat w n)"
  by (induction w arbitrary: n) (simp_all add: is_hex_lower_digit_char)

lemma hex_of_nat_inj: "hex_of_nat w m = hex_of_nat w n \<Longrightarrow> m mod 16 ^ w = n mod 16 ^ w"
proof (induction w arbitrary: m n)
  case 0
  then show ?case by simp
next
  case (Suc w)
  have heads: "hex_of_nat w (m div 16) = hex_of_nat w (n div 16)"
    and digits: "digit_char (m mod 16) = digit_char (n mod 16)" using Suc.prems by simp_all
  have last: "m mod 16 = n mod 16" by (rule digit_char_inj [OF _ _ digits]) simp_all
  have "m div 16 mod 16 ^ w = n div 16 mod 16 ^ w" by (rule Suc.IH [OF heads])
  moreover have split: "k mod 16 ^ Suc w = 16 * (k div 16 mod 16 ^ w) + k mod 16" for k :: nat
    by (simp add: mod_mult2_eq)
  ultimately show ?case unfolding split by (simp only: last)
qed

lemma length_uuid_hex [simp]: "length (uuid_hex u) = 32"
  by (simp add: uuid_hex_def)

lemma uuid_hex_chars: "list_all is_hex_lower (uuid_hex u)"
  by (simp add: uuid_hex_def hex_of_nat_chars)

lemma uuid_hex_inject [simp]: "uuid_hex u = uuid_hex v \<longleftrightarrow> u = v"
proof
  assume "uuid_hex u = uuid_hex v"
  then have "unat u mod 16 ^ 32 = unat v mod 16 ^ 32"
    unfolding uuid_hex_def by (rule hex_of_nat_inj)
  moreover have "unat u < 16 ^ 32" "unat v < 16 ^ 32"
    using unsigned_less [of u, where ?'a = nat] unsigned_less [of v, where ?'a = nat] by simp_all
  ultimately show "u = v" by (simp add: word_unat_eq_iff)
qed simp

lemma length_uuid_str [simp]: "length (uuid_str u) = 36"
  by (simp add: uuid_str_def Let_def)

lemma digit_char_decimal: "d < 10 \<Longrightarrow> is_digit_ascii (digit_char d)"
  using less_16_cases [of d] by (auto simp: char_class_defs)

lemma dec_of_nat_digits: "list_all is_digit_ascii (dec_of_nat n)" "dec_of_nat n \<noteq> []"
proof -
  show "list_all is_digit_ascii (dec_of_nat n)"
    by (induction n rule: dec_of_nat.induct) (subst dec_of_nat.simps, auto simp: digit_char_decimal)
  show "dec_of_nat n \<noteq> []" by (subst dec_of_nat.simps) simp
qed

end
