(* ===== verification/Domain.thy ===== *)
theory Domain
  imports PyText
begin

text \<open>
  The Session Manager's domain model: \<open>errors.py\<close>, \<open>models/domain.py\<close> and
  \<open>models/state.py\<close> of \<open>services/session-manager/src/retro_sessions\<close>.

  The pydantic models are records. Their field constraints and validators are
  executable predicates, and constructing a model is a function into
  \<open>exn + model\<close>, since a violated constraint raises. \<open>model_copy\<close> does not validate
  and is a plain record update. Timestamps are timezone-aware instants and durations
  are \<open>timedelta\<close>s, both counted in microseconds.
\<close>

section \<open>Exceptions\<close>

text \<open>
  The classes of \<open>errors.py\<close> and the built-in exceptions the code raises or catches.
  \<open>Diverged\<close> is not a Python exception: it marks a run of a loop model that used up
  its iteration bound, and no handler catches it.
\<close>

datatype exn =
    NotFoundError string
  | AuthorizationError string
  | ConflictError string
  | CapacityError string
  | RepositoryConflict string
  | OrchestrationError string
  | KeyError
  | ValueError string
  | ValidationError string
  | StopIteration
  | OtherException string
  | Diverged

text \<open>\<open>isinstance(e, ConflictError)\<close>: two classes inherit from it.\<close>

fun is_conflict_error :: "exn \<Rightarrow> bool" where
  "is_conflict_error (ConflictError m) = True"
| "is_conflict_error (CapacityError m) = True"
| "is_conflict_error (RepositoryConflict m) = True"
| "is_conflict_error _ = False"

fun is_orchestration_error :: "exn \<Rightarrow> bool" where
  "is_orchestration_error (OrchestrationError m) = True"
| "is_orchestration_error _ = False"

text \<open>\<open>except Exception\<close>: every exception, but not divergence.\<close>

definition catch_exception ::
  "(exn, 's, 'a) prog \<Rightarrow> (exn \<Rightarrow> (exn, 's, 'a) prog) \<Rightarrow> (exn, 's, 'a) prog" where
  "catch_exception f h = catchE f (\<lambda>e. if e = Diverged then raiseE e else h e)"

text \<open>The outcome of a \<open>try\<close> body as a value, for handlers that use local variables.\<close>

definition try_exception :: "(exn, 's, 'a) prog \<Rightarrow> (exn, 's, exn + 'a) prog" where
  "try_exception f = catch_exception (bindE f (\<lambda>a. returnE (Inr a))) (\<lambda>e. returnE (Inl e))"

definition construct :: "bool \<Rightarrow> 'a \<Rightarrow> exn + 'a" where
  "construct ok x = (if ok then Inr x else Inl (ValidationError ''field constraint''))"

section \<open>Field types\<close>

definition safe_user_id :: "string \<Rightarrow> bool" where
  "safe_user_id s \<longleftrightarrow> 1 \<le> length s \<and> length s \<le> 128 \<and>
     head_tail_pattern is_alnum_ascii (\<lambda>c. is_alnum_ascii c \<or> c \<in> set ''_.:@-'') s"

definition sha256_text :: "string \<Rightarrow> bool" where
  "sha256_text s \<longleftrightarrow> length s = 64 \<and> list_all is_hex_lower s"

text \<open>The pattern \<open>^[a-z0-9][a-z0-9-]*$\<close> of platforms and core profiles.\<close>

definition slug_pattern :: "string \<Rightarrow> bool" where
  "slug_pattern s \<longleftrightarrow>
     head_tail_pattern (\<lambda>c. is_lower_ascii c \<or> is_digit_ascii c)
       (\<lambda>c. is_lower_ascii c \<or> is_digit_ascii c \<or> c = CHR ''-'') s"

definition slug :: "string \<Rightarrow> bool" where
  "slug s \<longleftrightarrow> 1 \<le> length s \<and> length s \<le> 64 \<and> slug_pattern s"

section \<open>Friendly names\<close>

text \<open>The tables of \<open>unicodedata\<close> and \<open>str.strip\<close>, as a parameter.\<close>

record unicode_data =
  normalize_nfc :: "ustring \<Rightarrow> ustring"
  category :: "nat \<Rightarrow> string"
  is_space :: "nat \<Rightarrow> bool"

definition strip :: "('c \<Rightarrow> bool) \<Rightarrow> 'c list \<Rightarrow> 'c list" where
  "strip sp cs = rev (dropWhile sp (rev (dropWhile sp cs)))"

definition validate_friendly_name :: "unicode_data \<Rightarrow> ustring \<Rightarrow> exn + ustring" where
  "validate_friendly_name U v =
     (let normalized = normalize_nfc U v in
      if normalized \<noteq> strip (is_space U) normalized
      then Inl (ValueError ''name must not have surrounding whitespace'')
      else if list_ex (\<lambda>c. take 1 (category U c) = ''C'') normalized
      then Inl (ValueError ''name must not contain control characters'')
      else Inr normalized)"

section \<open>Models\<close>

datatype session_state = CREATING | STARTING | OPEN | RUNNING | DRAINING | CLOSED | ERROR

datatype participant_state =
    P_ALLOCATING | P_STARTING | P_STREAM_READY | P_NETPLAY_CONNECTING
  | P_ACTIVE | P_LEAVING | P_LEFT | P_ERROR

record actor =
  a_user_id :: string
  a_display_name :: ustring

record game_record =
  g_romm_rom_id :: int
  g_platform :: string
  g_canonical_path :: ustring
  g_rom_sha256 :: string

record core_profile =
  c_profile_id :: string
  c_platform :: string
  c_max_players :: int

record create_session_request =
  cr_display_name :: ustring
  cr_romm_rom_id :: int
  cr_max_players :: int

record participant =
  p_participant_id :: uuid
  p_session_id :: uuid
  p_user_id :: string
  p_display_name :: ustring
  p_player_slot :: int
  p_runtime_id :: "uuid option"
  p_stream_path :: "string option"
  p_state :: participant_state
  p_joined_at :: int
  p_last_heartbeat :: int

record session =
  s_session_id :: uuid
  s_display_name :: ustring
  s_owner_user_id :: string
  s_romm_rom_id :: int
  s_platform :: string
  s_rom_sha256 :: string
  s_core_profile_id :: string
  s_max_players :: int
  s_state :: session_state
  s_participants :: "participant list"
  s_created_at :: int
  s_updated_at :: int
  s_expires_at :: int
  s_closed_reason :: "string option"
  s_revision :: int

record stream_launch =
  l_stream_path :: string
  l_access_token :: string
  l_expires_at :: int

record runtime_capacity_view =
  rc_maximum :: int
  rc_used :: int
  rc_available :: int

datatype health_status = HS_none | HS_starting | HS_healthy | HS_unhealthy

record participant_diagnostic =
  pd_participant_id :: uuid
  pd_player_slot :: int
  pd_participant_state :: participant_state
  pd_runtime_state :: "string option"
  pd_runtime_health :: "health_status option"

record session_diagnostic =
  sd_session_id :: uuid
  sd_session_state :: session_state
  sd_platform :: string
  sd_core_profile_id :: string
  sd_player_count :: int
  sd_max_players :: int
  sd_closed_reason :: "string option"
  sd_expires_at :: int
  sd_runtime_capacity :: runtime_capacity_view
  sd_participants :: "participant_diagnostic list"

section \<open>Validation of the models\<close>

text \<open>A field validator that raises makes the whole model raise \<open>ValidationError\<close>.\<close>

definition name_field :: "unicode_data \<Rightarrow> ustring \<Rightarrow> exn + ustring" where
  "name_field U v =
     (if 1 \<le> length v \<and> length v \<le> 64
      then (case validate_friendly_name U v of
              Inl e \<Rightarrow> Inl (ValidationError ''display_name'') | Inr n \<Rightarrow> Inr n)
      else Inl (ValidationError ''display_name''))"

definition make_actor :: "unicode_data \<Rightarrow> string \<Rightarrow> ustring \<Rightarrow> exn + actor" where
  "make_actor U uid name =
     (if \<not> safe_user_id uid then Inl (ValidationError ''user_id'')
      else case name_field U name of
             Inl e \<Rightarrow> Inl e
           | Inr n \<Rightarrow> Inr \<lparr>a_user_id = uid, a_display_name = n\<rparr>)"

definition make_create_session_request ::
  "unicode_data \<Rightarrow> ustring \<Rightarrow> int \<Rightarrow> int \<Rightarrow> exn + create_session_request" where
  "make_create_session_request U name rom players =
     (if \<not> (rom > 0 \<and> 2 \<le> players \<and> players \<le> 16) then Inl (ValidationError ''field constraint'')
      else case name_field U name of
             Inl e \<Rightarrow> Inl e
           | Inr n \<Rightarrow> Inr \<lparr>cr_display_name = n, cr_romm_rom_id = rom, cr_max_players = players\<rparr>)"

definition game_record_ok :: "game_record \<Rightarrow> bool" where
  "game_record_ok g \<longleftrightarrow> g_romm_rom_id g > 0 \<and> slug (g_platform g) \<and>
     1 \<le> length (g_canonical_path g) \<and> length (g_canonical_path g) \<le> 4096 \<and>
     sha256_text (g_rom_sha256 g)"

definition core_profile_ok :: "core_profile \<Rightarrow> bool" where
  "core_profile_ok c \<longleftrightarrow> slug (c_profile_id c) \<and> slug (c_platform c) \<and>
     2 \<le> c_max_players c \<and> c_max_players c \<le> 16"

definition participant_ok :: "participant \<Rightarrow> bool" where
  "participant_ok p \<longleftrightarrow> safe_user_id (p_user_id p) \<and>
     1 \<le> length (p_display_name p) \<and> length (p_display_name p) \<le> 64 \<and>
     1 \<le> p_player_slot p \<and> p_player_slot p \<le> 16 \<and>
     (case p_stream_path p of None \<Rightarrow> True | Some t \<Rightarrow> length t \<le> 96)"

definition make_participant :: "participant \<Rightarrow> exn + participant" where
  "make_participant p = construct (participant_ok p) p"

text \<open>\<open>participant.state not in {LEFT, ERROR}\<close>, the test every count and guard uses.\<close>

definition is_live :: "participant \<Rightarrow> bool" where
  "is_live p \<longleftrightarrow> p_state p \<notin> {P_LEFT, P_ERROR}"

definition live_participants :: "session \<Rightarrow> participant list" where
  "live_participants x = filter is_live (s_participants x)"

definition player_count :: "session \<Rightarrow> int" where
  "player_count x = int (length (live_participants x))"

definition consistent_participants :: "session \<Rightarrow> exn + session" where
  "consistent_participants x =
     (let active = live_participants x in
      if list_ex (\<lambda>p. p_session_id p \<noteq> s_session_id x) (s_participants x)
      then Inl (ValidationError ''participant belongs to another session'')
      else if card (set (map p_user_id active)) \<noteq> length active
      then Inl (ValidationError ''active participant users must be unique'')
      else if card (set (map p_player_slot active)) \<noteq> length active
      then Inl (ValidationError ''active player slots must be unique'')
      else if list_ex (\<lambda>p. p_player_slot p > s_max_players x) active
      then Inl (ValidationError ''participant slot exceeds session capacity'')
      else if player_count x > s_max_players x
      then Inl (ValidationError ''participant count exceeds session capacity'')
      else Inr x)"

definition session_fields_ok :: "session \<Rightarrow> bool" where
  "session_fields_ok x \<longleftrightarrow>
     1 \<le> length (s_display_name x) \<and> length (s_display_name x) \<le> 64 \<and>
     safe_user_id (s_owner_user_id x) \<and> s_romm_rom_id x > 0 \<and> sha256_text (s_rom_sha256 x) \<and>
     2 \<le> s_max_players x \<and> s_max_players x \<le> 16 \<and>
     (case s_closed_reason x of None \<Rightarrow> True | Some r \<Rightarrow> length r \<le> 64) \<and> 0 \<le> s_revision x"

definition make_session :: "session \<Rightarrow> exn + session" where
  "make_session x =
     (if session_fields_ok x then consistent_participants x
      else Inl (ValidationError ''field constraint''))"

definition stream_launch_ok :: "stream_launch \<Rightarrow> bool" where
  "stream_launch_ok l \<longleftrightarrow>
     take 8 (l_stream_path l) = ''/stream/'' \<and> length (l_stream_path l) = 41 \<and>
     list_all is_hex_lower (take 32 (drop 8 (l_stream_path l))) \<and>
     drop 40 (l_stream_path l) = ''/'' \<and>
     32 \<le> length (l_access_token l) \<and> length (l_access_token l) \<le> 512"

definition make_stream_launch :: "stream_launch \<Rightarrow> exn + stream_launch" where
  "make_stream_launch l = construct (stream_launch_ok l) l"

section \<open>State transitions\<close>

fun session_transitions :: "session_state \<Rightarrow> session_state set" where
  "session_transitions CREATING = {STARTING, OPEN, CLOSED, ERROR}"
| "session_transitions STARTING = {OPEN, CLOSED, ERROR}"
| "session_transitions OPEN = {RUNNING, DRAINING, CLOSED, ERROR}"
| "session_transitions RUNNING = {DRAINING, CLOSED, ERROR}"
| "session_transitions DRAINING = {CLOSED, ERROR}"
| "session_transitions CLOSED = {}"
| "session_transitions ERROR = {DRAINING, CLOSED}"

fun participant_transitions :: "participant_state \<Rightarrow> participant_state set" where
  "participant_transitions P_ALLOCATING = {P_STARTING, P_ACTIVE, P_ERROR}"
| "participant_transitions P_STARTING = {P_STREAM_READY, P_ACTIVE, P_ERROR}"
| "participant_transitions P_STREAM_READY = {P_NETPLAY_CONNECTING, P_ACTIVE, P_ERROR}"
| "participant_transitions P_NETPLAY_CONNECTING = {P_ACTIVE, P_ERROR}"
| "participant_transitions P_ACTIVE = {P_LEAVING, P_ERROR}"
| "participant_transitions P_LEAVING = {P_LEFT, P_ERROR}"
| "participant_transitions P_LEFT = {}"
| "participant_transitions P_ERROR = {P_LEAVING, P_LEFT}"

fun session_state_value :: "session_state \<Rightarrow> string" where
  "session_state_value CREATING = ''CREATING''"
| "session_state_value STARTING = ''STARTING''"
| "session_state_value OPEN = ''OPEN''"
| "session_state_value RUNNING = ''RUNNING''"
| "session_state_value DRAINING = ''DRAINING''"
| "session_state_value CLOSED = ''CLOSED''"
| "session_state_value ERROR = ''ERROR''"

fun participant_state_value :: "participant_state \<Rightarrow> string" where
  "participant_state_value P_ALLOCATING = ''ALLOCATING''"
| "participant_state_value P_STARTING = ''STARTING''"
| "participant_state_value P_STREAM_READY = ''STREAM_READY''"
| "participant_state_value P_NETPLAY_CONNECTING = ''NETPLAY_CONNECTING''"
| "participant_state_value P_ACTIVE = ''ACTIVE''"
| "participant_state_value P_LEAVING = ''LEAVING''"
| "participant_state_value P_LEFT = ''LEFT''"
| "participant_state_value P_ERROR = ''ERROR''"

definition require_session_transition :: "session_state \<Rightarrow> session_state \<Rightarrow> exn + unit" where
  "require_session_transition current target =
     (if target \<notin> session_transitions current
      then Inl (ConflictError (''invalid session transition: '' @ session_state_value current @
                               '' -> '' @ session_state_value target))
      else Inr ())"

definition require_participant_transition ::
  "participant_state \<Rightarrow> participant_state \<Rightarrow> exn + unit" where
  "require_participant_transition current target =
     (if target \<notin> participant_transitions current
      then Inl (ConflictError (''invalid participant transition: '' @
                               participant_state_value current @
                               '' -> '' @ participant_state_value target))
      else Inr ())"

section \<open>Facts about the models\<close>

lemma wp_catch_exception [wp_simps]:
  "wp (catch_exception f h) Q E =
     wp f Q (\<lambda>e s. if e = Diverged then E e s else wp (h e) Q E s)"
  by (simp add: catch_exception_def wp_simps)

lemma wp_try_exception [wp_simps]:
  "wp (try_exception f) Q E =
     wp f (\<lambda>a. Q (Inr a)) (\<lambda>e s. if e = Diverged then E e s else Q (Inl e) s)"
  by (simp add: try_exception_def wp_simps)

lemma case_construct [simp]:
  "(case construct b x of Inl e \<Rightarrow> f e | Inr y \<Rightarrow> g y) =
     (if b then g x else f (ValidationError ''field constraint''))"
  by (simp add: construct_def)

lemma mem_live_participants [simp]:
  "p \<in> set (live_participants x) \<longleftrightarrow> p \<in> set (s_participants x) \<and> is_live p"
  by (auto simp: live_participants_def)

lemma card_set_map_eq_length: "card (set (map f xs)) = length xs \<longleftrightarrow> distinct (map f xs)"
  by (metis card_distinct distinct_card length_map)

end
