(* ===== verification/Interfaces.thy ===== *)
theory Interfaces
  imports Domain
begin

text \<open>
  The boundaries the Session Manager depends on: \<open>providers/interfaces.py\<close> and
  \<open>repositories/interfaces.py\<close>.

  Each protocol method is a field of the record \<open>services\<close>, a program over one state
  type that stands for everything the process can reach. The contract the service
  relies on is stated twice as a locale over the observable contents of the
  repository: \<open>session_env\<close> is what any deployment gives (calls may fail at any
  moment, expired records may disappear), \<open>reliable_env\<close> adds what a repository that
  never fails gives.
\<close>

section \<open>Provider data\<close>

datatype netplay_role = Host | Client

record runtime_request =
  rr_session_id :: uuid
  rr_participant_id :: uuid
  rr_user_id :: string
  rr_player_name :: ustring
  rr_rom_path :: ustring
  rr_rom_sha256 :: string
  rr_core_profile :: string
  rr_role :: netplay_role
  rr_host_participant_id :: "uuid option"

definition runtime_request_ok :: "runtime_request \<Rightarrow> bool" where
  "runtime_request_ok r \<longleftrightarrow> safe_user_id (rr_user_id r) \<and>
     1 \<le> length (rr_player_name r) \<and> length (rr_player_name r) \<le> 31 \<and>
     1 \<le> length (rr_rom_path r) \<and> length (rr_rom_path r) \<le> 4096 \<and>
     sha256_text (rr_rom_sha256 r) \<and> slug_pattern (rr_core_profile r)"

definition make_runtime_request :: "runtime_request \<Rightarrow> exn + runtime_request" where
  "make_runtime_request r = construct (runtime_request_ok r) r"

record runtime_handle =
  h_runtime_id :: uuid
  h_state :: string
  h_health_status :: health_status

section \<open>The service's collaborators\<close>

record 's services =
  repo_add :: "session \<Rightarrow> (exn, 's, unit) prog"
  repo_get :: "uuid \<Rightarrow> (exn, 's, session option) prog"
  repo_list :: "(exn, 's, session list) prog"
  repo_save :: "session \<Rightarrow> int \<Rightarrow> (exn, 's, unit) prog"
  repo_health :: "(exn, 's, bool) prog"
  romm_resolve_game :: "int \<Rightarrow> (exn, 's, game_record) prog"
  romm_health :: "(exn, 's, bool) prog"
  cores_resolve :: "string \<Rightarrow> (exn, 's, core_profile) prog"
  cores_health :: "(exn, 's, bool) prog"
  execution_create :: "runtime_request \<Rightarrow> (exn, 's, runtime_handle) prog"
  execution_inspect :: "uuid \<Rightarrow> (exn, 's, runtime_handle) prog"
  execution_list :: "(exn, 's, runtime_handle list) prog"
  execution_remove :: "uuid \<Rightarrow> (exn, 's, unit) prog"
  execution_health :: "(exn, 's, bool) prog"
  stream_provision :: "uuid \<Rightarrow> int \<Rightarrow> (exn, 's, string) prog"
  stream_revoke :: "uuid \<Rightarrow> (exn, 's, unit) prog"
  stream_health :: "(exn, 's, bool) prog"
  clock :: "'s \<Rightarrow> int \<times> 's"
  monotonic :: "'s \<Rightarrow> int \<times> 's"
  sleep :: "int \<Rightarrow> 's \<Rightarrow> unit \<times> 's"
  uuid4 :: "(exn, 's, uuid) prog"

type_synonym store = "uuid \<rightharpoonup> session"

section \<open>Contracts\<close>

text \<open>A call that changes nothing in the repository, except that records may expire.\<close>

definition keeps :: "('s \<Rightarrow> store) \<Rightarrow> ('s \<Rightarrow> 'r \<times> 's) \<Rightarrow> bool" where
  "keeps view f \<longleftrightarrow> (\<forall>s. view (snd (f s)) \<subseteq>\<^sub>m view s)"

definition keeps_exactly :: "('s \<Rightarrow> store) \<Rightarrow> ('s \<Rightarrow> 'r \<times> 's) \<Rightarrow> bool" where
  "keeps_exactly view f \<longleftrightarrow> (\<forall>s. view (snd (f s)) = view s)"

text \<open>Every listed session is a stored one, each stored under its own key once.\<close>

definition lists_store :: "store \<Rightarrow> session list \<Rightarrow> bool" where
  "lists_store m xs \<longleftrightarrow> (\<exists>ks. distinct ks \<and> map m ks = map Some xs)"

text \<open>
  The repository contract. A failing \<open>add\<close> or \<open>save\<close> may or may not have reached the
  store; a failing read has changed nothing. Records may expire while a listing is made, so a
  listed session was stored when the listing began, and an old record may make room for a new one.
\<close>

locale session_repository =
  fixes D :: "'s services"
    and view :: "'s \<Rightarrow> store"
  assumes add_law:
    "wp (repo_add D x)
       (\<lambda>_ t. \<exists>m. m \<subseteq>\<^sub>m view s \<and> m (s_session_id x) = None \<and> view t \<subseteq>\<^sub>m m(s_session_id x \<mapsto> x))
       (\<lambda>_ t. view t \<subseteq>\<^sub>m view s \<or>
              (\<exists>m. m \<subseteq>\<^sub>m view s \<and> m (s_session_id x) = None \<and> view t \<subseteq>\<^sub>m m(s_session_id x \<mapsto> x))) s"
    and get_law:
    "wp (repo_get D k) (\<lambda>r t. view t \<subseteq>\<^sub>m view s \<and> r = view t k) (\<lambda>_ t. view t \<subseteq>\<^sub>m view s) s"
    and list_law:
    "wp (repo_list D)
       (\<lambda>xs t. view t \<subseteq>\<^sub>m view s \<and> lists_store (view s) xs) (\<lambda>_ t. view t \<subseteq>\<^sub>m view s) s"
    and save_law:
    "wp (repo_save D x n)
       (\<lambda>_ t. \<exists>old. view s (s_session_id x) = Some old \<and> s_revision old = n \<and>
              s_revision x = n + 1 \<and> view t \<subseteq>\<^sub>m (view s)(s_session_id x \<mapsto> x))
       (\<lambda>_ t. view t \<subseteq>\<^sub>m view s \<or>
              (\<exists>old. view s (s_session_id x) = Some old \<and> s_revision old = n \<and>
               s_revision x = n + 1 \<and> view t \<subseteq>\<^sub>m (view s)(s_session_id x \<mapsto> x))) s"

text \<open>The other collaborators never write to the repository.\<close>

locale session_env = session_repository +
  assumes keeps_romm: "keeps view (romm_resolve_game D i)"
    and keeps_cores: "keeps view (cores_resolve D p)"
    and keeps_create: "keeps view (execution_create D r)"
    and keeps_inspect: "keeps view (execution_inspect D u)"
    and keeps_list: "keeps view (execution_list D)"
    and keeps_remove: "keeps view (execution_remove D u)"
    and keeps_provision: "keeps view (stream_provision D u g)"
    and keeps_revoke: "keeps view (stream_revoke D u)"
    and keeps_clock: "keeps view (clock D)"
    and keeps_monotonic: "keeps view (monotonic D)"
    and keeps_sleep: "keeps view (sleep D d)"
    and keeps_uuid4: "keeps view (uuid4 D)"
    and keeps_health: "keeps view (repo_health D)" "keeps view (romm_health D)" "keeps view (cores_health D)"
      "keeps view (execution_health D)" "keeps view (stream_health D)"

text \<open>A repository that never fails and never drops a record.\<close>

locale reliable_env = session_env +
  assumes add_exact:
    "wp (repo_add D x)
       (\<lambda>_ t. view s (s_session_id x) = None \<and> view t = (view s)(s_session_id x \<mapsto> x))
       (\<lambda>e t. view s (s_session_id x) \<noteq> None \<and> e = ConflictError ''session already exists'' \<and>
              view t = view s) s"
    and get_exact: "wp (repo_get D k) (\<lambda>r t. view t = view s \<and> r = view s k) (\<lambda>_ _. False) s"
    and list_exact:
    "wp (repo_list D)
       (\<lambda>xs t. view t = view s \<and>
          (\<exists>ks. distinct ks \<and> set ks = dom (view s) \<and> map (view s) ks = map Some xs) \<and>
          sorted (map s_created_at xs)) (\<lambda>_ _. False) s"
    and save_exact:
    "view s (s_session_id x) = Some old \<Longrightarrow> s_revision old = n \<Longrightarrow> s_revision x = n + 1 \<Longrightarrow>
     wp (repo_save D x n) (\<lambda>_ t. view t = (view s)(s_session_id x \<mapsto> x)) (\<lambda>_ _. False) s"
    and exact_romm: "keeps_exactly view (romm_resolve_game D i)"
    and exact_cores: "keeps_exactly view (cores_resolve D p)"
    and exact_create: "keeps_exactly view (execution_create D r)"
    and exact_inspect: "keeps_exactly view (execution_inspect D u)"
    and exact_list: "keeps_exactly view (execution_list D)"
    and exact_remove: "keeps_exactly view (execution_remove D u)"
    and exact_provision: "keeps_exactly view (stream_provision D u g)"
    and exact_revoke: "keeps_exactly view (stream_revoke D u)"
    and exact_clock: "keeps_exactly view (clock D)"
    and exact_monotonic: "keeps_exactly view (monotonic D)"
    and exact_sleep: "keeps_exactly view (sleep D d)"
    and exact_uuid4: "keeps_exactly view (uuid4 D)"

section \<open>Using the contracts\<close>

lemma keepsI:
  assumes "\<And>s. wp f (\<lambda>_ t. view t \<subseteq>\<^sub>m view s) (\<lambda>_ t. view t \<subseteq>\<^sub>m view s) s"
  shows "keeps view f"
  unfolding keeps_def
proof
  fix s
  show "view (snd (f s)) \<subseteq>\<^sub>m view s"
    using assms [of s] by (cases "f s") (auto simp: wp_def split: sum.splits)
qed

lemma wp_keeps:
  assumes "keeps view f"
    and "\<And>a t. view t \<subseteq>\<^sub>m view s \<Longrightarrow> Q a t"
    and "\<And>e t. view t \<subseteq>\<^sub>m view s \<Longrightarrow> E e t"
  shows "wp f Q E s"
  using assms(1) unfolding keeps_def by (metis assms(2,3) snd_conv wp_I)

lemma wp_keeps_liftE:
  assumes "keeps view f" and "\<And>a t. view t \<subseteq>\<^sub>m view s \<Longrightarrow> Q a t"
  shows "wp (liftE f) Q E s"
proof -
  obtain a t where ft: "f s = (a, t)" by (cases "f s")
  then have "view t \<subseteq>\<^sub>m view s" using assms(1) unfolding keeps_def by (metis snd_conv)
  with ft show ?thesis by (simp add: wp_liftE assms(2))
qed

lemma wp_keeps_exactly:
  assumes "keeps_exactly view f"
    and "\<And>a t. view t = view s \<Longrightarrow> Q a t"
    and "\<And>e t. view t = view s \<Longrightarrow> E e t"
  shows "wp f Q E s"
  using assms(1) unfolding keeps_exactly_def by (metis assms(2,3) snd_conv wp_I)

lemma wp_keeps_exactly_liftE:
  assumes "keeps_exactly view f" and "\<And>a t. view t = view s \<Longrightarrow> Q a t"
  shows "wp (liftE f) Q E s"
proof -
  obtain a t where ft: "f s = (a, t)" by (cases "f s")
  then have "view t = view s" using assms(1) unfolding keeps_exactly_def by (metis snd_conv)
  with ft show ?thesis by (simp add: wp_liftE assms(2))
qed

lemma lists_store_mem: "lists_store m xs \<Longrightarrow> x \<in> set xs \<Longrightarrow> \<exists>k. m k = Some x"
  unfolding lists_store_def by (metis image_iff list.set_map)

lemma lists_store_distinct:
  assumes "lists_store m xs" and keyed: "\<And>k x. m k = Some x \<Longrightarrow> s_session_id x = k"
  shows "distinct (map s_session_id xs)"
proof -
  obtain ks where ks: "distinct ks" "map m ks = map Some xs"
    using assms(1) unfolding lists_store_def by blast
  have "map s_session_id xs = ks"
  proof (rule nth_equalityI)
    show "length (map s_session_id xs) = length ks" using ks(2) by (metis length_map)
  next
    fix i assume "i < length (map s_session_id xs)"
    then have "m (ks ! i) = Some (xs ! i)" and "i < length xs"
      using ks(2) by (metis length_map nth_map)+
    then show "map s_session_id xs ! i = ks ! i" using keyed by simp
  qed
  with ks(1) show ?thesis by simp
qed

end
