(* ===== verification/SessionService.thy ===== *)
theory SessionService
  imports Interfaces
begin

text \<open>
  The Session Manager's lobby service, \<open>services/session_service.py\<close>: every method of
  the class \<open>SessionService\<close>, in the order of the source. The constructor's settings
  are the record \<open>service_config\<close>; the collaborators are a \<open>services\<close> record. Each
  public method runs under the instance lock, so it is one program from the state in
  which the lock is taken to the state in which it is released. Local variables that a
  loop body assigns are threaded through \<open>foldE\<close>.
\<close>

record service_config =
  session_ttl :: int
  lobby_lease :: int
  participant_idle_timeout :: int
  startup_timeout :: int
  netplay_connect_timeout :: int
  poll_interval :: int
  runtime_capacity :: int
  session_capacity :: int
  per_user_runtime_capacity :: int

text \<open>\<open>__init__\<close>: the settings are checked before the instance exists.\<close>

definition make_service :: "service_config \<Rightarrow> exn + service_config" where
  "make_service cfg =
     (if list_ex (\<lambda>d. d \<le> 0)
           [session_ttl cfg, lobby_lease cfg, participant_idle_timeout cfg,
            startup_timeout cfg, netplay_connect_timeout cfg, poll_interval cfg]
      then Inl (ValueError ''session and orchestration durations must be positive'')
      else if runtime_capacity cfg < 1
      then Inl (ValueError ''runtime capacity must be positive'')
      else if session_capacity cfg < 1 \<or> session_capacity cfg > runtime_capacity cfg
      then Inl (ValueError ''session capacity must be positive and not exceed runtime capacity'')
      else if per_user_runtime_capacity cfg < 1 \<or>
              per_user_runtime_capacity cfg > runtime_capacity cfg
      then Inl (ValueError
             ''per-user runtime capacity must be positive and not exceed runtime capacity'')
      else Inr cfg)"

section \<open>Helpers on sessions\<close>

definition left_participant :: "participant \<Rightarrow> int \<Rightarrow> exn + participant" where
  "left_participant p now =
     (if p_state p \<in> {P_LEFT, P_ERROR} then Inr p
      else case require_participant_transition (p_state p) P_LEAVING of
             Inl e \<Rightarrow> Inl e
           | Inr _ \<Rightarrow> (case require_participant_transition P_LEAVING P_LEFT of
                Inl e \<Rightarrow> Inl e
              | Inr _ \<Rightarrow> Inr (p\<lparr>p_state := P_LEFT, p_last_heartbeat := now\<rparr>)))"

definition lease_expiry :: "service_config \<Rightarrow> session \<Rightarrow> int \<Rightarrow> int" where
  "lease_expiry cfg x now = min (now + lobby_lease cfg) (s_created_at x + session_ttl cfg)"

definition netplay_player_name :: "participant \<Rightarrow> ustring" where
  "netplay_player_name p =
     (if utf8_length (p_display_name p) \<le> 31 then p_display_name p
      else ustring_of (''Player '' @ str_of_int (p_player_slot p)))"

definition substitute :: "participant \<Rightarrow> participant list \<Rightarrow> participant list" where
  "substitute p ps =
     map (\<lambda>q. if p_participant_id q = p_participant_id p then p else q) ps"

definition updated_session ::
  "session \<Rightarrow> participant list \<Rightarrow> session_state \<Rightarrow> int \<Rightarrow> int option \<Rightarrow> session" where
  "updated_session x ps st now expires =
     x\<lparr>s_state := st, s_participants := ps, s_updated_at := now,
       s_expires_at := (case expires of None \<Rightarrow> s_expires_at x | Some e \<Rightarrow> e),
       s_revision := s_revision x + 1\<rparr>"

definition replace_participant ::
  "'s services \<Rightarrow> session \<Rightarrow> participant \<Rightarrow> session_state \<Rightarrow> bool \<Rightarrow> int option \<Rightarrow>
   (exn, 's, session) prog" where
  "replace_participant D x p st app expires =
     (let ps = (if app then s_participants x @ [p] else substitute p (s_participants x)) in
      bindE (liftE (clock D)) (\<lambda>now.
      let updated = updated_session x ps st now expires in
      bindE (repo_save D updated (s_revision x)) (\<lambda>_.
      returnE updated)))"

section \<open>Runtime teardown\<close>

definition best_effort_revoke :: "'s services \<Rightarrow> uuid \<Rightarrow> (exn, 's, unit) prog" where
  "best_effort_revoke D u = catch_exception (stream_revoke D u) (\<lambda>_. returnE ())"

definition cleanup_failed_runtime :: "'s services \<Rightarrow> uuid \<Rightarrow> (exn, 's, unit) prog" where
  "cleanup_failed_runtime D u =
     bindE (best_effort_revoke D u) (\<lambda>_.
     catch_exception (execution_remove D u) (\<lambda>_. returnE ()))"

definition retire_runtime :: "'s services \<Rightarrow> uuid \<Rightarrow> (exn, 's, unit) prog" where
  "retire_runtime D u =
     bindE (best_effort_revoke D u) (\<lambda>_.
     execution_remove D u)"

section \<open>Closing and expiry\<close>

definition closed_session :: "session \<Rightarrow> participant list \<Rightarrow> int \<Rightarrow> string \<Rightarrow> session" where
  "closed_session x ps now reason =
     x\<lparr>s_state := CLOSED, s_participants := ps, s_updated_at := now,
       s_closed_reason := Some reason, s_revision := s_revision x + 1\<rparr>"

definition close_session :: "'s services \<Rightarrow> session \<Rightarrow> string \<Rightarrow> (exn, 's, session) prog" where
  "close_session D x reason =
     (if s_state x = CLOSED then returnE x else
      bindE (resultE (require_session_transition (s_state x) CLOSED)) (\<lambda>_.
      bindE (liftE (clock D)) (\<lambda>now.
      bindE (forE (\<lambda>p. if is_live p then retire_runtime D (p_participant_id p) else returnE ())
                  (s_participants x)) (\<lambda>_.
      bindE (mapE (\<lambda>p. resultE (left_participant p now)) (s_participants x)) (\<lambda>ps.
      let updated = closed_session x ps now reason in
      bindE (repo_save D updated (s_revision x)) (\<lambda>_.
      returnE updated))))))"

definition required :: "'s services \<Rightarrow> uuid \<Rightarrow> (exn, 's, session) prog" where
  "required D sid =
     bindE (repo_get D sid) (\<lambda>r.
     case r of None \<Rightarrow> raiseE (NotFoundError ''session not found'') | Some x \<Rightarrow> returnE x)"

definition expire :: "'s services \<Rightarrow> session \<Rightarrow> (exn, 's, session) prog" where
  "expire D x =
     (if s_state x \<noteq> CLOSED
      then bindE (liftE (clock D)) (\<lambda>now.
           if s_expires_at x \<le> now then close_session D x ''expired'' else returnE x)
      else returnE x)"

definition retire_participant ::
  "'s services \<Rightarrow> session \<Rightarrow> participant \<Rightarrow> bool \<Rightarrow> (exn, 's, session) prog" where
  "retire_participant D x p failed =
     bindE (retire_runtime D (p_participant_id p)) (\<lambda>_.
     bindE (liftE (clock D)) (\<lambda>now.
     bindE (if failed then returnE (p\<lparr>p_state := P_ERROR, p_last_heartbeat := now\<rparr>)
            else resultE (left_participant p now)) (\<lambda>retired.
     replace_participant D x retired (s_state x) False None)))"

section \<open>The sweeper\<close>

text \<open>One iteration of the loop over a session's active participants.\<close>

definition sweep_participant ::
  "'s services \<Rightarrow> participant list \<Rightarrow> participant \<Rightarrow> session \<times> int \<times> bool \<Rightarrow>
   (exn, 's, session \<times> int \<times> bool) prog" where
  "sweep_participant D stale p acc =
     (case acc of (current, cleaned, stopped) \<Rightarrow>
      if stopped then returnE (current, cleaned, stopped)
      else if p \<in> set stale
      then bindE (retire_participant D current p False) (\<lambda>x. returnE (x, cleaned + 1, False))
      else bindE (catchE (bindE (execution_inspect D (p_participant_id p)) (\<lambda>h. returnE (Some h)))
                         (\<lambda>e. if is_orchestration_error e then returnE None else raiseE e))
             (\<lambda>runtime.
           if (case runtime of None \<Rightarrow> True
               | Some h \<Rightarrow> h_state h \<noteq> ''running'' \<or> h_health_status h \<noteq> HS_healthy)
           then (if p_user_id p = s_owner_user_id current
                 then bindE (close_session D current ''owner_runtime_failed'')
                        (\<lambda>_. returnE (current, cleaned + 1, True))
                 else bindE (retire_participant D current p True)
                        (\<lambda>x. returnE (x, cleaned + 1, False)))
           else returnE (current, cleaned, False)))"

definition active_list :: "session \<Rightarrow> participant list" where
  "active_list x = filter (\<lambda>p. p_state p = P_ACTIVE) (s_participants x)"

text \<open>One iteration of the loop over the repository's sessions.\<close>

definition sweep_session ::
  "service_config \<Rightarrow> 's services \<Rightarrow> session \<Rightarrow> int \<Rightarrow> (exn, 's, int) prog" where
  "sweep_session cfg D x cleaned =
     (if s_state x = CLOSED then returnE cleaned else
      bindE (liftE (clock D)) (\<lambda>now.
      if s_expires_at x \<le> now \<or> s_created_at x + session_ttl cfg \<le> now
      then bindE (close_session D x ''expired'') (\<lambda>_. returnE (cleaned + 1))
      else
        let active = active_list x;
            stale = filter (\<lambda>p. p_last_heartbeat p + participant_idle_timeout cfg \<le> now) active;
            owner = first_match (\<lambda>p. p_user_id p = s_owner_user_id x) active
        in if (case owner of None \<Rightarrow> True | Some p \<Rightarrow> p \<in> set stale)
           then bindE (close_session D x ''owner_abandoned'') (\<lambda>_. returnE (cleaned + 1))
           else bindE (foldE (sweep_participant D stale) active (x, cleaned, False))
                  (\<lambda>acc. returnE (fst (snd acc)))))"

definition sweep :: "service_config \<Rightarrow> 's services \<Rightarrow> (exn, 's, int) prog" where
  "sweep cfg D = bindE (repo_list D) (\<lambda>xs. foldE (sweep_session cfg D) xs 0)"

definition expire_due :: "service_config \<Rightarrow> 's services \<Rightarrow> (exn, 's, int) prog" where
  "expire_due cfg D = sweep cfg D"

definition reconcile_startup :: "'s services \<Rightarrow> (exn, 's, int) prog" where
  "reconcile_startup D =
     bindE (repo_list D) (\<lambda>xs.
     bindE (foldE (\<lambda>x cleaned.
              if s_state x \<noteq> CLOSED
              then bindE (close_session D x ''manager_restarted'') (\<lambda>_. returnE (cleaned + 1))
              else returnE cleaned) xs 0) (\<lambda>cleaned.
     bindE (execution_list D) (\<lambda>hs.
     foldE (\<lambda>h cleaned.
              bindE (best_effort_revoke D (h_runtime_id h)) (\<lambda>_.
              bindE (execution_remove D (h_runtime_id h)) (\<lambda>_.
              returnE (cleaned + 1)))) hs cleaned)))"

section \<open>Health, capacity and diagnostics\<close>

definition ready :: "'s services \<Rightarrow> (exn, 's, bool) prog" where
  "ready D =
     catch_exception
       (bindE (repo_health D) (\<lambda>a. if \<not> a then returnE False else
        bindE (romm_health D) (\<lambda>b. if \<not> b then returnE False else
        bindE (cores_health D) (\<lambda>c. if \<not> c then returnE False else
        bindE (execution_health D) (\<lambda>d. if \<not> d then returnE False else
        stream_health D)))))
       (\<lambda>_. returnE False)"

definition operational_snapshot ::
  "service_config \<Rightarrow> 's services \<Rightarrow> (exn, 's, session list \<times> int \<times> int) prog" where
  "operational_snapshot cfg D =
     bindE (repo_list D) (\<lambda>sessions.
     bindE (execution_list D) (\<lambda>hs.
     returnE (sessions, int (length hs), runtime_capacity cfg)))"

definition capacity :: "service_config \<Rightarrow> 's services \<Rightarrow> (exn, 's, runtime_capacity_view) prog" where
  "capacity cfg D =
     bindE (execution_list D) (\<lambda>hs.
     let used = int (length hs) in
     returnE \<lparr>rc_maximum = runtime_capacity cfg, rc_used = used,
              rc_available = max 0 (runtime_capacity cfg - used)\<rparr>)"

definition participant_diagnostics ::
  "'s services \<Rightarrow> participant \<Rightarrow> (exn, 's, participant_diagnostic) prog" where
  "participant_diagnostics D p =
     bindE (case p_runtime_id p of
              None \<Rightarrow> returnE None
            | Some u \<Rightarrow> catch_exception (bindE (execution_inspect D u) (\<lambda>h. returnE (Some h)))
                                        (\<lambda>_. returnE None)) (\<lambda>handle.
     returnE \<lparr>pd_participant_id = p_participant_id p, pd_player_slot = p_player_slot p,
              pd_participant_state = p_state p,
              pd_runtime_state = map_option h_state handle,
              pd_runtime_health = map_option h_health_status handle\<rparr>)"

definition diagnostics ::
  "service_config \<Rightarrow> 's services \<Rightarrow> uuid \<Rightarrow> (exn, 's, session_diagnostic) prog" where
  "diagnostics cfg D sid =
     bindE (required D sid) (\<lambda>x.
     bindE (mapE (participant_diagnostics D) (s_participants x)) (\<lambda>items.
     bindE (capacity cfg D) (\<lambda>cap.
     returnE \<lparr>sd_session_id = s_session_id x, sd_session_state = s_state x,
              sd_platform = s_platform x, sd_core_profile_id = s_core_profile_id x,
              sd_player_count = player_count x, sd_max_players = s_max_players x,
              sd_closed_reason = s_closed_reason x, sd_expires_at = s_expires_at x,
              sd_runtime_capacity = cap, sd_participants = items\<rparr>)))"

section \<open>Quotas and game resolution\<close>

definition resolve :: "'s services \<Rightarrow> int \<Rightarrow> (exn, 's, game_record \<times> core_profile) prog" where
  "resolve D rom =
     bindE (catchE (romm_resolve_game D rom)
              (\<lambda>e. if e = KeyError then raiseE (NotFoundError ''game not found'') else raiseE e))
       (\<lambda>game.
     bindE (catchE (cores_resolve D (g_platform game))
              (\<lambda>e. if e = KeyError
                   then raiseE (ConflictError ''no approved core profile for game platform'')
                   else raiseE e))
       (\<lambda>core.
     if c_platform core \<noteq> g_platform game
     then raiseE (ConflictError ''core profile platform does not match game'')
     else returnE (game, core)))"

definition require_runtime_capacity :: "service_config \<Rightarrow> 's services \<Rightarrow> (exn, 's, unit) prog" where
  "require_runtime_capacity cfg D =
     bindE (execution_list D) (\<lambda>hs.
     if int (length hs) \<ge> runtime_capacity cfg
     then raiseE (CapacityError ''runtime capacity is exhausted'') else returnE ())"

definition is_active_session :: "session \<Rightarrow> bool" where
  "is_active_session x \<longleftrightarrow> s_state x \<notin> {CLOSED, ERROR}"

definition active_sessions :: "'s services \<Rightarrow> (exn, 's, session list) prog" where
  "active_sessions D = bindE (repo_list D) (\<lambda>xs. returnE (filter is_active_session xs))"

definition require_session_capacity :: "service_config \<Rightarrow> 's services \<Rightarrow> (exn, 's, unit) prog" where
  "require_session_capacity cfg D =
     bindE (active_sessions D) (\<lambda>xs.
     if int (length xs) \<ge> session_capacity cfg
     then raiseE (CapacityError ''session capacity is exhausted'') else returnE ())"

definition user_live_count :: "string \<Rightarrow> session list \<Rightarrow> int" where
  "user_live_count u xs =
     int (length (filter (\<lambda>p. p_user_id p = u \<and> is_live p) (concat (map s_participants xs))))"

definition require_user_runtime_capacity ::
  "service_config \<Rightarrow> 's services \<Rightarrow> string \<Rightarrow> (exn, 's, unit) prog" where
  "require_user_runtime_capacity cfg D u =
     bindE (active_sessions D) (\<lambda>xs.
     if user_live_count u xs \<ge> per_user_runtime_capacity cfg
     then raiseE (CapacityError ''per-user runtime capacity is exhausted'') else returnE ())"

section \<open>Starting a participant\<close>

text \<open>
  The \<open>while True\<close> of \<open>_wait_ready\<close>, bounded by a number of iterations; using up the
  bound is \<open>Diverged\<close>.
\<close>

primrec wait_loop ::
  "nat \<Rightarrow> service_config \<Rightarrow> 's services \<Rightarrow> uuid \<Rightarrow> int \<Rightarrow> runtime_handle \<Rightarrow>
   (exn, 's, unit) prog" where
  "wait_loop 0 cfg D rid deadline current = raiseE Diverged"
| "wait_loop (Suc n) cfg D rid deadline current =
     (if h_state current = ''running'' \<and> h_health_status current = HS_healthy then returnE ()
      else if h_state current \<notin> {''created'', ''running'', ''restarting''}
      then raiseE (OrchestrationError ''participant runtime stopped during startup'')
      else if h_health_status current = HS_unhealthy
      then raiseE (OrchestrationError ''participant runtime became unhealthy'')
      else bindE (liftE (monotonic D)) (\<lambda>m.
           let remaining = deadline - m in
           if remaining \<le> 0
           then raiseE (OrchestrationError ''participant runtime readiness timed out'')
           else bindE (liftE (sleep D (min (poll_interval cfg) remaining))) (\<lambda>_.
                bindE (execution_inspect D rid) (\<lambda>h.
                wait_loop n cfg D rid deadline h))))"

definition wait_bound :: "service_config \<Rightarrow> int \<Rightarrow> nat" where
  "wait_bound cfg timeout = nat (timeout div poll_interval cfg) + 2"

definition wait_ready ::
  "service_config \<Rightarrow> 's services \<Rightarrow> runtime_handle \<Rightarrow> int \<Rightarrow> (exn, 's, unit) prog" where
  "wait_ready cfg D handle timeout =
     bindE (liftE (monotonic D)) (\<lambda>m.
     wait_loop (wait_bound cfg timeout) cfg D (h_runtime_id handle) (m + timeout) handle)"

text \<open>
  The \<open>except\<close> branch; \<open>current\<close> is the local variable's value when it is entered.
\<close>

definition mark_failed ::
  "'s services \<Rightarrow> netplay_role \<Rightarrow> uuid \<Rightarrow> session \<Rightarrow> exn \<Rightarrow> (exn, 's, session) prog" where
  "mark_failed D role pid failed err =
     bindE (case first_match (\<lambda>q. p_participant_id q = pid) (s_participants failed) of
              None \<Rightarrow> raiseE StopIteration
            | Some q \<Rightarrow> returnE (q\<lparr>p_state := P_ERROR\<rparr>)) (\<lambda>q.
     bindE (replace_participant D failed q (if role = Host then ERROR else s_state failed)
              False None) (\<lambda>_.
     if is_orchestration_error err then raiseE err
     else raiseE (OrchestrationError ''participant runtime startup failed'')))"

definition start_failed ::
  "'s services \<Rightarrow> netplay_role \<Rightarrow> uuid \<Rightarrow> session \<Rightarrow> exn \<Rightarrow> (exn, 's, session) prog" where
  "start_failed D role pid current err =
     bindE (cleanup_failed_runtime D pid) (\<lambda>_.
     bindE (repo_get D (s_session_id current)) (\<lambda>r.
     mark_failed D role pid (case r of None \<Rightarrow> current | Some x \<Rightarrow> x) err))"

definition stream_path_of :: "uuid \<Rightarrow> string" where
  "stream_path_of u = ''/stream/'' @ uuid_hex u"

text \<open>The part after the \<open>try\<close> statement.\<close>

definition activate_participant ::
  "service_config \<Rightarrow> 's services \<Rightarrow> session \<Rightarrow> participant \<Rightarrow> (exn, 's, session) prog" where
  "activate_participant cfg D current with_runtime =
     bindE (resultE (require_participant_transition P_STARTING P_ACTIVE)) (\<lambda>_.
     bindE (liftE (clock D)) (\<lambda>active_at.
     let active = with_runtime\<lparr>p_state := P_ACTIVE, p_last_heartbeat := active_at,
                    p_stream_path := Some (stream_path_of (p_participant_id with_runtime))\<rparr>;
         final = (if s_state current = STARTING then OPEN else s_state current) in
     bindE (if s_state current = STARTING
            then resultE (require_session_transition (s_state current) final)
            else returnE ()) (\<lambda>_.
     replace_participant D current active final False
       (Some (lease_expiry cfg current active_at)))))"

text \<open>The second half of the \<open>try\<close> body, entered once \<open>current\<close> holds the runtime id.\<close>

definition await_participant ::
  "service_config \<Rightarrow> 's services \<Rightarrow> netplay_role \<Rightarrow> runtime_handle \<Rightarrow> participant \<Rightarrow> session \<Rightarrow>
   (exn, 's, session) prog" where
  "await_participant cfg D role handle with_runtime current =
     bindE (try_exception
              (bindE (wait_ready cfg D handle
                        (if role = Host then startup_timeout cfg
                         else netplay_connect_timeout cfg)) (\<lambda>_.
               stream_provision D (p_participant_id with_runtime) 1))) (\<lambda>r.
     case r of
       Inl e \<Rightarrow> start_failed D role (p_participant_id with_runtime) current e
     | Inr _ \<Rightarrow> activate_participant cfg D current with_runtime)"

text \<open>The \<open>try\<close> statement and what follows it.\<close>

definition run_participant ::
  "service_config \<Rightarrow> 's services \<Rightarrow> netplay_role \<Rightarrow> participant \<Rightarrow> session \<Rightarrow> runtime_request \<Rightarrow>
   (exn, 's, session) prog" where
  "run_participant cfg D role starting current request =
     bindE (try_exception
              (bindE (execution_create D request) (\<lambda>handle.
               let with_runtime = starting\<lparr>p_runtime_id := Some (h_runtime_id handle)\<rparr> in
               bindE (replace_participant D current with_runtime (s_state current) False None)
                 (\<lambda>updated. returnE (handle, with_runtime, updated))))) (\<lambda>r.
     case r of
       Inl e \<Rightarrow> start_failed D role (p_participant_id starting) current e
     | Inr (handle, with_runtime, updated) \<Rightarrow>
         await_participant cfg D role handle with_runtime updated)"

definition start_participant ::
  "service_config \<Rightarrow> 's services \<Rightarrow> session \<Rightarrow> participant \<Rightarrow> game_record \<Rightarrow> core_profile \<Rightarrow>
   netplay_role \<Rightarrow> uuid option \<Rightarrow> (exn, 's, session) prog" where
  "start_participant cfg D x p game core role host =
     (let starting = p\<lparr>p_state := P_STARTING\<rparr>;
          target = (if s_state x = CREATING then STARTING else s_state x) in
      bindE (resultE (require_participant_transition (p_state p) P_STARTING)) (\<lambda>_.
      bindE (if s_state x = CREATING
             then resultE (require_session_transition (s_state x) target) else returnE ()) (\<lambda>_.
      bindE (replace_participant D x starting target False None) (\<lambda>current.
      bindE (resultE (make_runtime_request
               \<lparr>rr_session_id = s_session_id current, rr_participant_id = p_participant_id p,
                rr_user_id = p_user_id p, rr_player_name = netplay_player_name p,
                rr_rom_path = g_canonical_path game, rr_rom_sha256 = g_rom_sha256 game,
                rr_core_profile = c_profile_id core, rr_role = role,
                rr_host_participant_id = host\<rparr>)) (\<lambda>request.
      run_participant cfg D role starting current request)))))"

section \<open>Public operations\<close>

definition create ::
  "service_config \<Rightarrow> 's services \<Rightarrow> actor \<Rightarrow> create_session_request \<Rightarrow> (exn, 's, session) prog" where
  "create cfg D actor request =
     bindE (expire_due cfg D) (\<lambda>_.
     bindE (require_session_capacity cfg D) (\<lambda>_.
     bindE (require_user_runtime_capacity cfg D (a_user_id actor)) (\<lambda>_.
     bindE (require_runtime_capacity cfg D) (\<lambda>_.
     bindE (resolve D (cr_romm_rom_id request)) (\<lambda>(game, core).
     if cr_max_players request > c_max_players core
     then raiseE (ConflictError ''requested capacity exceeds core profile capacity'')
     else
       bindE (liftE (clock D)) (\<lambda>now.
       bindE (uuid4 D) (\<lambda>sid.
       bindE (uuid4 D) (\<lambda>pid.
       bindE (resultE (make_participant
                \<lparr>p_participant_id = pid, p_session_id = sid, p_user_id = a_user_id actor,
                 p_display_name = a_display_name actor, p_player_slot = 1, p_runtime_id = None,
                 p_stream_path = None, p_state = P_ALLOCATING, p_joined_at = now,
                 p_last_heartbeat = now\<rparr>)) (\<lambda>owner.
       bindE (resultE (make_session
                \<lparr>s_session_id = sid, s_display_name = cr_display_name request,
                 s_owner_user_id = a_user_id actor, s_romm_rom_id = g_romm_rom_id game,
                 s_platform = g_platform game, s_rom_sha256 = g_rom_sha256 game,
                 s_core_profile_id = c_profile_id core, s_max_players = cr_max_players request,
                 s_state = CREATING, s_participants = [owner], s_created_at = now,
                 s_updated_at = now,
                 s_expires_at = now + min (lobby_lease cfg) (session_ttl cfg),
                 s_closed_reason = None, s_revision = 0\<rparr>)) (\<lambda>x.
       bindE (repo_add D x) (\<lambda>_.
       start_participant cfg D x owner game core Host None)))))))))))"

definition discover :: "service_config \<Rightarrow> 's services \<Rightarrow> (exn, 's, session list) prog" where
  "discover cfg D =
     bindE (expire_due cfg D) (\<lambda>_.
     bindE (repo_list D) (\<lambda>xs.
     returnE (filter (\<lambda>x. s_state x = OPEN) xs)))"

definition get_session :: "'s services \<Rightarrow> uuid \<Rightarrow> (exn, 's, session) prog" where
  "get_session D sid = bindE (required D sid) (expire D)"

definition free_slot :: "session \<Rightarrow> int option" where
  "free_slot x =
     first_match (\<lambda>slot. slot \<notin> set (map p_player_slot (live_participants x))) [1..s_max_players x]"

text \<open>The second half of \<open>join\<close>, once every check has passed.\<close>

definition join_admit ::
  "service_config \<Rightarrow> 's services \<Rightarrow> session \<Rightarrow> actor \<Rightarrow> game_record \<Rightarrow> core_profile \<Rightarrow>
   (exn, 's, session) prog" where
  "join_admit cfg D x actor game core =
     bindE (case free_slot x of None \<Rightarrow> raiseE StopIteration | Some slot \<Rightarrow> returnE slot) (\<lambda>slot.
     bindE (liftE (clock D)) (\<lambda>now.
     bindE (uuid4 D) (\<lambda>pid.
     bindE (resultE (make_participant
              \<lparr>p_participant_id = pid, p_session_id = s_session_id x,
               p_user_id = a_user_id actor, p_display_name = a_display_name actor,
               p_player_slot = slot, p_runtime_id = None, p_stream_path = None,
               p_state = P_ALLOCATING, p_joined_at = now, p_last_heartbeat = now\<rparr>)) (\<lambda>p.
     bindE (replace_participant D x p (s_state x) True None) (\<lambda>updated.
     bindE (case first_match (\<lambda>q. p_player_slot q = 1) (s_participants x) of
              None \<Rightarrow> raiseE StopIteration | Some q \<Rightarrow> returnE q) (\<lambda>host.
     start_participant cfg D updated p game core Client (Some (p_participant_id host))))))))"

definition join :: "service_config \<Rightarrow> 's services \<Rightarrow> uuid \<Rightarrow> actor \<Rightarrow> (exn, 's, session) prog" where
  "join cfg D sid actor =
     bindE (required D sid) (\<lambda>x0.
     bindE (expire D x0) (\<lambda>x.
     if list_ex (\<lambda>p. p_user_id p = a_user_id actor \<and> p_state p = P_ACTIVE) (s_participants x)
     then returnE x
     else if s_state x \<noteq> OPEN then raiseE (ConflictError ''session is not open'')
     else if player_count x \<ge> s_max_players x
     then raiseE (CapacityError ''session is at capacity'')
     else
       bindE (require_user_runtime_capacity cfg D (a_user_id actor)) (\<lambda>_.
       bindE (require_runtime_capacity cfg D) (\<lambda>_.
       bindE (resolve D (s_romm_rom_id x)) (\<lambda>(game, core).
       if g_platform game \<noteq> s_platform x \<or> g_rom_sha256 game \<noteq> s_rom_sha256 x \<or>
          c_profile_id core \<noteq> s_core_profile_id x
       then raiseE (ConflictError ''trusted game or core metadata changed during the session'')
       else
         join_admit cfg D x actor game core)))))"

text \<open>The active participant of an actor, as \<open>launch\<close> and \<open>heartbeat\<close> look it up.\<close>

definition active_participant :: "session \<Rightarrow> string \<Rightarrow> participant option" where
  "active_participant x u =
     first_match (\<lambda>p. p_user_id p = u \<and> p_state p = P_ACTIVE) (s_participants x)"

definition launch :: "'s services \<Rightarrow> uuid \<Rightarrow> actor \<Rightarrow> (exn, 's, stream_launch) prog" where
  "launch D sid actor =
     bindE (required D sid) (\<lambda>x0.
     bindE (expire D x0) (\<lambda>x.
     case active_participant x (a_user_id actor) of
       None \<Rightarrow> raiseE (AuthorizationError ''actor is not an active participant'')
     | Some p \<Rightarrow> (case p_stream_path p of
         None \<Rightarrow> raiseE (AuthorizationError ''actor is not an active participant'')
       | Some path \<Rightarrow>
           bindE (stream_provision D (p_participant_id p) 1) (\<lambda>token.
           resultE (make_stream_launch
             \<lparr>l_stream_path = path @ ''/'', l_access_token = token,
              l_expires_at = s_expires_at x\<rparr>)))))"

definition heartbeat ::
  "service_config \<Rightarrow> 's services \<Rightarrow> uuid \<Rightarrow> actor \<Rightarrow> (exn, 's, session) prog" where
  "heartbeat cfg D sid actor =
     bindE (required D sid) (\<lambda>x0.
     bindE (expire D x0) (\<lambda>x.
     case active_participant x (a_user_id actor) of
       None \<Rightarrow> raiseE (AuthorizationError ''actor is not an active participant'')
     | Some p \<Rightarrow>
         bindE (liftE (clock D)) (\<lambda>now.
         replace_participant D x (p\<lparr>p_last_heartbeat := now\<rparr>) (s_state x) False
           (Some (lease_expiry cfg x now)))))"

definition leave :: "'s services \<Rightarrow> uuid \<Rightarrow> actor \<Rightarrow> (exn, 's, session) prog" where
  "leave D sid actor =
     bindE (required D sid) (\<lambda>x0.
     bindE (expire D x0) (\<lambda>x.
     case first_match (\<lambda>p. p_user_id p = a_user_id actor \<and> is_live p) (s_participants x) of
       None \<Rightarrow>
         if list_ex (\<lambda>p. p_user_id p = a_user_id actor) (s_participants x) then returnE x
         else raiseE (NotFoundError ''participant not found'')
     | Some p \<Rightarrow>
         if s_state x = CLOSED then returnE x
         else bindE (retire_runtime D (p_participant_id p)) (\<lambda>_.
              bindE (liftE (clock D)) (\<lambda>now.
              bindE (resultE (left_participant p now)) (\<lambda>left.
              replace_participant D x left (s_state x) False None)))))"

definition kick :: "'s services \<Rightarrow> uuid \<Rightarrow> actor \<Rightarrow> uuid \<Rightarrow> (exn, 's, session) prog" where
  "kick D sid actor pid =
     bindE (required D sid) (\<lambda>x0.
     bindE (expire D x0) (\<lambda>x.
     if s_owner_user_id x \<noteq> a_user_id actor
     then raiseE (AuthorizationError ''only the session owner may kick a participant'')
     else case first_match (\<lambda>p. p_participant_id p = pid) (s_participants x) of
       None \<Rightarrow> raiseE (NotFoundError ''participant not found'')
     | Some p \<Rightarrow>
         if p_user_id p = s_owner_user_id x
         then raiseE (ConflictError ''session owner cannot be kicked; close the session instead'')
         else if \<not> is_live p then returnE x
         else bindE (retire_runtime D (p_participant_id p)) (\<lambda>_.
              bindE (liftE (clock D)) (\<lambda>now.
              bindE (resultE (left_participant p now)) (\<lambda>left.
              replace_participant D x left (s_state x) False None)))))"

definition close :: "'s services \<Rightarrow> uuid \<Rightarrow> actor \<Rightarrow> (exn, 's, session) prog" where
  "close D sid actor =
     bindE (required D sid) (\<lambda>x.
     if s_owner_user_id x \<noteq> a_user_id actor
     then raiseE (AuthorizationError ''only the session owner may close it'')
     else close_session D x ''owner_closed'')"

end
