(* ===== verification/Lobby.thy ===== *)
theory Lobby
  imports SessionService
begin

text \<open>
  The abstract specification of a lobby: which changes a stored session record may
  undergo, as a step relation on records, without repositories, providers or clocks.
  Every write the service makes is one of these steps (theory \<open>ServiceRefinement\<close>),
  so what is proved here of reachable records holds of every record the service ever
  stores.
\<close>

section \<open>Steps\<close>

inductive participant_step :: "participant \<Rightarrow> participant \<Rightarrow> bool" where
  begin_start: "p_state p = P_ALLOCATING \<Longrightarrow> participant_step p (p\<lparr>p_state := P_STARTING\<rparr>)"
| got_runtime: "p_state p = P_STARTING \<Longrightarrow> participant_step p (p\<lparr>p_runtime_id := Some r\<rparr>)"
| activate: "p_state p = P_STARTING \<Longrightarrow>
    participant_step p (p\<lparr>p_state := P_ACTIVE, p_last_heartbeat := t,
      p_stream_path := Some (stream_path_of (p_participant_id p))\<rparr>)"
| fail_start: "p_state p = P_STARTING \<Longrightarrow> participant_step p (p\<lparr>p_state := P_ERROR\<rparr>)"
| beat: "p_state p = P_ACTIVE \<Longrightarrow> participant_step p (p\<lparr>p_last_heartbeat := t\<rparr>)"
| depart: "p_state p = P_ACTIVE \<Longrightarrow>
    participant_step p (p\<lparr>p_state := P_LEFT, p_last_heartbeat := t\<rparr>)"
| fault: "p_state p = P_ACTIVE \<Longrightarrow>
    participant_step p (p\<lparr>p_state := P_ERROR, p_last_heartbeat := t\<rparr>)"

text \<open>Starting the host drives the session: its start, its success, its failure.\<close>

fun next_session_state :: "session_state \<Rightarrow> participant_state \<Rightarrow> session_state" where
  "next_session_state CREATING P_STARTING = STARTING"
| "next_session_state STARTING P_ACTIVE = OPEN"
| "next_session_state STARTING P_ERROR = ERROR"
| "next_session_state st _ = st"

definition departed :: "int \<Rightarrow> participant \<Rightarrow> participant" where
  "departed now p = (if is_live p then p\<lparr>p_state := P_LEFT, p_last_heartbeat := now\<rparr> else p)"

inductive lobby_step :: "int \<Rightarrow> session \<Rightarrow> session \<Rightarrow> bool" for ttl :: int where
  move: "p \<in> set (s_participants x) \<Longrightarrow> participant_step p p' \<Longrightarrow> s_state x \<noteq> CLOSED \<Longrightarrow>
    (p_state p = P_STARTING \<Longrightarrow> p_state p' = P_ACTIVE \<Longrightarrow>
       \<forall>q \<in> set (active_list x). p_user_id q \<noteq> p_user_id p) \<Longrightarrow>
    (case e of None \<Rightarrow> True | Some t \<Rightarrow> t \<le> s_created_at x + ttl) \<Longrightarrow>
    lobby_step ttl x (updated_session x (substitute p' (s_participants x))
      (next_session_state (s_state x) (p_state p')) now e)"
| enter: "s_state x = OPEN \<Longrightarrow> p_state p = P_ALLOCATING \<Longrightarrow> participant_ok p \<Longrightarrow>
    p_session_id p = s_session_id x \<Longrightarrow>
    p_player_slot p \<le> s_max_players x \<Longrightarrow>
    p_player_slot p \<notin> set (map p_player_slot (live_participants x)) \<Longrightarrow>
    p_participant_id p \<notin> set (map p_participant_id (s_participants x)) \<Longrightarrow>
    \<forall>q \<in> set (active_list x). p_user_id q \<noteq> p_user_id p \<Longrightarrow>
    lobby_step ttl x (updated_session x (s_participants x @ [p]) OPEN now None)"
| shut: "s_state x \<noteq> CLOSED \<Longrightarrow>
    \<forall>p \<in> set (s_participants x). is_live p \<longrightarrow> p_state p = P_ACTIVE \<Longrightarrow> length reason \<le> 64 \<Longrightarrow>
    lobby_step ttl x (closed_session x (map (departed now) (s_participants x)) now reason)"

inductive_cases participant_step_cases: "participant_step p p'"
inductive_cases lobby_step_cases: "lobby_step ttl x y"

text \<open>The record a creation stores.\<close>

definition lobby_start :: "int \<Rightarrow> session \<Rightarrow> bool" where
  "lobby_start ttl x \<longleftrightarrow> session_fields_ok x \<and> s_state x = CREATING \<and> s_closed_reason x = None \<and>
     s_revision x = 0 \<and> s_expires_at x \<le> s_created_at x + ttl \<and>
     (\<exists>p. s_participants x = [p] \<and> participant_ok p \<and> p_state p = P_ALLOCATING \<and>
          p_player_slot p = 1 \<and> p_user_id p = s_owner_user_id x \<and>
          p_session_id p = s_session_id x)"

text \<open>Records reachable from a creation.\<close>

definition lobby_reachable :: "int \<Rightarrow> session \<Rightarrow> bool" where
  "lobby_reachable ttl x \<longleftrightarrow> (\<exists>x0. lobby_start ttl x0 \<and> (lobby_step ttl)\<^sup>*\<^sup>* x0 x)"

section \<open>The invariant\<close>

definition roster_inv :: "session \<Rightarrow> bool" where
  "roster_inv x \<longleftrightarrow>
     (\<forall>p \<in> set (s_participants x). p_session_id p = s_session_id x \<and> participant_ok p) \<and>
     distinct (map p_participant_id (s_participants x)) \<and>
     distinct (map p_player_slot (live_participants x)) \<and>
     (\<forall>p \<in> set (live_participants x). p_player_slot p \<le> s_max_players x) \<and>
     distinct (map p_user_id (active_list x)) \<and>
     (\<forall>p \<in> set (s_participants x).
        p_state p = P_ACTIVE \<longrightarrow> p_stream_path p = Some (stream_path_of (p_participant_id p)))"

definition owner_inv :: "session \<Rightarrow> bool" where
  "owner_inv x \<longleftrightarrow> (\<exists>p ps. s_participants x = p # ps \<and> p_player_slot p = 1 \<and>
     p_user_id p = s_owner_user_id x)"

definition phase_inv :: "session \<Rightarrow> bool" where
  "phase_inv x \<longleftrightarrow>
     s_state x \<in> {CREATING, STARTING, OPEN, CLOSED, ERROR} \<and>
     (s_state x = CREATING \<longrightarrow> map p_state (s_participants x) = [P_ALLOCATING]) \<and>
     (s_state x = STARTING \<longrightarrow> map p_state (s_participants x) = [P_STARTING]) \<and>
     (s_state x \<in> {CLOSED, ERROR} \<longrightarrow> live_participants x = []) \<and>
     (s_state x = CLOSED \<longleftrightarrow> s_closed_reason x \<noteq> None) \<and>
     (\<forall>p \<in> set (s_participants x). p_state p \<in> {P_ALLOCATING, P_STARTING, P_ACTIVE, P_LEFT, P_ERROR})"

definition lobby_inv :: "int \<Rightarrow> session \<Rightarrow> bool" where
  "lobby_inv ttl x \<longleftrightarrow> session_fields_ok x \<and> roster_inv x \<and> owner_inv x \<and> phase_inv x \<and>
     s_expires_at x \<le> s_created_at x + ttl"

text \<open>
  A participant that is neither active nor gone; between operations no record should
  hold one.
\<close>

definition half_started :: "participant \<Rightarrow> bool" where
  "half_started p \<longleftrightarrow> is_live p \<and> p_state p \<noteq> P_ACTIVE"

definition settled :: "session \<Rightarrow> bool" where
  "settled x \<longleftrightarrow> (\<forall>p \<in> set (s_participants x). \<not> half_started p)"

section \<open>Substitution in a roster\<close>

lemma substitute_split:
  assumes "p \<in> set ps" and "distinct (map p_participant_id ps)"
    and "p_participant_id p' = p_participant_id p"
  obtains as bs where "ps = as @ p # bs" and "substitute p' ps = as @ p' # bs"
    and "p_participant_id p \<notin> p_participant_id ` set (as @ bs)"
proof -
  obtain as bs where ps: "ps = as @ p # bs" using assms(1) by (meson split_list)
  with assms(2) have fresh: "p_participant_id p \<notin> p_participant_id ` set (as @ bs)" by auto
  have same: "map (\<lambda>q. if p_participant_id q = p_participant_id p then p' else q) qs = qs"
    if "p_participant_id p \<notin> p_participant_id ` set qs" for qs
    using that by (induction qs) auto
  have "substitute p' ps = as @ p' # bs"
    using fresh by (simp add: substitute_def ps assms(3) same image_Un)
  from ps this fresh show thesis by (rule that)
qed

lemma roster_inv_ids: "roster_inv x \<Longrightarrow> distinct (map p_participant_id (s_participants x))"
  by (simp add: roster_inv_def)

lemma map_id_substitute [simp]:
  "map p_participant_id (substitute p ps) = map p_participant_id ps"
  by (simp add: substitute_def comp_def)

lemma participant_step_frame:
  assumes "participant_step p p'"
  shows "p_participant_id p' = p_participant_id p" "p_session_id p' = p_session_id p"
    "p_user_id p' = p_user_id p" "p_player_slot p' = p_player_slot p"
    "p_display_name p' = p_display_name p" "p_joined_at p' = p_joined_at p" "is_live p"
  using assms by (cases; simp add: is_live_def)+

lemma participant_step_ok:
  assumes "participant_step p p'" and "participant_ok p"
  shows "participant_ok p'"
  using assms by cases (simp_all add: participant_ok_def stream_path_of_def)

lemma participant_step_state:
  assumes "participant_step p p'"
  shows "p_state p = P_ALLOCATING \<and> p_state p' = P_STARTING \<or>
     p_state p = P_STARTING \<and> p_state p' \<in> {P_STARTING, P_ACTIVE, P_ERROR} \<or>
     p_state p = P_ACTIVE \<and> p_state p' \<in> {P_ACTIVE, P_LEFT, P_ERROR}"
  using assms by cases simp_all

lemma participant_step_path:
  assumes "participant_step p p'" and "p_state p' = P_ACTIVE"
    and "p_state p = P_ACTIVE \<longrightarrow> p_stream_path p = Some (stream_path_of (p_participant_id p))"
  shows "p_stream_path p' = Some (stream_path_of (p_participant_id p'))"
  using assms by cases simp_all

section \<open>Steps keep the invariant\<close>

lemma updated_session_simps [simp]:
  "s_session_id (updated_session x ps st now e) = s_session_id x"
  "s_owner_user_id (updated_session x ps st now e) = s_owner_user_id x"
  "s_max_players (updated_session x ps st now e) = s_max_players x"
  "s_participants (updated_session x ps st now e) = ps"
  "s_state (updated_session x ps st now e) = st"
  "s_created_at (updated_session x ps st now e) = s_created_at x"
  "s_closed_reason (updated_session x ps st now e) = s_closed_reason x"
  "s_revision (updated_session x ps st now e) = s_revision x + 1"
  "s_expires_at (updated_session x ps st now e) = (case e of None \<Rightarrow> s_expires_at x | Some t \<Rightarrow> t)"
  "s_romm_rom_id (updated_session x ps st now e) = s_romm_rom_id x"
  "s_platform (updated_session x ps st now e) = s_platform x"
  "s_rom_sha256 (updated_session x ps st now e) = s_rom_sha256 x"
  "s_core_profile_id (updated_session x ps st now e) = s_core_profile_id x"
  "s_display_name (updated_session x ps st now e) = s_display_name x"
  by (simp_all add: updated_session_def)

lemma closed_session_simps [simp]:
  "s_session_id (closed_session x ps now r) = s_session_id x"
  "s_owner_user_id (closed_session x ps now r) = s_owner_user_id x"
  "s_max_players (closed_session x ps now r) = s_max_players x"
  "s_participants (closed_session x ps now r) = ps"
  "s_state (closed_session x ps now r) = CLOSED"
  "s_created_at (closed_session x ps now r) = s_created_at x"
  "s_closed_reason (closed_session x ps now r) = Some r"
  "s_revision (closed_session x ps now r) = s_revision x + 1"
  "s_expires_at (closed_session x ps now r) = s_expires_at x"
  "s_romm_rom_id (closed_session x ps now r) = s_romm_rom_id x"
  "s_platform (closed_session x ps now r) = s_platform x"
  "s_rom_sha256 (closed_session x ps now r) = s_rom_sha256 x"
  "s_core_profile_id (closed_session x ps now r) = s_core_profile_id x"
  "s_display_name (closed_session x ps now r) = s_display_name x"
  by (simp_all add: closed_session_def)

lemma session_fields_updated [simp]:
  "session_fields_ok x \<Longrightarrow> session_fields_ok (updated_session x ps st now e)"
  "session_fields_ok x \<Longrightarrow> length r \<le> 64 \<Longrightarrow> session_fields_ok (closed_session x ps now r)"
  by (simp_all add: session_fields_ok_def)

lemma departed_simps [simp]:
  "p_participant_id (departed now p) = p_participant_id p"
  "p_session_id (departed now p) = p_session_id p"
  "p_user_id (departed now p) = p_user_id p"
  "p_player_slot (departed now p) = p_player_slot p"
  "participant_ok (departed now p) = participant_ok p"
  "\<not> is_live (departed now p)"
  by (auto simp: departed_def is_live_def participant_ok_def)

lemma live_departed [simp]: "filter is_live (map (departed now) ps) = []"
  by (induction ps) auto

lemma departed_not_active [simp]: "p_state (departed now p) = P_ACTIVE \<longleftrightarrow> False"
  by (auto simp: departed_def is_live_def)

lemma active_is_live: "p_state p = P_ACTIVE \<Longrightarrow> is_live p"
  by (simp add: is_live_def)

lemma roster_inv_move:
  assumes inv: "roster_inv x" and p: "p \<in> set (s_participants x)" and step: "participant_step p p'"
    and users: "p_state p = P_STARTING \<Longrightarrow> p_state p' = P_ACTIVE \<Longrightarrow>
       \<forall>q \<in> set (active_list x). p_user_id q \<noteq> p_user_id p"
  shows "roster_inv (updated_session x (substitute p' (s_participants x)) st now e)"
proof -
  note frame = participant_step_frame [OF step]
  obtain as bs where ps: "s_participants x = as @ p # bs"
    and sub: "substitute p' (s_participants x) = as @ p' # bs"
    by (rule substitute_split [OF p roster_inv_ids [OF inv] frame(1)])
  have ok: "participant_ok p'" using participant_step_ok [OF step] inv p by (auto simp: roster_inv_def)
  have path: "p_state p' = P_ACTIVE \<longrightarrow> p_stream_path p' = Some (stream_path_of (p_participant_id p'))"
    using participant_step_path [OF step] inv p by (auto simp: roster_inv_def)
  have state: "p_state p = P_ACTIVE \<or> p_state p = P_STARTING \<or> p_state p' \<noteq> P_ACTIVE"
    using participant_step_state [OF step] by auto
  have active: "distinct (map p_user_id (active_list x))" using inv by (simp add: roster_inv_def)
  have "distinct (map p_user_id (filter (\<lambda>p. p_state p = P_ACTIVE) (as @ p' # bs)))"
    using active users state frame(3) unfolding active_list_def ps by (auto split: if_splits)
  moreover have "distinct (map p_player_slot (filter is_live (as @ p' # bs)))"
    using inv frame(4,7) unfolding roster_inv_def live_participants_def ps by auto
  moreover have "distinct (map p_participant_id (as @ p' # bs))"
    using inv frame(1) unfolding roster_inv_def ps by auto
  moreover have "\<forall>q \<in> set (filter is_live (as @ p' # bs)). p_player_slot q \<le> s_max_players x"
    using inv frame(4,7) unfolding roster_inv_def live_participants_def ps by auto
  moreover have "\<forall>q \<in> set (as @ p' # bs). p_session_id q = s_session_id x \<and> participant_ok q"
    using inv frame(2) ok unfolding roster_inv_def ps by auto
  moreover have "\<forall>q \<in> set (as @ p' # bs). p_state q = P_ACTIVE \<longrightarrow>
      p_stream_path q = Some (stream_path_of (p_participant_id q))"
    using inv path unfolding roster_inv_def ps by auto
  ultimately show ?thesis
    unfolding roster_inv_def sub by (simp add: live_participants_def active_list_def)
qed

lemma owner_inv_move:
  assumes "roster_inv x" "owner_inv x" and p: "p \<in> set (s_participants x)"
    and step: "participant_step p p'"
  shows "owner_inv (updated_session x (substitute p' (s_participants x)) st now e)"
proof -
  note frame = participant_step_frame [OF step]
  obtain o1 os where hd: "s_participants x = o1 # os" "p_player_slot o1 = 1"
    "p_user_id o1 = s_owner_user_id x" using assms(2) by (auto simp: owner_inv_def)
  have "o1 = p" if "p_participant_id o1 = p_participant_id p"
    using that p hd(1) assms(1) by (force simp: roster_inv_def)
  then show ?thesis using hd frame(1,3,4) by (auto simp: owner_inv_def substitute_def)
qed

lemma phase_inv_move:
  assumes inv: "roster_inv x" "phase_inv x" and p: "p \<in> set (s_participants x)"
    and step: "participant_step p p'" and open_: "s_state x \<noteq> CLOSED"
  shows "phase_inv (updated_session x (substitute p' (s_participants x))
           (next_session_state (s_state x) (p_state p')) now e)"
proof -
  note frame = participant_step_frame [OF step]
  note states = participant_step_state [OF step]
  obtain as bs where ps: "s_participants x = as @ p # bs"
    and sub: "substitute p' (s_participants x) = as @ p' # bs"
    by (rule substitute_split [OF p roster_inv_ids [OF inv(1)] frame(1)])
  have single: "as = [] \<and> bs = []" if "s_state x \<in> {CREATING, STARTING}"
    using inv(2) that unfolding phase_inv_def ps by (auto simp: append_eq_Cons_conv)
  have reason: "s_closed_reason x = None" using inv(2) open_ by (simp add: phase_inv_def)
  have others: "\<forall>q \<in> set (as @ bs). p_state q \<in> {P_ALLOCATING, P_STARTING, P_ACTIVE, P_LEFT, P_ERROR}"
    using inv(2) unfolding phase_inv_def ps by auto
  have p': "p_state p' \<in> {P_ALLOCATING, P_STARTING, P_ACTIVE, P_LEFT, P_ERROR}" using states by auto
  consider "s_state x = CREATING" | "s_state x = STARTING" | "s_state x = OPEN"
    using inv(2) open_ p frame(7) unfolding phase_inv_def
    by (auto simp: live_participants_def filter_empty_conv)
  then show ?thesis
  proof cases
    case 1
    then have "p_state p = P_ALLOCATING" using inv(2) single by (simp add: phase_inv_def ps)
    then have "p_state p' = P_STARTING" using states by auto
    with 1 single reason show ?thesis by (simp add: phase_inv_def sub)
  next
    case 2
    then have "p_state p = P_STARTING" using inv(2) single by (simp add: phase_inv_def ps)
    then have "p_state p' = P_STARTING \<or> p_state p' = P_ACTIVE \<or> p_state p' = P_ERROR"
      using states by auto
    with 2 single reason show ?thesis
      by (elim disjE) (simp_all add: phase_inv_def sub live_participants_def is_live_def)
  next
    case 3
    then have "next_session_state (s_state x) (p_state p') = OPEN" by simp
    with 3 reason others p' show ?thesis by (simp add: phase_inv_def sub)
  qed
qed

lemma roster_inv_enter:
  assumes "roster_inv x" "participant_ok p" "p_state p = P_ALLOCATING"
    "p_session_id p = s_session_id x" "p_player_slot p \<le> s_max_players x"
    "p_player_slot p \<notin> set (map p_player_slot (live_participants x))"
    "p_participant_id p \<notin> set (map p_participant_id (s_participants x))"
  shows "roster_inv (updated_session x (s_participants x @ [p]) st now e)"
  using assms by (auto simp: roster_inv_def live_participants_def active_list_def)

lemma roster_inv_shut:
  assumes "roster_inv x"
  shows "roster_inv (closed_session x (map (departed now) (s_participants x)) now r)"
  using assms by (auto simp: roster_inv_def live_participants_def active_list_def comp_def)

lemma lobby_step_inv:
  assumes "lobby_step ttl x y" and "lobby_inv ttl x"
  shows "lobby_inv ttl y"
  using assms
proof (induction rule: lobby_step.induct)
  case (move p x p' e now)
  then show ?case
    using roster_inv_move [of x p p'] owner_inv_move [of x p p'] phase_inv_move [of x p p']
    unfolding lobby_inv_def by (auto split: option.splits)
next
  case (enter x p now)
  then have "roster_inv (updated_session x (s_participants x @ [p]) OPEN now None)"
    by (intro roster_inv_enter) (auto simp: lobby_inv_def)
  with enter show ?case
    by (auto simp: lobby_inv_def owner_inv_def phase_inv_def live_participants_def)
next
  case (shut x reason now)
  then show ?case
    using roster_inv_shut [of x now reason]
    by (auto simp: lobby_inv_def owner_inv_def phase_inv_def live_participants_def departed_def
        split: if_splits)
qed

lemma lobby_start_inv: "lobby_start ttl x \<Longrightarrow> lobby_inv ttl x"
  by (auto simp: lobby_start_def lobby_inv_def roster_inv_def owner_inv_def phase_inv_def
      live_participants_def active_list_def is_live_def session_fields_ok_def)

lemma lobby_steps_inv:
  assumes "(lobby_step ttl)\<^sup>*\<^sup>* x y" and "lobby_inv ttl x"
  shows "lobby_inv ttl y"
  using assms by (induction rule: rtranclp_induct) (auto intro: lobby_step_inv)

lemma lobby_reachable_inv: "lobby_reachable ttl x \<Longrightarrow> lobby_inv ttl x"
  unfolding lobby_reachable_def using lobby_steps_inv lobby_start_inv by blast

end
