(* ===== verification/ServiceRefinement.thy ===== *)
theory ServiceRefinement
  imports Lobby
begin

text \<open>
  The service refines the lobby specification: run by any collaborators that satisfy
  the contract \<open>session_env\<close>, every operation changes the repository only by abstract
  store steps, whether it returns or raises, and whatever call fails on the way.
\<close>

section \<open>Abstract store steps\<close>

text \<open>
  Steps that admit nobody: records expire, or one record makes a lobby step that leaves
  its roster as long as it was.
\<close>

inductive store_step :: "int \<Rightarrow> store \<Rightarrow> store \<Rightarrow> bool" for ttl :: int where
  gone: "m' \<subseteq>\<^sub>m m \<Longrightarrow> store_step ttl m m'"
| stored: "m k = Some x \<Longrightarrow> lobby_step ttl x y \<Longrightarrow>
    length (s_participants y) = length (s_participants x) \<Longrightarrow> m' \<subseteq>\<^sub>m m(k \<mapsto> y) \<Longrightarrow> store_step ttl m m'"

abbreviation store_steps :: "int \<Rightarrow> store \<Rightarrow> store \<Rightarrow> bool" where
  "store_steps ttl \<equiv> (store_step ttl)\<^sup>*\<^sup>*"

definition store_inv :: "int \<Rightarrow> store \<Rightarrow> bool" where
  "store_inv ttl m \<longleftrightarrow> (\<forall>k x. m k = Some x \<longrightarrow> s_session_id x = k \<and> lobby_inv ttl x)"

lemma lobby_step_frame:
  assumes "lobby_step ttl x y"
  shows "s_session_id y = s_session_id x" "s_revision y = s_revision x + 1"
    "s_owner_user_id y = s_owner_user_id x" "s_created_at y = s_created_at x"
    "s_max_players y = s_max_players x" "s_rom_sha256 y = s_rom_sha256 x"
    "s_platform y = s_platform x" "s_core_profile_id y = s_core_profile_id x"
    "s_romm_rom_id y = s_romm_rom_id x" "s_state x \<noteq> CLOSED"
  using assms by (cases; simp)+

lemma store_inv_mono: "store_inv ttl m \<Longrightarrow> m' \<subseteq>\<^sub>m m \<Longrightarrow> store_inv ttl m'"
  unfolding store_inv_def by (meson map_le_apply)

lemma store_step_inv:
  assumes "store_step ttl m m'" and "store_inv ttl m"
  shows "store_inv ttl m'"
  using assms
proof (induction rule: store_step.induct)
  case (gone m' m)
  then show ?case by (blast intro: store_inv_mono)
next
  case (stored m k x y m')
  then have "lobby_inv ttl y" "s_session_id y = k"
    by (auto simp: store_inv_def lobby_step_frame intro: lobby_step_inv)
  with stored.prems have "store_inv ttl (m(k \<mapsto> y))" by (simp add: store_inv_def)
  with stored.hyps(4) show ?case by (rule store_inv_mono [rotated])
qed

lemma store_steps_inv: "store_steps ttl m m' \<Longrightarrow> store_inv ttl m \<Longrightarrow> store_inv ttl m'"
  by (induction rule: rtranclp_induct) (auto intro: store_step_inv)

section \<open>What an operation knows of the repository\<close>

text \<open>
  \<open>base\<close>: since the operation began with the good store \<open>m0\<close>, only store steps were made.
  \<open>track\<close>: moreover the session \<open>x\<close> the operation holds is the stored record, unless
  that has expired, and so is every session of \<open>X\<close>, all of them different from \<open>x\<close>.
\<close>

definition base :: "int \<Rightarrow> store \<Rightarrow> store \<Rightarrow> bool" where
  "base ttl m0 m \<longleftrightarrow> store_inv ttl m0 \<and> store_steps ttl m0 m"

definition track :: "int \<Rightarrow> store \<Rightarrow> session \<Rightarrow> session set \<Rightarrow> store \<Rightarrow> bool" where
  "track ttl m0 x X m \<longleftrightarrow> base ttl m0 m \<and> lobby_inv ttl x \<and>
     m (s_session_id x) \<in> {None, Some x} \<and>
     (\<forall>z \<in> X. m (s_session_id z) \<in> {None, Some z} \<and> s_session_id z \<noteq> s_session_id x)"

definition down_closed :: "(store \<Rightarrow> bool) \<Rightarrow> bool" where
  "down_closed I \<longleftrightarrow> (\<forall>m m'. I m \<longrightarrow> m' \<subseteq>\<^sub>m m \<longrightarrow> I m')"

lemma down_closedD: "down_closed I \<Longrightarrow> I m \<Longrightarrow> m' \<subseteq>\<^sub>m m \<Longrightarrow> I m'"
  by (auto simp: down_closed_def)

lemma map_le_None_Some: "m' \<subseteq>\<^sub>m m \<Longrightarrow> m k \<in> {None, Some x} \<Longrightarrow> m' k \<in> {None, Some x}"
  using map_le_apply by (cases "m' k") fastforce+

text \<open>
  Admissions, of the user \<open>u\<close>: a new session with its owner (\<open>g\<close> is true), or one more
  participant of an open session. What one request may do to the store is to make store
  steps and, in the middle of them, at most one admission; \<open>P g u\<close> is what its checks
  established of the store it was made in.
\<close>

inductive admits :: "int \<Rightarrow> bool \<Rightarrow> string \<Rightarrow> store \<Rightarrow> store \<Rightarrow> bool" for ttl :: int where
  added: "m (s_session_id x) = None \<Longrightarrow> lobby_start ttl x \<Longrightarrow> s_owner_user_id x = u \<Longrightarrow>
    admits ttl True u m (m(s_session_id x \<mapsto> x))"
| entered: "m k = Some x \<Longrightarrow> lobby_step ttl x y \<Longrightarrow> s_participants y = s_participants x @ [p] \<Longrightarrow>
    p_user_id p = u \<Longrightarrow> admits ttl False u m (m(k \<mapsto> y))"

inductive_cases admits_cases: "admits ttl g u m m'"

definition after :: "int \<Rightarrow> (bool \<Rightarrow> string \<Rightarrow> store \<Rightarrow> bool) \<Rightarrow> store \<Rightarrow> store \<Rightarrow> bool" where
  "after ttl P m0 m2 \<longleftrightarrow> (\<exists>m1 g u. base ttl m0 m1 \<and> P g u m1 \<and> admits ttl g u m1 m2)"

definition effect :: "int \<Rightarrow> (bool \<Rightarrow> string \<Rightarrow> store \<Rightarrow> bool) \<Rightarrow> store \<Rightarrow> store \<Rightarrow> bool" where
  "effect ttl P m0 m \<longleftrightarrow> base ttl m0 m \<or> (\<exists>m2. after ttl P m0 m2 \<and> base ttl m2 m)"

lemma admits_inv:
  assumes "admits ttl g u m m'" and "store_inv ttl m"
  shows "store_inv ttl m'"
  using assms
proof cases
  case (added x)
  with assms(2) show ?thesis by (simp add: store_inv_def lobby_start_inv)
next
  case (entered k x y p)
  with assms(2) show ?thesis
    by (auto simp: store_inv_def lobby_step_frame intro: lobby_step_inv)
qed

lemma base_refl: "store_inv ttl m \<Longrightarrow> base ttl m m"
  by (simp add: base_def)

lemma base_step: "base ttl m0 m \<Longrightarrow> store_step ttl m m' \<Longrightarrow> base ttl m0 m'"
  by (auto simp: base_def)

lemma base_inv: "base ttl m0 m \<Longrightarrow> store_inv ttl m"
  by (auto simp: base_def intro: store_steps_inv)

lemma base_down: "down_closed (base ttl m0)"
  by (auto simp: down_closed_def intro: base_step store_step.gone)

lemma track_base: "track ttl m0 x X m \<Longrightarrow> base ttl m0 m"
  by (simp add: track_def)

lemma track_inv: "track ttl m0 x X m \<Longrightarrow> lobby_inv ttl x"
  by (simp add: track_def)

lemma track_down: "down_closed (track ttl m0 x X)"
  unfolding down_closed_def track_def using base_down [unfolded down_closed_def] map_le_None_Some
  by (meson map_le_None_Some)

lemma track_read:
  assumes "base ttl m0 m" and "m k = Some x"
  shows "track ttl m0 x {} m" "s_session_id x = k"
  using base_inv [OF assms(1)] assms by (auto simp: track_def store_inv_def)

lemma after_inv: "after ttl P m0 m2 \<Longrightarrow> store_inv ttl m2"
  unfolding after_def by (blast intro: admits_inv base_inv)

lemma effect_base: "base ttl m0 m \<Longrightarrow> effect ttl P m0 m"
  by (simp add: effect_def)

lemma effect_after: "after ttl P m0 m2 \<Longrightarrow> base ttl m2 m \<Longrightarrow> effect ttl P m0 m"
  by (auto simp: effect_def)

lemma effect_inv: "effect ttl P m0 m \<Longrightarrow> store_inv ttl m"
  by (auto simp: effect_def intro: base_inv)

text \<open>The outcomes of writing \<open>y\<close> over \<open>x\<close>: performed, or not.\<close>

lemma track_write:
  assumes t: "track ttl m0 x X m" and old: "m (s_session_id x) = Some x"
    and step: "lobby_step ttl x y" and le: "m' \<subseteq>\<^sub>m m(s_session_id x \<mapsto> y)"
    and len: "length (s_participants y) = length (s_participants x)"
  shows "track ttl m0 y X m'"
proof -
  have b: "base ttl m0 m'"
    using track_base [OF t] store_step.stored [OF old step len le] by (rule base_step)
  have inv: "lobby_inv ttl y" using lobby_step_inv [OF step track_inv [OF t]] .
  have id: "s_session_id y = s_session_id x" using lobby_step_frame(1) [OF step] .
  have "(m(s_session_id x \<mapsto> y)) (s_session_id z) \<in> {None, Some z}" if "z \<in> X" for z
    using t that by (auto simp: track_def)
  then have "m' (s_session_id z) \<in> {None, Some z}" if "z \<in> X" for z
    using that map_le_None_Some [OF le] by blast
  moreover have "m' (s_session_id y) \<in> {None, Some y}"
    by (rule map_le_None_Some [OF le]) (simp add: id)
  ultimately show ?thesis using b inv id t by (auto simp: track_def)
qed

section \<open>Pure facts the operations use\<close>

definition leaving_conflict :: "participant \<Rightarrow> exn" where
  "leaving_conflict p = ConflictError (''invalid participant transition: '' @
     participant_state_value (p_state p) @ '' -> LEAVING'')"

lemma left_participant_eq:
  "left_participant p now =
     (if half_started p then Inl (leaving_conflict p) else Inr (departed now p))"
  by (cases "p_state p")
    (simp_all add: left_participant_def require_participant_transition_def departed_def is_live_def
      half_started_def leaving_conflict_def)

lemma wp_left_all:
  "wp (mapE (\<lambda>p. resultE (left_participant p now)) ps) Q E s \<longleftrightarrow>
     (case List.find half_started ps of
        None \<Rightarrow> Q (map (departed now) ps) s
      | Some p \<Rightarrow> E (leaving_conflict p) s)"
proof (induction ps arbitrary: Q)
  case Nil
  then show ?case by (simp add: wp_simps)
next
  case (Cons p ps)
  show ?case
    by (cases "half_started p")
      (simp_all add: wp_simps left_participant_eq [of p] Cons.IH split: option.splits)
qed

lemma substitute_mem:
  "q \<in> set (substitute p' ps) \<Longrightarrow> q = p' \<or> q \<in> set ps"
  "p \<in> set ps \<Longrightarrow> p_participant_id p' = p_participant_id p \<Longrightarrow> p' \<in> set (substitute p' ps)"
  by (auto simp: substitute_def split: if_splits)

lemma active_list_mem [simp]:
  "q \<in> set (active_list x) \<longleftrightarrow> q \<in> set (s_participants x) \<and> p_state q = P_ACTIVE"
  by (auto simp: active_list_def)

lemma free_slot_SomeD:
  assumes "free_slot x = Some i"
  shows "1 \<le> i" "i \<le> s_max_players x" "i \<notin> set (map p_player_slot (live_participants x))"
  using first_match_SomeD [OF assms [unfolded free_slot_def]] by auto

lemma lobby_inv_participant:
  assumes "lobby_inv ttl x" and "p \<in> set (s_participants x)"
  shows "participant_ok p" "p_session_id p = s_session_id x"
    "p_state p \<in> {P_ALLOCATING, P_STARTING, P_ACTIVE, P_LEFT, P_ERROR}"
  using assms by (auto simp: lobby_inv_def roster_inv_def phase_inv_def)

lemma lobby_inv_open: "lobby_inv ttl x \<Longrightarrow> p \<in> set (s_participants x) \<Longrightarrow> is_live p \<Longrightarrow> s_state x \<noteq> CLOSED"
  by (auto simp: lobby_inv_def phase_inv_def live_participants_def filter_empty_conv)

lemma lobby_inv_active_state:
  assumes "lobby_inv ttl x" and "p \<in> set (s_participants x)" and "p_state p = P_ACTIVE"
  shows "s_state x = OPEN"
  using assms by (auto simp: lobby_inv_def phase_inv_def live_participants_def filter_empty_conv
      is_live_def)

lemma lease_expiry_le: "lease_expiry cfg x now \<le> s_created_at x + session_ttl cfg"
  by (simp add: lease_expiry_def)

text \<open>The steps of an active participant, as the operations write them.\<close>

lemma active_step:
  assumes inv: "lobby_inv ttl x" and p: "p \<in> set (s_participants x)" "p_state p = P_ACTIVE"
    and p': "p' = p\<lparr>p_last_heartbeat := t\<rparr> \<or> p' = p\<lparr>p_state := P_LEFT, p_last_heartbeat := t\<rparr> \<or>
      p' = p\<lparr>p_state := P_ERROR, p_last_heartbeat := t\<rparr>"
    and e: "case e of None \<Rightarrow> True | Some u \<Rightarrow> u \<le> s_created_at x + ttl"
  shows "lobby_step ttl x (updated_session x (substitute p' (s_participants x)) (s_state x) now e)"
proof -
  have step: "participant_step p p'"
    using p' p(2) by (auto intro: participant_step.intros)
  have st: "s_state x = OPEN" using lobby_inv_active_state [OF inv p] .
  show ?thesis
    using lobby_step.move [OF p(1) step, where ttl = ttl and e = e and now = now] st p(2) e by simp
qed

lemma departed_active: "p_state p = P_ACTIVE \<Longrightarrow> departed now p = p\<lparr>p_state := P_LEFT, p_last_heartbeat := now\<rparr>"
  by (simp add: departed_def is_live_def)

section \<open>Calls under the contract\<close>

text \<open>
  Rules in continuation form: what is known of the repository before a call is known
  after it, on both outcomes.
\<close>

lemma wp_down:
  assumes "keeps view f" and "down_closed I" and "I (view s)"
    and "\<And>a t. view t \<subseteq>\<^sub>m view s \<Longrightarrow> I (view t) \<Longrightarrow> Q a t"
    and "\<And>e t. I (view t) \<Longrightarrow> E e t"
  shows "wp f Q E s"
  by (rule wp_keeps [OF assms(1)]) (use assms(2-) down_closedD in blast)+

lemma wp_down_liftE:
  assumes "keeps view f" and "down_closed I" and "I (view s)"
    and "\<And>a t. view t \<subseteq>\<^sub>m view s \<Longrightarrow> I (view t) \<Longrightarrow> Q a t"
  shows "wp (liftE f) Q E s"
  by (rule wp_keeps_liftE [OF assms(1)]) (use assms(2-) down_closedD in blast)

context session_env
begin

lemma wp_retire_runtime:
  assumes "down_closed I" and "I (view s)"
    and "\<And>a t. I (view t) \<Longrightarrow> Q a t" and "\<And>e t. I (view t) \<Longrightarrow> E e t"
  shows "wp (retire_runtime D u) Q E s"
  unfolding retire_runtime_def best_effort_revoke_def wp_simps
  by (rule wp_down [OF keeps_revoke assms(1,2)];
      auto intro!: wp_down [OF keeps_remove assms(1)] assms(3,4))

lemma wp_cleanup_failed_runtime:
  assumes "down_closed I" and "I (view s)"
    and "\<And>a t. I (view t) \<Longrightarrow> Q a t" and "\<And>e t. I (view t) \<Longrightarrow> E e t"
  shows "wp (cleanup_failed_runtime D u) Q E s"
  unfolding cleanup_failed_runtime_def best_effort_revoke_def wp_simps
  by (rule wp_down [OF keeps_revoke assms(1,2)];
      auto intro!: wp_down [OF keeps_remove assms(1)] assms(3,4))

lemma wp_wait_loop:
  assumes "down_closed I" and "I (view s)"
    and "\<And>a t. I (view t) \<Longrightarrow> Q a t" and "\<And>e t. I (view t) \<Longrightarrow> E e t"
  shows "wp (wait_loop n cfg D rid deadline h) Q E s"
  using assms(2)
proof (induction n arbitrary: h s)
  case 0
  then show ?case by (simp add: wp_simps assms(4))
next
  case (Suc n)
  show ?case
    unfolding wait_loop.simps wp_simps Let_def
    by (auto intro!: assms(3,4) Suc.prems wp_down_liftE [OF keeps_monotonic assms(1) Suc.prems]
        wp_down_liftE [OF keeps_sleep assms(1)] wp_down [OF keeps_inspect assms(1)] Suc.IH)
qed

lemma wp_wait_ready:
  assumes "down_closed I" and "I (view s)"
    and "\<And>a t. I (view t) \<Longrightarrow> Q a t" and "\<And>e t. I (view t) \<Longrightarrow> E e t"
  shows "wp (wait_ready cfg D h timeout) Q E s"
  unfolding wait_ready_def wp_simps
  by (auto intro!: wp_down_liftE [OF keeps_monotonic assms(1,2)] wp_wait_loop [OF assms(1)] assms(3,4))

lemma wp_get:
  assumes "base ttl m0 (view s)"
    and "\<And>r t. base ttl m0 (view t) \<Longrightarrow> view t \<subseteq>\<^sub>m view s \<Longrightarrow> r = view t k \<Longrightarrow> Q r t"
    and "\<And>e t. base ttl m0 (view t) \<Longrightarrow> E e t"
  shows "wp (repo_get D k) Q E s"
  using get_law by (rule wp_mono) (use assms down_closedD [OF base_down] in blast)+

lemma wp_required:
  assumes "base ttl m0 (view s)"
    and "\<And>x t. track ttl m0 x {} (view t) \<Longrightarrow> view t k = Some x \<Longrightarrow> s_session_id x = k \<Longrightarrow> Q x t"
    and "\<And>e t. base ttl m0 (view t) \<Longrightarrow> E e t"
  shows "wp (required D k) Q E s"
  unfolding required_def wp_simps
  by (rule wp_get [OF assms(1)])
    (auto split: option.splits intro!: assms(2,3) dest: track_read [rotated] dest!: sym [of "Some _"])

lemma wp_list:
  assumes "base ttl m0 (view s)"
    and "\<And>xs t. base ttl m0 (view t) \<Longrightarrow>
           \<forall>x \<in> set xs. view t (s_session_id x) \<in> {None, Some x} \<and> lobby_inv ttl x \<Longrightarrow>
           distinct (map s_session_id xs) \<Longrightarrow> Q xs t"
    and "\<And>e t. base ttl m0 (view t) \<Longrightarrow> E e t"
  shows "wp (repo_list D) Q E s"
  using list_law
proof (rule wp_mono)
  fix xs t
  assume law: "view t \<subseteq>\<^sub>m view s \<and> lists_store (view s) xs"
  then have b: "base ttl m0 (view t)" using assms(1) down_closedD [OF base_down] by blast
  have keyed: "s_session_id x = k" "lobby_inv ttl x" if "view s k = Some x" for k x
    using base_inv [OF assms(1)] that by (auto simp: store_inv_def)
  have "distinct (map s_session_id xs)" using law keyed(1) by (blast intro: lists_store_distinct)
  moreover have "view s (s_session_id x) = Some x \<and> lobby_inv ttl x" if "x \<in> set xs" for x
    using law lists_store_mem that keyed by blast
  then have "view t (s_session_id x) \<in> {None, Some x} \<and> lobby_inv ttl x" if "x \<in> set xs" for x
    using map_le_None_Some [OF conjunct1 [OF law]] that by simp
  ultimately show "Q xs t" by (intro assms(2) b) simp_all
qed (use assms down_closedD [OF base_down] in blast)

lemma wp_save:
  assumes t: "track ttl m0 x X (view s)"
    and id: "s_session_id y = s_session_id x"
    and step: "view s (s_session_id x) = Some x \<Longrightarrow> lobby_step ttl x y"
    and len: "length (s_participants y) = length (s_participants x)"
    and ok: "\<And>t. track ttl m0 y X (view t) \<Longrightarrow> Q () t"
    and bad: "\<And>e t. base ttl m0 (view t) \<Longrightarrow>
       view t (s_session_id x) \<in> {None, Some x} \<or>
       view t (s_session_id x) = Some y \<and> lobby_step ttl x y \<Longrightarrow> E e t"
  shows "wp (repo_save D y (s_revision x)) Q E s"
  using save_law
proof (rule wp_mono)
  fix u :: unit and t
  assume "\<exists>old. view s (s_session_id y) = Some old \<and> s_revision old = s_revision x \<and>
    s_revision y = s_revision x + 1 \<and> view t \<subseteq>\<^sub>m (view s)(s_session_id y \<mapsto> y)"
  then have old: "view s (s_session_id x) = Some x" and le: "view t \<subseteq>\<^sub>m (view s)(s_session_id x \<mapsto> y)"
    using t id by (auto simp: track_def)
  show "Q u t" using track_write [OF t old step [OF old] le len] ok by simp
next
  fix e t
  assume "view t \<subseteq>\<^sub>m view s \<or>
    (\<exists>old. view s (s_session_id y) = Some old \<and> s_revision old = s_revision x \<and>
      s_revision y = s_revision x + 1 \<and> view t \<subseteq>\<^sub>m (view s)(s_session_id y \<mapsto> y))"
  then show "E e t"
  proof
    assume "view t \<subseteq>\<^sub>m view s"
    then have "track ttl m0 x X (view t)" using t down_closedD [OF track_down] by blast
    then show ?thesis by (auto simp: track_def intro!: bad)
  next
    assume "\<exists>old. view s (s_session_id y) = Some old \<and> s_revision old = s_revision x \<and>
      s_revision y = s_revision x + 1 \<and> view t \<subseteq>\<^sub>m (view s)(s_session_id y \<mapsto> y)"
    then have old: "view s (s_session_id x) = Some x"
      and le: "view t \<subseteq>\<^sub>m (view s)(s_session_id x \<mapsto> y)"
      using t id by (auto simp: track_def)
    have "track ttl m0 y X (view t)" using track_write [OF t old step [OF old] le len] .
    then show ?thesis using step [OF old] id by (auto simp: track_def intro!: bad)
  qed
qed

lemma wp_replace:
  assumes t: "track ttl m0 x X (view s)"
    and ps: "ps = substitute p (s_participants x)"
    and step: "\<And>now. view s (s_session_id x) = Some x \<Longrightarrow> lobby_step ttl x (updated_session x ps st now e)"
    and ok: "\<And>now t. track ttl m0 (updated_session x ps st now e) X (view t) \<Longrightarrow>
       Q (updated_session x ps st now e) t"
    and bad: "\<And>err now t. base ttl m0 (view t) \<Longrightarrow>
       view t (s_session_id x) \<in> {None, Some x} \<or>
       view t (s_session_id x) = Some (updated_session x ps st now e) \<and>
         lobby_step ttl x (updated_session x ps st now e) \<Longrightarrow> E err t"
  shows "wp (replace_participant D x p st False e) Q E s"
  unfolding replace_participant_def Let_def wp_simps if_False ps [symmetric]
proof (rule wp_down_liftE [OF keeps_clock track_down t])
  fix now t
  assume le: "view t \<subseteq>\<^sub>m view s" and t': "track ttl m0 x X (view t)"
  show "wp (repo_save D (updated_session x ps st now e) (s_revision x))
    (\<lambda>_. Q (updated_session x ps st now e)) E t"
    by (rule wp_save [OF t' _ step _ ok])
      (use le map_le_apply bad in \<open>auto simp: ps substitute_def dest: map_le_apply\<close>)
qed

text \<open>The write that admits a participant.\<close>

lemma wp_admit:
  assumes t: "track ttl m0 x {} (view s)" and P: "down_closed (P False u)" "P False u (view s)"
    and ps: "ps = s_participants x @ [p]" and u: "p_user_id p = u"
    and step: "\<And>now. view s (s_session_id x) = Some x \<Longrightarrow> lobby_step ttl x (updated_session x ps st now e)"
    and ok: "\<And>now t m2. after ttl P m0 m2 \<Longrightarrow> track ttl m2 (updated_session x ps st now e) {} (view t) \<Longrightarrow>
       Q (updated_session x ps st now e) t"
    and bad: "\<And>err t. effect ttl P m0 (view t) \<Longrightarrow> E err t"
  shows "wp (replace_participant D x p st True e) Q E s"
  unfolding replace_participant_def Let_def wp_simps if_True ps [symmetric]
proof (rule wp_down_liftE [OF keeps_clock track_down t])
  fix now v
  assume le: "view v \<subseteq>\<^sub>m view s" and v: "track ttl m0 x {} (view v)"
  let ?y = "updated_session x ps st now e"
  have stored: "\<exists>m2. after ttl P m0 m2 \<and> track ttl m2 ?y {} (view w)"
    if old: "view v (s_session_id x) = Some x" and w: "view w \<subseteq>\<^sub>m (view v)(s_session_id x \<mapsto> ?y)" for w
  proof -
    have ly: "lobby_step ttl x ?y" using step map_le_apply [OF le old] by blast
    have "admits ttl False u (view v) ((view v)(s_session_id x \<mapsto> ?y))"
      using admits.entered [of "view v" "s_session_id x" x ttl ?y p u] old ly u by (simp add: ps)
    then have a: "after ttl P m0 ((view v)(s_session_id x \<mapsto> ?y))"
      using track_base [OF v] down_closedD [OF P le] unfolding after_def by blast
    have "base ttl ((view v)(s_session_id x \<mapsto> ?y)) (view w)"
      using down_closedD [OF base_down base_refl [OF after_inv [OF a]] w] .
    moreover have "view w (s_session_id ?y) \<in> {None, Some ?y}"
      by (rule map_le_None_Some [OF w]) simp
    ultimately show ?thesis
      using a lobby_step_inv [OF ly track_inv [OF v]] unfolding track_def by blast
  qed
  have kept: "effect ttl P m0 (view w)" if "view w \<subseteq>\<^sub>m view v" for w
    using down_closedD [OF base_down track_base [OF v] that] by (rule effect_base)
  let ?saved = "\<lambda>w. \<exists>z. view v (s_session_id ?y) = Some z \<and> s_revision z = s_revision x \<and>
    s_revision ?y = s_revision x + 1 \<and> view w \<subseteq>\<^sub>m (view v)(s_session_id ?y \<mapsto> ?y)"
  have saved: "\<exists>m2. after ttl P m0 m2 \<and> track ttl m2 ?y {} (view w)" if "?saved w" for w
  proof -
    from that obtain z where z: "view v (s_session_id x) = Some z" by auto
    have "view v (s_session_id x) \<in> {None, Some x}" using v by (simp add: track_def)
    with z have "view v (s_session_id x) = Some x" by simp
    then show ?thesis by (rule stored) (use that in \<open>simp; blast\<close>)
  qed
  show "wp (repo_save D ?y (s_revision x)) (\<lambda>_. Q ?y) E v"
    using save_law
  proof (rule wp_mono)
    fix w assume "?saved w"
    then show "Q ?y w" using saved ok by blast
  next
    fix err w assume "view w \<subseteq>\<^sub>m view v \<or> ?saved w"
    then show "E err w" using saved kept bad effect_after track_base by blast
  qed
qed

end

end
