(* ===== verification/OperationRefinement.thy ===== *)
theory OperationRefinement
  imports ServiceRefinement
begin

text \<open>
  Each operation of the Session Manager against the lobby specification, inside the
  contract \<open>session_env\<close>. The last section lists, for every public operation, that a run
  from a good store makes only store steps.
\<close>

text \<open>
  What the random source has to provide: an identifier that no stored participant has.
\<close>

definition uuid4_fresh :: "'s services \<Rightarrow> ('s \<Rightarrow> store) \<Rightarrow> bool" where
  "uuid4_fresh D view \<longleftrightarrow>
     (\<forall>s u t. uuid4 D s = (Inr u, t) \<longrightarrow>
        (\<forall>k x. view s k = Some x \<longrightarrow> u \<notin> set (map p_participant_id (s_participants x))))"

text \<open>
  What the quota checks before an admission establish, as a property \<open>P\<close> of the store
  that survives the expiry of records.
\<close>

definition quota_law ::
  "(bool \<Rightarrow> string \<Rightarrow> store \<Rightarrow> bool) \<Rightarrow> service_config \<Rightarrow> 's services \<Rightarrow> ('s \<Rightarrow> store) \<Rightarrow> bool" where
  "quota_law P cfg D view \<longleftrightarrow> (\<forall>g u. down_closed (P g u)) \<and>
     (\<forall>u s. wp (require_user_runtime_capacity cfg D u)
        (\<lambda>_ t. view t \<subseteq>\<^sub>m view s \<and> P False u (view t)) (\<lambda>_ t. view t \<subseteq>\<^sub>m view s) s) \<and>
     (\<forall>u s. wp (bindE (require_session_capacity cfg D) (\<lambda>_. require_user_runtime_capacity cfg D u))
        (\<lambda>_ t. view t \<subseteq>\<^sub>m view s \<and> P True u (view t)) (\<lambda>_ t. view t \<subseteq>\<^sub>m view s) s)"

lemma down_closed_conj: "down_closed I \<Longrightarrow> down_closed J \<Longrightarrow> down_closed (\<lambda>m. I m \<and> J m)"
  unfolding down_closed_def by blast

text \<open>The record a participant is being started in: the shape both \<open>except\<close> branches meet.\<close>

definition starting_in :: "netplay_role \<Rightarrow> uuid \<Rightarrow> session \<Rightarrow> bool" where
  "starting_in role pid x \<longleftrightarrow>
     (\<exists>q \<in> set (s_participants x). p_participant_id q = pid \<and> p_state q = P_STARTING) \<and>
     s_state x = (case role of Host \<Rightarrow> STARTING | Client \<Rightarrow> OPEN)"

lemma roster_unique:
  assumes "lobby_inv ttl x" and "p \<in> set (s_participants x)" and "q \<in> set (s_participants x)"
    and "p_participant_id p = p_participant_id q"
  shows "p = q"
proof -
  have "distinct (map p_participant_id (s_participants x))"
    using assms(1) by (simp add: lobby_inv_def roster_inv_def)
  then show ?thesis using assms(2-4) by (auto simp: distinct_map dest: inj_onD)
qed

lemma starting_in_step:
  assumes inv: "lobby_inv ttl x" and s: "starting_in role pid x"
    and q: "first_match (\<lambda>q. p_participant_id q = pid) (s_participants x) = Some q"
  shows "lobby_step ttl x (updated_session x (substitute (q\<lparr>p_state := P_ERROR\<rparr>) (s_participants x))
    (if role = Host then ERROR else s_state x) now None)"
proof -
  have q': "q \<in> set (s_participants x)" "p_participant_id q = pid" using first_match_SomeD [OF q] by auto
  then have st: "p_state q = P_STARTING"
    using s roster_unique [OF inv] by (auto simp: starting_in_def)
  have "next_session_state (s_state x) P_ERROR = (if role = Host then ERROR else s_state x)"
    using s by (cases role) (auto simp: starting_in_def)
  then show ?thesis
    using lobby_step.move [OF q'(1) participant_step.fail_start [OF st], where ttl = ttl and e = None]
      s by (cases role) (auto simp: starting_in_def)
qed

lemma starting_shape:
  assumes p: "p \<in> set (s_participants x)"
    and p': "p_participant_id p' = p_participant_id p" "p_user_id p' = p_user_id p"
      "p_state p' = P_STARTING"
    and st: "st = (case role of Host \<Rightarrow> STARTING | Client \<Rightarrow> OPEN)"
    and users: "\<forall>q \<in> set (active_list x). p_user_id q \<noteq> p_user_id p"
    and y_def: "y = updated_session x (substitute p' (s_participants x)) st now e"
  shows "p' \<in> set (s_participants y)" "starting_in role (p_participant_id p') y"
    "\<forall>q \<in> set (active_list y). p_user_id q \<noteq> p_user_id p'"
proof -
  show mem: "p' \<in> set (s_participants y)"
    by (simp add: y_def substitute_mem(2) [OF p p'(1)])
  then show "starting_in role (p_participant_id p') y"
    using p'(3) st by (auto simp: starting_in_def y_def)
  show "\<forall>q \<in> set (active_list y). p_user_id q \<noteq> p_user_id p'"
    using users p'(2,3) substitute_mem(1) [of _ p' "s_participants x"] unfolding y_def by fastforce
qed

definition pending :: "int \<Rightarrow> store \<Rightarrow> session list \<Rightarrow> store \<Rightarrow> bool" where
  "pending ttl m0 xs m \<longleftrightarrow> base ttl m0 m \<and> distinct (map s_session_id xs) \<and>
     (\<forall>x \<in> set xs. lobby_inv ttl x \<and> m (s_session_id x) \<in> {None, Some x})"

lemma pending_track:
  assumes "pending ttl m0 (x # xs) m"
  shows "track ttl m0 x (set xs) m"
proof -
  have "s_session_id z \<noteq> s_session_id x" if "z \<in> set xs" for z
  proof -
    have "s_session_id x \<notin> s_session_id ` set xs"
      using assms unfolding pending_def by simp
    with imageI [OF that, of s_session_id] show ?thesis by metis
  qed
  with assms show ?thesis unfolding pending_def track_def by simp
qed

lemma pending_next:
  "pending ttl m0 (x # xs) m \<Longrightarrow> track ttl m0 y (set xs) m' \<Longrightarrow> pending ttl m0 xs m'"
  unfolding pending_def track_def by simp

lemma track_other:
  assumes "track ttl m0 y X m" and "s_session_id y = s_session_id x"
  shows "\<exists>y. track ttl m0 y X m \<and> s_session_id y = s_session_id x"
  using assms by blast

text \<open>
  The requests the API and the background sweeper make of the service, and a sequence of
  them: an exception ends one request and not the process.
\<close>

datatype call =
    Create actor create_session_request
  | Discover
  | Get uuid
  | Join uuid actor
  | Launch uuid actor
  | Heartbeat uuid actor
  | Leave uuid actor
  | Kick uuid actor uuid
  | Close uuid actor
  | Sweep
  | Reconcile

fun perform :: "service_config \<Rightarrow> 's services \<Rightarrow> call \<Rightarrow> (exn, 's, unit) prog" where
  "perform cfg D (Create a r) = bindE (create cfg D a r) (\<lambda>_. returnE ())"
| "perform cfg D Discover = bindE (discover cfg D) (\<lambda>_. returnE ())"
| "perform cfg D (Get k) = bindE (get_session D k) (\<lambda>_. returnE ())"
| "perform cfg D (Join k a) = bindE (join cfg D k a) (\<lambda>_. returnE ())"
| "perform cfg D (Launch k a) = bindE (launch D k a) (\<lambda>_. returnE ())"
| "perform cfg D (Heartbeat k a) = bindE (heartbeat cfg D k a) (\<lambda>_. returnE ())"
| "perform cfg D (Leave k a) = bindE (leave D k a) (\<lambda>_. returnE ())"
| "perform cfg D (Kick k a p) = bindE (kick D k a p) (\<lambda>_. returnE ())"
| "perform cfg D (Close k a) = bindE (close D k a) (\<lambda>_. returnE ())"
| "perform cfg D Sweep = bindE (sweep cfg D) (\<lambda>_. returnE ())"
| "perform cfg D Reconcile = bindE (reconcile_startup D) (\<lambda>_. returnE ())"

fun serve :: "service_config \<Rightarrow> 's services \<Rightarrow> call list \<Rightarrow> 's \<Rightarrow> 's" where
  "serve cfg D [] s = s"
| "serve cfg D (c # cs) s = serve cfg D cs (snd (perform cfg D c s))"

context session_env
begin

lemma wp_close_session:
  assumes t: "track ttl m0 x X (view s)" and r: "length reason \<le> 64"
    and ok: "\<And>y t. track ttl m0 y X (view t) \<Longrightarrow> s_session_id y = s_session_id x \<Longrightarrow>
       s_state y = CLOSED \<Longrightarrow> s_owner_user_id y = s_owner_user_id x \<Longrightarrow> Q y t"
    and bad: "\<And>e t. base ttl m0 (view t) \<Longrightarrow> E e t"
  shows "wp (close_session D x reason) Q E s"
proof (cases "s_state x = CLOSED")
  case True
  then show ?thesis using t ok by (simp add: close_session_def wp_simps)
next
  case False
  have "wp (forE (\<lambda>p. if is_live p then retire_runtime D (p_participant_id p) else returnE ())
          (s_participants x))
        (\<lambda>_. wp (mapE (\<lambda>p. resultE (left_participant p now)) (s_participants x))
           (\<lambda>ps. wp (repo_save D (closed_session x ps now reason) (s_revision x))
              (\<lambda>_. Q (closed_session x ps now reason)) E) E) E s"
    if t: "track ttl m0 x X (view s)" for now s
  proof (rule wp_forE [where I = "\<lambda>_ s. track ttl m0 x X (view s)"])
    fix s assume t: "track ttl m0 x X (view s)"
    show "wp (mapE (\<lambda>p. resultE (left_participant p now)) (s_participants x))
           (\<lambda>ps. wp (repo_save D (closed_session x ps now reason) (s_revision x))
              (\<lambda>_. Q (closed_session x ps now reason)) E) E s"
      unfolding wp_left_all
    proof (split option.split, intro conjI impI allI)
      assume "List.find half_started (s_participants x) = None"
      then have "lobby_step ttl x (closed_session x (map (departed now) (s_participants x)) now reason)"
        using False r by (intro lobby_step.shut) (auto simp: find_None_iff half_started_def)
      then show "wp (repo_save D (closed_session x (map (departed now) (s_participants x)) now reason)
          (s_revision x)) (\<lambda>_. Q (closed_session x (map (departed now) (s_participants x)) now reason)) E s"
        by (intro wp_save [OF t]) (auto intro!: ok bad)
    qed (use t track_base bad in blast)
  qed (use t in \<open>auto simp: wp_simps track_base intro!: wp_retire_runtime [OF track_down] bad\<close>)
  with False show ?thesis
    by (auto simp: close_session_def wp_simps Let_def split: sum.splits
        intro!: wp_down_liftE [OF keeps_clock track_down t] bad track_base [OF t])
qed

lemma wp_expire:
  assumes t: "track ttl m0 x X (view s)"
    and ok: "\<And>y t. track ttl m0 y X (view t) \<Longrightarrow> s_session_id y = s_session_id x \<Longrightarrow>
       s_owner_user_id y = s_owner_user_id x \<Longrightarrow> Q y t"
    and bad: "\<And>e t. base ttl m0 (view t) \<Longrightarrow> E e t"
  shows "wp (expire D x) Q E s"
  unfolding expire_def wp_simps
  by (auto intro!: wp_down_liftE [OF keeps_clock track_down t] wp_close_session ok bad t)

lemma wp_retire_participant:
  assumes t: "track ttl m0 x X (view s)"
    and p: "p \<in> set (s_participants x)" "p_state p = P_ACTIVE"
    and ok: "\<And>p' now t. track ttl m0 (updated_session x (substitute p' (s_participants x))
         (s_state x) now None) X (view t) \<Longrightarrow> p_participant_id p' = p_participant_id p \<Longrightarrow>
       \<not> is_live p' \<Longrightarrow> Q (updated_session x (substitute p' (s_participants x)) (s_state x) now None) t"
    and bad: "\<And>e t. base ttl m0 (view t) \<Longrightarrow> E e t"
  shows "wp (retire_participant D x p failed) Q E s"
proof -
  have rep: "wp (replace_participant D x p' (s_state x) False None) Q E s"
    if t: "track ttl m0 x X (view s)"
      and p': "p' = p\<lparr>p_state := P_LEFT, p_last_heartbeat := u\<rparr> \<or>
        p' = p\<lparr>p_state := P_ERROR, p_last_heartbeat := u\<rparr>" for p' u s
    by (rule wp_replace [OF t refl]) (use p' in \<open>auto simp: is_live_def intro!: ok bad
      active_step [OF track_inv [OF t] p]\<close>)
  show ?thesis
    unfolding retire_participant_def wp_simps left_participant_eq
    by (rule wp_retire_runtime [OF track_down t])
      (auto simp: p(2) half_started_def departed_active intro!: wp_down_liftE [OF keeps_clock track_down]
        bad rep track_base)
qed

lemma wp_mark_failed:
  assumes t: "track ttl m0 x {} (view s)" and start: "starting_in role pid x"
    and bad: "\<And>e t. base ttl m0 (view t) \<Longrightarrow> E e t"
  shows "wp (mark_failed D role pid x err) Q E s"
proof (cases "first_match (\<lambda>q. p_participant_id q = pid) (s_participants x)")
  case None
  show ?thesis unfolding mark_failed_def None option.case wp_simps by (rule bad [OF track_base [OF t]])
next
  case (Some q)
  show ?thesis
    unfolding mark_failed_def Some option.case wp_simps
    by (rule wp_replace [OF t refl])
      (auto intro!: bad track_base simp: starting_in_step [OF track_inv [OF t] start Some, simplified])
qed

lemma wp_start_failed:
  assumes b: "base ttl m0 (view s)" and inv: "lobby_inv ttl current"
    and start: "starting_in role pid current"
    and stored: "\<And>z. view s (s_session_id current) = Some z \<Longrightarrow> starting_in role pid z"
    and bad: "\<And>e t. base ttl m0 (view t) \<Longrightarrow> E e t"
  shows "wp (start_failed D role pid current err) Q E s"
proof -
  define I where "I m \<longleftrightarrow> base ttl m0 m \<and>
    (\<forall>z. m (s_session_id current) = Some z \<longrightarrow> starting_in role pid z)" for m
  have down: "down_closed I"
    using base_down unfolding down_closed_def I_def by (metis map_le_apply)
  have read: "track ttl m0 (case r of None \<Rightarrow> current | Some x \<Rightarrow> x) {} (view t) \<and>
      starting_in role pid (case r of None \<Rightarrow> current | Some x \<Rightarrow> x)"
    if "base ttl m0 (view t)" "view t \<subseteq>\<^sub>m view u" "I (view u)" "r = view t (s_session_id current)" for r t u
  proof (cases r)
    case None
    then show ?thesis using that inv start by (simp add: track_def)
  next
    case (Some z)
    with that(4) have z: "view t (s_session_id current) = Some z" by simp
    show ?thesis
      using that(3) track_read [OF that(1) z] map_le_apply [OF that(2) z] Some by (simp add: I_def)
  qed
  show ?thesis
    unfolding start_failed_def wp_bindE
  proof (rule wp_cleanup_failed_runtime [OF down])
    fix a u assume u: "I (view u)"
    then have "base ttl m0 (view u)" by (simp add: I_def)
    then show "wp (repo_get D (s_session_id current)) (\<lambda>r. wp (mark_failed D role pid
          (case r of None \<Rightarrow> current | Some x \<Rightarrow> x) err) Q E) E u"
      by (rule wp_get) (use read u bad in \<open>blast intro: wp_mark_failed\<close>)+
  qed (use b stored bad in \<open>auto simp: I_def\<close>)
qed

lemma wp_activate_participant:
  assumes t: "track (session_ttl cfg) m0 x X (view s)" and p: "p \<in> set (s_participants x)"
    and start: "starting_in role (p_participant_id p) x"
    and users: "\<forall>q \<in> set (active_list x). p_user_id q \<noteq> p_user_id p"
    and ok: "\<And>y t. track (session_ttl cfg) m0 y X (view t) \<Longrightarrow> Q y t"
    and bad: "\<And>e t. base (session_ttl cfg) m0 (view t) \<Longrightarrow> E e t"
  shows "wp (activate_participant cfg D x p) Q E s"
proof -
  note inv = track_inv [OF t]
  have st: "p_state p = P_STARTING"
    using start p roster_unique [OF inv] by (auto simp: starting_in_def)
  have state: "s_state x = STARTING \<or> s_state x = OPEN" using start by (cases role) (auto simp: starting_in_def)
  have step: "lobby_step (session_ttl cfg) x (updated_session x
      (substitute (p\<lparr>p_state := P_ACTIVE, p_last_heartbeat := a,
         p_stream_path := Some (stream_path_of (p_participant_id p))\<rparr>) (s_participants x))
      OPEN now (Some (lease_expiry cfg x a)))" for a now
    using lobby_step.move [OF p participant_step.activate [OF st, of a], where ttl = "session_ttl cfg"
        and e = "Some (lease_expiry cfg x a)" and now = now] users state lease_expiry_le [of cfg x a]
    by auto
  have rep: "wp (replace_participant D x (p\<lparr>p_state := P_ACTIVE, p_last_heartbeat := a,
       p_stream_path := Some (stream_path_of (p_participant_id p))\<rparr>) OPEN False
       (Some (lease_expiry cfg x a))) Q E t" if "track (session_ttl cfg) m0 x X (view t)" for a t
    by (rule wp_replace [OF that refl]) (auto intro!: step ok bad)
  have trans: "require_participant_transition P_STARTING P_ACTIVE = Inr ()"
    "require_session_transition STARTING OPEN = Inr ()"
    by (simp_all add: require_participant_transition_def require_session_transition_def)
  show ?thesis
    unfolding activate_participant_def Let_def wp_simps trans sum.case
    by (rule wp_down_liftE [OF keeps_clock track_down t])
      (use state in \<open>auto simp: trans intro: rep\<close>)
qed

lemma wp_await_participant:
  assumes t: "track (session_ttl cfg) m0 x {} (view s)" and p: "p \<in> set (s_participants x)"
    and start: "starting_in role (p_participant_id p) x"
    and users: "\<forall>q \<in> set (active_list x). p_user_id q \<noteq> p_user_id p"
    and ok: "\<And>y t. track (session_ttl cfg) m0 y {} (view t) \<Longrightarrow> Q y t"
    and bad: "\<And>e t. base (session_ttl cfg) m0 (view t) \<Longrightarrow> E e t"
  shows "wp (await_participant cfg D role h p x) Q E s"
proof -
  have failed: "wp (start_failed D role (p_participant_id p) x e) Q E t"
    if "track (session_ttl cfg) m0 x {} (view t)" for e t
    by (rule wp_start_failed [OF track_base [OF that] track_inv [OF that] start _ bad])
      (use that start in \<open>auto simp: track_def\<close>)
  have active: "wp (activate_participant cfg D x p) Q E t"
    if "track (session_ttl cfg) m0 x {} (view t)" for t
    using that p start users ok bad by (rule wp_activate_participant)
  show ?thesis
    unfolding await_participant_def wp_simps sum.case
    by (rule wp_wait_ready [OF track_down t])
      (auto intro!: wp_down [OF keeps_provision track_down] failed active dest: track_base intro: bad)
qed

lemma wp_run_participant:
  assumes t: "track (session_ttl cfg) m0 x {} (view s)" and p: "p \<in> set (s_participants x)"
    and start: "starting_in role (p_participant_id p) x"
    and users: "\<forall>q \<in> set (active_list x). p_user_id q \<noteq> p_user_id p"
    and ok: "\<And>y t. track (session_ttl cfg) m0 y {} (view t) \<Longrightarrow> Q y t"
    and bad: "\<And>e t. base (session_ttl cfg) m0 (view t) \<Longrightarrow> E e t"
  shows "wp (run_participant cfg D role p x request) Q E s"
proof -
  note inv = track_inv [OF t]
  have st: "p_state p = P_STARTING"
    using start p roster_unique [OF inv] by (auto simp: starting_in_def)
  have state: "s_state x = (case role of Host \<Rightarrow> STARTING | Client \<Rightarrow> OPEN)"
    using start by (simp add: starting_in_def)
  let ?p2 = "\<lambda>r. p\<lparr>p_runtime_id := Some r\<rparr>"
  let ?x2 = "\<lambda>r now. updated_session x (substitute (?p2 r) (s_participants x)) (s_state x) now None"
  have step: "lobby_step (session_ttl cfg) x (?x2 r now)" for r now
    using lobby_step.move [OF p participant_step.got_runtime [OF st, of r], where ttl = "session_ttl cfg"
        and e = None and now = now] st state by (cases role) auto
  have shape: "?p2 r \<in> set (s_participants (?x2 r now))"
    "starting_in role (p_participant_id (?p2 r)) (?x2 r now)"
    "\<forall>q \<in> set (active_list (?x2 r now)). p_user_id q \<noteq> p_user_id (?p2 r)" for r now
    using starting_shape [of p x "?p2 r", OF p _ _ _ state users refl] st by simp_all
  have failed: "wp (start_failed D role (p_participant_id p) x e) Q E t"
    if "base (session_ttl cfg) m0 (view t)"
      "view t (s_session_id x) \<in> {None, Some x} \<or> (\<exists>r now. view t (s_session_id x) = Some (?x2 r now))" for e t
    by (rule wp_start_failed [OF that(1) inv start _ bad]) (use that(2) start shape(2) in auto)
  show ?thesis
    unfolding run_participant_def wp_simps Let_def
  proof (rule wp_down [OF keeps_create track_down t], goal_cases)
    case (1 h u)
    have wait: "wp (await_participant cfg D role h (?p2 (h_runtime_id h)) (?x2 (h_runtime_id h) now)) Q E v"
      if "track (session_ttl cfg) m0 (?x2 (h_runtime_id h) now) {} (view v)" for now v
      using that shape ok bad by (intro wp_await_participant) auto
    show ?case
      by (rule wp_replace [OF 1(2) refl]) (auto intro!: step wait failed bad)
  next
    case (2 e u)
    then show ?case by (auto intro!: failed bad simp: track_def)
  qed
qed

lemma wp_start_participant:
  assumes t: "track (session_ttl cfg) m0 x {} (view s)" and p: "p \<in> set (s_participants x)"
    and p_state: "p_state p = P_ALLOCATING"
    and state: "s_state x = (case role of Host \<Rightarrow> CREATING | Client \<Rightarrow> OPEN)"
    and users: "\<forall>q \<in> set (active_list x). p_user_id q \<noteq> p_user_id p"
    and ok: "\<And>y t. track (session_ttl cfg) m0 y {} (view t) \<Longrightarrow> Q y t"
    and bad: "\<And>e t. base (session_ttl cfg) m0 (view t) \<Longrightarrow> E e t"
  shows "wp (start_participant cfg D x p game core role host) Q E s"
proof -
  let ?p = "p\<lparr>p_state := P_STARTING\<rparr>"
  let ?st = "case role of Host \<Rightarrow> STARTING | Client \<Rightarrow> OPEN"
  let ?x = "\<lambda>now. updated_session x (substitute ?p (s_participants x)) ?st now None"
  have target: "(if s_state x = CREATING then STARTING else s_state x) = ?st"
    using state by (cases role) simp_all
  have step: "lobby_step (session_ttl cfg) x (?x now)" for now
    using lobby_step.move [OF p participant_step.begin_start [OF p_state], where ttl = "session_ttl cfg"
        and e = None and now = now] state p_state by (cases role) simp_all
  have shape: "?p \<in> set (s_participants (?x now))"
    "starting_in role (p_participant_id ?p) (?x now)"
    "\<forall>q \<in> set (active_list (?x now)). p_user_id q \<noteq> p_user_id ?p" for now
    using starting_shape [of p x ?p, OF p _ _ _ refl users refl] by simp_all
  have run: "wp (run_participant cfg D role ?p (?x now) r) Q E u"
    if "track (session_ttl cfg) m0 (?x now) {} (view u)" for now r u
    using that shape ok bad by (rule wp_run_participant)
  have trans: "require_participant_transition (p_state p) P_STARTING = Inr ()"
    "s_state x = CREATING \<Longrightarrow> require_session_transition (s_state x) ?st = Inr ()"
    using state by (simp_all add: p_state require_participant_transition_def
        require_session_transition_def split: netplay_role.splits)
  have replace: "wp (replace_participant D x ?p ?st False None) (\<lambda>a s.
      case make_runtime_request (mk a) of Inl e \<Rightarrow> E e s
      | Inr r \<Rightarrow> wp (run_participant cfg D role ?p a r) Q E s) E s" for mk
    by (rule wp_replace [OF t refl])
      (auto split: sum.splits intro!: step run bad dest: track_base)
  show ?thesis
    unfolding start_participant_def Let_def target wp_simps trans(1) sum.case
    using replace trans(2) by auto
qed

section \<open>The public operations\<close>

lemma keeps_get: "keeps view (repo_get D k)"
  by (rule keepsI, rule wp_mono [OF get_law]) auto

lemma keeps_repo_list: "keeps view (repo_list D)"
  by (rule keepsI, rule wp_mono [OF list_law]) auto

lemma wp_resolve:
  assumes "down_closed I" and "I (view s)"
    and "\<And>g c t. I (view t) \<Longrightarrow> Q (g, c) t" and "\<And>e t. I (view t) \<Longrightarrow> E e t"
  shows "wp (resolve D rom) Q E s"
  unfolding resolve_def wp_simps
  by (rule wp_down [OF keeps_romm assms(1,2)];
      auto intro!: wp_down [OF keeps_cores assms(1)] assms(3,4))

lemma wp_quotas:
  assumes "down_closed I" and "I (view s)"
    and "\<And>t. I (view t) \<Longrightarrow> Q () t" and "\<And>e t. I (view t) \<Longrightarrow> E e t"
  shows "wp (require_session_capacity cfg D) Q E s"
    "wp (require_user_runtime_capacity cfg D u) Q E s"
    "wp (require_runtime_capacity cfg D) Q E s"
  unfolding require_session_capacity_def require_user_runtime_capacity_def active_sessions_def
    require_runtime_capacity_def wp_simps
  by (auto intro!: wp_down [OF keeps_repo_list assms(1,2)] wp_down [OF keeps_list assms(1,2)] assms(3,4))

lemma wp_required_expire:
  assumes b: "base ttl m0 (view s)"
    and ok: "\<And>x t. track ttl m0 x {} (view t) \<Longrightarrow> s_session_id x = sid \<Longrightarrow> Q x t"
    and bad: "\<And>e t. base ttl m0 (view t) \<Longrightarrow> E e t"
  shows "wp (required D sid) (\<lambda>x. wp (expire D x) Q E) E s"
  by (rule wp_required [OF b]) (auto intro!: wp_expire ok bad)

text \<open>One participant of a tracked session leaves, as \<open>leave\<close> and \<open>kick\<close> do it.\<close>

lemma wp_depart:
  assumes t: "track ttl m0 x {} (view s)"
    and p: "p \<in> set (s_participants x)" "is_live p"
    and ok: "\<And>y t. track ttl m0 y {} (view t) \<Longrightarrow> Q y t"
    and bad: "\<And>e t. base ttl m0 (view t) \<Longrightarrow> E e t"
  shows "wp (bindE (retire_runtime D (p_participant_id p)) (\<lambda>_.
              bindE (liftE (clock D)) (\<lambda>now.
              bindE (resultE (left_participant p now)) (\<lambda>left.
              replace_participant D x left (s_state x) False None)))) Q E s"
proof -
  have rep: "wp (replace_participant D x (departed now p) (s_state x) False None) Q E u"
    if u: "track ttl m0 x {} (view u)" and "\<not> half_started p" for now u
  proof -
    have act: "p_state p = P_ACTIVE" using that(2) p(2) by (simp add: half_started_def)
    show ?thesis
      unfolding departed_active [OF act]
      by (rule wp_replace [OF u refl]) (auto intro!: active_step [OF track_inv [OF u] p(1) act] ok bad)
  qed
  show ?thesis
    unfolding wp_simps left_participant_eq
    by (rule wp_retire_runtime [OF track_down t])
      (auto intro!: wp_down_liftE [OF keeps_clock track_down] bad rep dest: track_base)
qed

lemma wp_uuid4:
  assumes fresh: "uuid4_fresh D view" and I: "down_closed I" "I (view s)"
    and ok: "\<And>u t. I (view t) \<Longrightarrow>
       (view t k = Some x \<Longrightarrow> u \<notin> set (map p_participant_id (s_participants x))) \<Longrightarrow> Q u t"
    and bad: "\<And>e t. I (view t) \<Longrightarrow> E e t"
  shows "wp (uuid4 D) Q E s"
proof (rule wp_I)
  fix u v assume run: "uuid4 D s = (Inr u, v)"
  then have le: "view v \<subseteq>\<^sub>m view s" using keeps_uuid4 unfolding keeps_def by (metis snd_conv)
  have "u \<notin> set (map p_participant_id (s_participants x))" if "view v k = Some x"
    using fresh run map_le_apply [OF le that] unfolding uuid4_fresh_def by blast
  with down_closedD [OF I le] show "Q u v" by (rule ok)
next
  fix e v assume "uuid4 D s = (Inl e, v)"
  then have "view v \<subseteq>\<^sub>m view s" using keeps_uuid4 unfolding keeps_def by (metis snd_conv)
  with I show "E e v" by (blast intro: bad down_closedD)
qed

lemma wp_add:
  assumes b: "base ttl m0 (view s)" and x: "lobby_start ttl x"
    and down: "down_closed (P True (s_owner_user_id x))" and P: "P True (s_owner_user_id x) (view s)"
    and ok: "\<And>t m2. after ttl P m0 m2 \<Longrightarrow> track ttl m2 x {} (view t) \<Longrightarrow> Q () t"
    and bad: "\<And>e t. effect ttl P m0 (view t) \<Longrightarrow> E e t"
  shows "wp (repo_add D x) Q E s"
proof -
  have a: "after ttl P m0 (m(s_session_id x \<mapsto> x))" if m: "m \<subseteq>\<^sub>m view s" "m (s_session_id x) = None" for m
    using down_closedD [OF base_down b m(1)] down_closedD [OF down P m(1)] admits.added [where m = m and u = "s_owner_user_id x", OF m(2) x refl]
    unfolding after_def by blast
  have t: "track ttl (m(s_session_id x \<mapsto> x)) x {} (view t)"
    if m: "m \<subseteq>\<^sub>m view s" "m (s_session_id x) = None" and le: "view t \<subseteq>\<^sub>m m(s_session_id x \<mapsto> x)" for m t
  proof -
    have "view t (s_session_id x) \<in> {None, Some x}" by (rule map_le_None_Some [OF le]) simp
    then show ?thesis
      using down_closedD [OF base_down base_refl [OF after_inv [OF a [OF m]]] le]
        lobby_start_inv [OF x] unfolding track_def by blast
  qed
  have d: "effect ttl P m0 (view t)" if "view t \<subseteq>\<^sub>m view s" for t
    using down_closedD [OF base_down b that] by (rule effect_base)
  show ?thesis
    using add_law
  proof (rule wp_mono)
    fix e w
    assume "view w \<subseteq>\<^sub>m view s \<or>
      (\<exists>m. m \<subseteq>\<^sub>m view s \<and> m (s_session_id x) = None \<and> view w \<subseteq>\<^sub>m m(s_session_id x \<mapsto> x))"
    then show "E e w"
      by (elim disjE exE conjE) (blast intro: bad d, rule bad, rule effect_after [OF a], assumption+,
        rule track_base [OF t])
  next
    fix u w
    assume "\<exists>m. m \<subseteq>\<^sub>m view s \<and> m (s_session_id x) = None \<and> view w \<subseteq>\<^sub>m m(s_session_id x \<mapsto> x)"
    then show "Q u w" by (elim exE conjE) (simp add: ok [OF a t])
  qed
qed

lemma wp_join_admit:
  assumes t: "track (session_ttl cfg) m0 x {} (view s)" and fresh: "uuid4_fresh D view"
    and P: "down_closed (P False (a_user_id actor))" "P False (a_user_id actor) (view s)"
    and state: "s_state x = OPEN"
    and users: "\<forall>q \<in> set (active_list x). p_user_id q \<noteq> a_user_id actor"
    and ok: "\<And>y m2 t. after (session_ttl cfg) P m0 m2 \<Longrightarrow> track (session_ttl cfg) m2 y {} (view t) \<Longrightarrow> Q y t"
    and bad: "\<And>e t. effect (session_ttl cfg) P m0 (view t) \<Longrightarrow> E e t"
  shows "wp (join_admit cfg D x actor game core) Q E s"
proof -
  let ?ttl = "session_ttl cfg" and ?u = "a_user_id actor"
  let ?p = "\<lambda>slot pid now. \<lparr>p_participant_id = pid, p_session_id = s_session_id x,
     p_user_id = a_user_id actor, p_display_name = a_display_name actor, p_player_slot = slot,
     p_runtime_id = None, p_stream_path = None, p_state = P_ALLOCATING, p_joined_at = now,
     p_last_heartbeat = now\<rparr>"
  let ?y = "\<lambda>slot pid now n. updated_session x (s_participants x @ [?p slot pid now]) OPEN n None"
  have fail: "E e v" if "track ?ttl m0 x {} (view v)" for e v
    by (rule bad [OF effect_base [OF track_base [OF that]]])
  have start: "wp (start_participant cfg D (?y slot pid now n) (?p slot pid now) game core Client host) Q E v"
    if a: "after ?ttl P m0 m2" and v: "track ?ttl m2 (?y slot pid now n) {} (view v)" for slot pid now n host v m2
  proof (rule wp_start_participant [OF v])
    show "\<forall>q \<in> set (active_list (?y slot pid now n)). p_user_id q \<noteq> p_user_id (?p slot pid now)"
      using users by (auto simp: active_list_def)
  qed (auto intro: ok [OF a] bad [OF effect_after [OF a]])
  have rep: "wp (replace_participant D x (?p slot pid now) OPEN True None)
      (\<lambda>a s. case first_match (\<lambda>q. p_player_slot q = 1) (s_participants x) of
          None \<Rightarrow> E StopIteration s
        | Some y \<Rightarrow> wp (start_participant cfg D a (?p slot pid now) game core Client
                       (Some (p_participant_id y))) Q E s) E v"
    if v: "track ?ttl m0 x {} (view v) \<and> P False ?u (view v)"
      and id: "view v (s_session_id x) = Some x \<Longrightarrow> pid \<notin> set (map p_participant_id (s_participants x))"
      and pok: "participant_ok (?p slot pid now)" and slot: "free_slot x = Some slot" for slot pid now v
  proof (rule wp_admit [where P = P and u = ?u and ttl = ?ttl and ?m0.0 = m0, OF _ P(1) _ refl], goal_cases)
    case (4 n)
    show ?case
      by (rule lobby_step.enter [OF state]) (use 4 id pok users free_slot_SomeD [OF slot] in auto)
  next
    case (5 n w m2)
    then show ?case
      by (auto split: option.splits intro!: start bad effect_after dest: track_base)
  qed (use v in \<open>auto intro: bad\<close>)
  have down: "down_closed (\<lambda>m. track ?ttl m0 x {} m \<and> P False ?u m)"
    by (rule down_closed_conj [OF track_down P(1)])
  show ?thesis
    unfolding join_admit_def wp_simps state make_participant_def case_construct
    by (cases "free_slot x")
      (auto intro!: wp_down_liftE [OF keeps_clock down] wp_uuid4 [OF fresh down] rep fail t P(2))
qed

lemma wp_le_down:
  assumes "wp f (\<lambda>a t. view t \<subseteq>\<^sub>m view s \<and> R a t) (\<lambda>_ t. view t \<subseteq>\<^sub>m view s) s"
    and I: "down_closed I" "I (view s)"
    and "\<And>a t. I (view t) \<Longrightarrow> R a t \<Longrightarrow> Q a t" and "\<And>e t. I (view t) \<Longrightarrow> E e t"
  shows "wp f Q E s"
  using assms(1) by (rule wp_mono) (use assms(4,5) down_closedD [OF I] in blast)+

lemma wp_quota_law:
  assumes q: "quota_law P cfg D view" and I: "down_closed I" "I (view s)"
    and bad: "\<And>e t. I (view t) \<Longrightarrow> E e t"
  shows "(\<And>t. I (view t) \<Longrightarrow> P False u (view t) \<Longrightarrow> Q () t) \<Longrightarrow>
      wp (require_user_runtime_capacity cfg D u) Q E s"
    "(\<And>t. I (view t) \<Longrightarrow> P True u (view t) \<Longrightarrow> Q () t) \<Longrightarrow>
      wp (require_session_capacity cfg D) (\<lambda>_. wp (require_user_runtime_capacity cfg D u) Q E) E s"
proof -
  have "wp (require_user_runtime_capacity cfg D u)
      (\<lambda>_ t. view t \<subseteq>\<^sub>m view s \<and> P False u (view t)) (\<lambda>_ t. view t \<subseteq>\<^sub>m view s) s"
    and two: "wp (bindE (require_session_capacity cfg D) (\<lambda>_. require_user_runtime_capacity cfg D u))
      (\<lambda>_ t. view t \<subseteq>\<^sub>m view s \<and> P True u (view t)) (\<lambda>_ t. view t \<subseteq>\<^sub>m view s) s"
    using q unfolding quota_law_def by simp_all
  then show "(\<And>t. I (view t) \<Longrightarrow> P False u (view t) \<Longrightarrow> Q () t) \<Longrightarrow>
      wp (require_user_runtime_capacity cfg D u) Q E s"
    by - (erule wp_le_down [OF _ I]; simp add: bad)
  show "(\<And>t. I (view t) \<Longrightarrow> P True u (view t) \<Longrightarrow> Q () t) \<Longrightarrow>
      wp (require_session_capacity cfg D) (\<lambda>_. wp (require_user_runtime_capacity cfg D u) Q E) E s"
    unfolding wp_bindE [symmetric] by (rule wp_le_down [OF two I]) (simp_all add: bad)
qed

lemma wp_join:
  assumes b: "base (session_ttl cfg) m0 (view s)" and fresh: "uuid4_fresh D view"
    and q: "quota_law P cfg D view"
    and bad: "\<And>e t. effect (session_ttl cfg) P m0 (view t) \<Longrightarrow> E e t"
    and ok: "\<And>y m2 t. effect (session_ttl cfg) P m0 (view t) \<Longrightarrow> track (session_ttl cfg) m2 y {} (view t) \<Longrightarrow> Q y t"
  shows "wp (join cfg D sid actor) Q E s"
proof -
  let ?ttl = "session_ttl cfg" and ?u = "a_user_id actor"
  have P: "down_closed (P False ?u)" using q by (simp add: quota_law_def)
  have fail: "E e v" if "base ?ttl m0 (view v)" for e v by (rule bad [OF effect_base [OF that]])
  have down: "down_closed (\<lambda>m. track ?ttl m0 x {} m \<and> P False ?u m)" for x
    by (rule down_closed_conj [OF track_down P])
  have users: "\<forall>q \<in> set (active_list x). p_user_id q \<noteq> ?u"
    if "\<not> list_ex (\<lambda>p. p_user_id p = ?u \<and> p_state p = P_ACTIVE) (s_participants x)" for x
    using that by (auto simp: list_ex_iff)
  have admit: "wp (join_admit cfg D x actor g c) Q E v"
    if "track ?ttl m0 x {} (view v) \<and> P False ?u (view v)" "s_state x = OPEN"
      "\<not> list_ex (\<lambda>p. p_user_id p = ?u \<and> p_state p = P_ACTIVE) (s_participants x)" for x g c v
    by (rule wp_join_admit [where P = P, OF _ fresh P])
      (use that users ok effect_after track_base bad in \<open>auto simp del: active_list_mem\<close>)
  have tail: "wp (require_runtime_capacity cfg D) (\<lambda>_. wp (resolve D rom) K E) E v"
    if "track ?ttl m0 x {} (view v) \<and> P False ?u (view v)"
      and "\<And>g c w. track ?ttl m0 x {} (view w) \<and> P False ?u (view w) \<Longrightarrow> K (g, c) w" for x rom K v
    by (rule wp_quotas(3) [OF down that(1)])
      (auto intro!: wp_resolve [OF down] that fail dest: track_base)
  have quota: "wp (require_user_runtime_capacity cfg D ?u) K E v"
    if "track ?ttl m0 x {} (view v)"
      and "\<And>w. track ?ttl m0 x {} (view w) \<and> P False ?u (view w) \<Longrightarrow> K () w" for x K v
    by (rule wp_quota_law(1) [OF q track_down that(1)]) (use that fail track_base in blast)+
  show ?thesis
    unfolding join_def wp_simps
    apply (rule wp_required_expire [OF b _ fail])
    subgoal for x v
      by (auto intro: ok effect_base track_base intro!: fail quota [of x] tail [of x] admit dest: track_base)
    .
qed

lemma wp_launch:
  assumes b: "base ttl m0 (view s)"
    and ok: "\<And>y t. base ttl m0 (view t) \<Longrightarrow> Q y t"
    and bad: "\<And>e t. base ttl m0 (view t) \<Longrightarrow> E e t"
  shows "wp (launch D sid actor) Q E s"
  unfolding launch_def wp_simps
  by (rule wp_required_expire [OF b])
    (auto intro!: ok bad wp_down [OF keeps_provision base_down]
      dest: track_base split: option.splits sum.splits)

lemma wp_heartbeat:
  assumes b: "base (session_ttl cfg) m0 (view s)"
    and ok: "\<And>y t. track (session_ttl cfg) m0 y {} (view t) \<Longrightarrow> Q y t"
    and bad: "\<And>e t. base (session_ttl cfg) m0 (view t) \<Longrightarrow> E e t"
  shows "wp (heartbeat cfg D sid actor) Q E s"
proof -
  have renew: "wp (replace_participant D x (p\<lparr>p_last_heartbeat := now\<rparr>) (s_state x) False
      (Some (lease_expiry cfg x now))) Q E u"
    if u: "track (session_ttl cfg) m0 x {} (view u)" and p: "active_participant x v = Some p" for x p now v u
  proof -
    have "p \<in> set (s_participants x)" "p_state p = P_ACTIVE"
      using first_match_SomeD [OF p [unfolded active_participant_def]] by auto
    from active_step [OF track_inv [OF u] this, where e = "Some (lease_expiry cfg x now)"]
    show ?thesis
      by (intro wp_replace [OF u refl]) (auto intro!: ok bad simp: lease_expiry_le)
  qed
  show ?thesis
    unfolding heartbeat_def wp_simps
    by (rule wp_required_expire [OF b])
      (auto intro!: bad renew wp_down_liftE [OF keeps_clock track_down] dest: track_base
        split: option.splits)
qed

lemma wp_leave:
  assumes b: "base ttl m0 (view s)"
    and ok: "\<And>y t. track ttl m0 y {} (view t) \<Longrightarrow> Q y t"
    and bad: "\<And>e t. base ttl m0 (view t) \<Longrightarrow> E e t"
  shows "wp (leave D sid actor) Q E s"
  unfolding leave_def wp_bindE wp_case_option wp_if wp_returnE wp_raiseE
  by (rule wp_required_expire [OF b])
    (auto intro!: ok bad wp_depart [unfolded wp_bindE] dest: track_base first_match_SomeD
      split: option.splits)

lemma wp_kick:
  assumes b: "base ttl m0 (view s)"
    and ok: "\<And>y t. track ttl m0 y {} (view t) \<Longrightarrow> Q y t"
    and bad: "\<And>e t. base ttl m0 (view t) \<Longrightarrow> E e t"
  shows "wp (kick D sid actor pid) Q E s"
  unfolding kick_def wp_bindE wp_case_option wp_if wp_returnE wp_raiseE
  by (rule wp_required_expire [OF b])
    (auto intro!: ok bad wp_depart [unfolded wp_bindE] dest: track_base first_match_SomeD
      split: option.splits)

lemma wp_close:
  assumes b: "base ttl m0 (view s)"
    and ok: "\<And>y t. track ttl m0 y {} (view t) \<Longrightarrow> s_state y = CLOSED \<Longrightarrow> Q y t"
    and bad: "\<And>e t. base ttl m0 (view t) \<Longrightarrow> E e t"
  shows "wp (close D sid actor) Q E s"
  unfolding close_def wp_simps
  by (rule wp_required [OF b]) (auto intro!: wp_close_session ok bad dest: track_base)

text \<open>
  The loops over the repository's sessions: \<open>pending\<close> says that the records still to be
  visited are the stored ones.
\<close>

lemma wp_session_loop:
  assumes b: "base ttl m0 (view s)"
    and body: "\<And>x c X s. track ttl m0 x X (view s) \<Longrightarrow>
       wp (f x c) (\<lambda>_ t. \<exists>y. track ttl m0 y X (view t) \<and> s_session_id y = s_session_id x)
         (\<lambda>_ t. base ttl m0 (view t)) s"
    and ok: "\<And>c t. base ttl m0 (view t) \<Longrightarrow> Q c t"
    and bad: "\<And>e t. base ttl m0 (view t) \<Longrightarrow> E e t"
  shows "wp (bindE (repo_list D) (\<lambda>xs. foldE f xs c)) Q E s"
  unfolding wp_bindE
proof (rule wp_list [OF b])
  fix xs t
  assume "base ttl m0 (view t)" "distinct (map s_session_id xs)"
    "\<forall>x \<in> set xs. view t (s_session_id x) \<in> {None, Some x} \<and> lobby_inv ttl x"
  then have start: "pending ttl m0 xs (view t)" by (auto simp: pending_def)
  show "wp (foldE f xs c) Q E t"
  proof (rule wp_foldE [where I = "\<lambda>ys _ s. pending ttl m0 ys (view s)"])
    fix x ys c u
    assume p: "pending ttl m0 (x # ys) (view u)"
    from body [OF pending_track [OF p]]
    show "wp (f x c) (\<lambda>_ s. pending ttl m0 ys (view s)) E u"
      by (rule wp_mono) (use p pending_next bad in blast)+
  qed (use start ok in \<open>auto simp: pending_def\<close>)
qed (rule bad)

lemma wp_sweep_participants:
  assumes t: "track ttl m0 x X (view s)"
    and ps: "distinct (map p_participant_id ps)" "set ps \<subseteq> set (active_list x)"
  shows "wp (foldE (sweep_participant D stale) ps (x, c, False))
    (\<lambda>_ t. \<exists>y. track ttl m0 y X (view t) \<and> s_session_id y = s_session_id x)
    (\<lambda>_ t. base ttl m0 (view t)) s"
proof (rule wp_foldE [where I = "\<lambda>ps (y, c, stopped) s.
    if stopped then \<exists>z. track ttl m0 z X (view s) \<and> s_session_id z = s_session_id x
    else track ttl m0 y X (view s) \<and> s_session_id y = s_session_id x \<and>
      distinct (map p_participant_id ps) \<and> set ps \<subseteq> set (active_list y)"], goal_cases)
  case 1
  then show ?case using t ps by simp
next
  case (2 p ps acc u)
  obtain y c stopped where acc: "acc = (y, c, stopped)" by (cases acc)
  show ?case
  proof (cases stopped)
    case True
    then show ?thesis using 2 by (simp add: acc sweep_participant_def wp_simps)
  next
    case False
    then have y: "track ttl m0 y X (view u)" "s_session_id y = s_session_id x"
      and p: "p \<in> set (s_participants y)" "p_state p = P_ACTIVE"
      and rest: "distinct (map p_participant_id ps)" "p_participant_id p \<notin> p_participant_id ` set ps"
        "set ps \<subseteq> set (active_list y)"
      using 2 by (auto simp: acc)
    have kept: "set ps \<subseteq> set (active_list (updated_session y (substitute p' (s_participants y)) st n e))"
      if "p_participant_id p' = p_participant_id p" for p' st n e
      using rest(2,3) that by (force simp: substitute_def image_iff subset_iff)
    have retire: "wp (retire_participant D y p failed) (\<lambda>z s.
        track ttl m0 z X (view s) \<and> s_session_id z = s_session_id x \<and>
        distinct (map p_participant_id ps) \<and> set ps \<subseteq> set (active_list z)) (\<lambda>_ t. base ttl m0 (view t)) v"
      if "track ttl m0 y X (view v)" for failed v
      using that p by (rule wp_retire_participant) (use y rest kept in simp_all)
    have shut: "wp (close_session D y ''owner_runtime_failed'') (\<lambda>_ s.
        \<exists>z. track ttl m0 z X (view s) \<and> s_session_id z = s_session_id x) (\<lambda>_ t. base ttl m0 (view t)) v"
      if "track ttl m0 y X (view v)" for v
      using that by (rule wp_close_session) (use y in auto)
    show ?thesis
      unfolding acc sweep_participant_def prod.case wp_simps False if_False
      by (auto simp del: active_list_mem intro!: retire shut y rest
          wp_down [OF keeps_inspect track_down y(1)] dest: track_base)
  qed
next
  case (3 acc u)
  then show ?case by (auto split: prod.splits if_splits)
qed

lemma wp_sweep_session:
  assumes t: "track ttl m0 x X (view s)"
  shows "wp (sweep_session cfg D x c)
    (\<lambda>_ t. \<exists>y. track ttl m0 y X (view t) \<and> s_session_id y = s_session_id x)
    (\<lambda>_ t. base ttl m0 (view t)) s"
proof -
  have shut: "wp (close_session D x r) (\<lambda>_ s.
      \<exists>z. track ttl m0 z X (view s) \<and> s_session_id z = s_session_id x) (\<lambda>_ t. base ttl m0 (view t)) v"
    if "track ttl m0 x X (view v)" "length r \<le> 64" for r v
    using that by (rule wp_close_session) auto
  have ids: "distinct (map p_participant_id (active_list x))"
    using roster_inv_ids [of x] track_inv [OF t]
    by (auto simp: active_list_def lobby_inv_def distinct_map_filter)
  have loop: "wp (foldE (sweep_participant D stale) (active_list x) (x, c, False)) (\<lambda>_ s.
      \<exists>z. track ttl m0 z X (view s) \<and> s_session_id z = s_session_id x) (\<lambda>_ t. base ttl m0 (view t)) v"
    if "track ttl m0 x X (view v)" for stale v
    using that ids by (rule wp_sweep_participants) simp
  show ?thesis
    unfolding sweep_session_def Let_def wp_simps
    by (auto intro!: shut loop wp_down_liftE [OF keeps_clock track_down t] exI [of _ x] t)
qed

lemma wp_sweep:
  assumes b: "base ttl m0 (view s)"
    and ok: "\<And>c t. base ttl m0 (view t) \<Longrightarrow> Q c t"
    and bad: "\<And>e t. base ttl m0 (view t) \<Longrightarrow> E e t"
  shows "wp (sweep cfg D) Q E s" "wp (expire_due cfg D) Q E s"
  unfolding expire_due_def sweep_def
  by (rule wp_session_loop [OF b wp_sweep_session ok bad]; assumption)+

lemma wp_reconcile_startup:
  assumes b: "base ttl m0 (view s)"
    and ok: "\<And>c t. base ttl m0 (view t) \<Longrightarrow> Q c t"
    and bad: "\<And>e t. base ttl m0 (view t) \<Longrightarrow> E e t"
  shows "wp (reconcile_startup D) Q E s"
proof -
  let ?close = "\<lambda>x c. if s_state x \<noteq> CLOSED
    then bindE (close_session D x ''manager_restarted'') (\<lambda>_. returnE (c + 1)) else returnE c"
  let ?reap = "\<lambda>h c. bindE (best_effort_revoke D (h_runtime_id h)) (\<lambda>_.
    bindE (execution_remove D (h_runtime_id h)) (\<lambda>_. returnE (c + (1::int))))"
  have body: "wp (?close x c) (\<lambda>_ t. \<exists>y. track ttl m0 y X (view t) \<and> s_session_id y = s_session_id x)
      (\<lambda>_ t. base ttl m0 (view t)) v" if "track ttl m0 x X (view v)" for x c X v
    unfolding wp_simps using that by (auto intro!: wp_close_session [OF that])
  have reap: "wp (foldE ?reap hs c) Q E v" if "base ttl m0 (view v)" for hs c v
    by (rule wp_foldE [where I = "\<lambda>_ _ s. base ttl m0 (view s)"])
      (auto simp: wp_simps best_effort_revoke_def that intro!: ok bad
        wp_down [OF keeps_revoke base_down] wp_down [OF keeps_remove base_down])
  have "wp (bindE (repo_list D) (\<lambda>xs. foldE ?close xs 0))
      (\<lambda>c. wp (execution_list D) (\<lambda>hs. wp (foldE ?reap hs c) Q E) E) E s"
    by (rule wp_session_loop [OF b body])
      (auto intro!: bad reap wp_down [OF keeps_list base_down])
  then show ?thesis unfolding reconcile_startup_def wp_bindE .
qed

lemma wp_create:
  assumes b: "base (session_ttl cfg) m0 (view s)" and q: "quota_law P cfg D view"
    and bad: "\<And>e t. effect (session_ttl cfg) P m0 (view t) \<Longrightarrow> E e t"
    and ok: "\<And>y m2 t. effect (session_ttl cfg) P m0 (view t) \<Longrightarrow> track (session_ttl cfg) m2 y {} (view t) \<Longrightarrow> Q y t"
  shows "wp (create cfg D actor request) Q E s"
proof -
  let ?ttl = "session_ttl cfg" and ?u = "a_user_id actor"
  let ?I = "\<lambda>m. base ?ttl m0 m \<and> P True ?u m"
  let ?p = "\<lambda>sid pid now. \<lparr>p_participant_id = pid, p_session_id = sid, p_user_id = a_user_id actor,
     p_display_name = a_display_name actor, p_player_slot = 1, p_runtime_id = None,
     p_stream_path = None, p_state = P_ALLOCATING, p_joined_at = now, p_last_heartbeat = now\<rparr>"
  have down: "down_closed ?I"
    using q by (intro down_closed_conj [OF base_down]) (simp add: quota_law_def)
  have fail: "E e v" if "base ?ttl m0 (view v)" for e v by (rule bad [OF effect_base [OF that]])
  have new: "wp (repo_add D x) (\<lambda>_. wp (start_participant cfg D x p game core Host None) Q E) E v"
    if v: "?I (view v)" and x: "make_session z = Inr x"
      and z: "s_participants z = [p]" "s_state z = CREATING" "s_revision z = 0"
        "s_closed_reason z = None" "s_expires_at z \<le> s_created_at z + ?ttl"
        "p = ?p (s_session_id z) pid now" "s_owner_user_id z = ?u"
      and p: "participant_ok p" for x z p pid now game core v
  proof -
    have xz: "x = z" "session_fields_ok z"
      using x by (auto simp: make_session_def consistent_participants_def Let_def split: if_splits)
    have start: "lobby_start ?ttl x" using xz z p by (simp add: lobby_start_def)
    have "wp (start_participant cfg D x p game core Host None) Q E w"
      if a: "after ?ttl P m0 m2" and w: "track ?ttl m2 x {} (view w)" for w m2
      using w by (rule wp_start_participant)
        (use xz z in \<open>auto simp: active_list_def intro!: ok [OF effect_after [OF a]] bad effect_after [OF a]
          dest: track_base\<close>)
    then show ?thesis
      by (intro wp_add [where P = P, OF _ start]) (use v xz z bad q in \<open>auto simp: quota_law_def\<close>)
  qed
  have quota: "wp (require_session_capacity cfg D) (\<lambda>_. wp (require_user_runtime_capacity cfg D ?u) K E) E v"
    if "base ?ttl m0 (view v)" and "\<And>w. ?I (view w) \<Longrightarrow> K () w" for K v
    by (rule wp_quota_law(2) [OF q base_down that(1) fail]) (use that(2) in blast)+
  show ?thesis
    unfolding create_def wp_simps make_participant_def case_construct
    by (rule wp_sweep [OF b _ fail])
      (auto intro!: fail quota wp_quotas(3) [OF down] wp_resolve [OF down] new
        wp_down_liftE [OF keeps_clock down] wp_down [OF keeps_uuid4 down] split: sum.split)
qed

lemma wp_discover:
  assumes b: "base ttl m0 (view s)"
    and ok: "\<And>xs t. base ttl m0 (view t) \<Longrightarrow>
       \<forall>x \<in> set xs. s_state x = OPEN \<and> lobby_inv ttl x \<Longrightarrow> Q xs t"
    and bad: "\<And>e t. base ttl m0 (view t) \<Longrightarrow> E e t"
  shows "wp (discover cfg D) Q E s"
  unfolding discover_def wp_simps
  by (rule wp_sweep [OF b _ bad], rule wp_list) (auto intro!: ok bad)

lemma wp_get_session:
  assumes b: "base ttl m0 (view s)"
    and ok: "\<And>y t. track ttl m0 y {} (view t) \<Longrightarrow> s_session_id y = sid \<Longrightarrow> Q y t"
    and bad: "\<And>e t. base ttl m0 (view t) \<Longrightarrow> E e t"
  shows "wp (get_session D sid) Q E s"
  unfolding get_session_def wp_bindE by (rule wp_required_expire [OF b ok bad])

section \<open>Sequences of requests\<close>

lemma wp_perform:
  assumes inv: "store_inv (session_ttl cfg) (view s)" and fresh: "uuid4_fresh D view"
    and q: "quota_law P cfg D view"
  shows "wp (perform cfg D c) (\<lambda>_ t. effect (session_ttl cfg) P (view s) (view t))
    (\<lambda>_ t. effect (session_ttl cfg) P (view s) (view t)) s"
proof -
  have b: "base (session_ttl cfg) (view s) (view s)" by (rule base_refl [OF inv])
  show ?thesis
    by (cases c)
      (auto simp: wp_simps intro!: wp_create [OF b q] wp_discover [OF b] wp_get_session [OF b]
        wp_join [OF b fresh q] wp_launch [OF b] wp_heartbeat [OF b] wp_leave [OF b] wp_kick [OF b]
        wp_close [OF b] wp_sweep [OF b] wp_reconcile_startup [OF b] dest: track_base effect_base)
qed

lemma perform_effect:
  assumes "store_inv (session_ttl cfg) (view s)" and "uuid4_fresh D view" and "quota_law P cfg D view"
  shows "effect (session_ttl cfg) P (view s) (view (snd (perform cfg D c s)))"
  using wp_perform [OF assms, of c] by (cases "perform cfg D c s") (auto simp: wp_def split: sum.splits)

lemma quota_trivial: "quota_law (\<lambda>_ _ _. True) cfg D view"
  unfolding quota_law_def wp_bindE
  by (auto simp: down_closed_def intro!: wp_quotas [where I = "\<lambda>m. m \<subseteq>\<^sub>m view s" for s]
      dest: map_le_trans)

lemma serve_store_inv:
  assumes "store_inv (session_ttl cfg) (view s)" and fresh: "uuid4_fresh D view"
  shows "store_inv (session_ttl cfg) (view (serve cfg D cs s))"
  using assms(1)
  by (induction cs arbitrary: s) (auto intro: effect_inv [OF perform_effect [OF _ fresh quota_trivial]])

end

end
