(* ===== verification/ServiceQuotas.thy ===== *)
theory ServiceQuotas
  imports OperationRefinement
begin

text \<open>
  The quotas of \<open>_require_session_capacity\<close> and \<open>_require_user_runtime_capacity\<close> as
  properties of the stored sessions. With a repository that never fails, each admission
  is made in a store in which the checks hold, and nothing else takes a seat, so the
  quotas hold after every sequence of requests.
\<close>

section \<open>Seats in a store\<close>

definition active_ids :: "store \<Rightarrow> uuid set" where
  "active_ids m = {k. \<exists>x. m k = Some x \<and> is_active_session x}"

definition user_seats :: "string \<Rightarrow> session \<Rightarrow> nat" where
  "user_seats u x =
     (if is_active_session x
      then length (filter (\<lambda>p. p_user_id p = u \<and> is_live p) (s_participants x)) else 0)"

definition seats :: "string \<Rightarrow> store \<Rightarrow> nat" where
  "seats u m = (\<Sum>k \<in> dom m. case m k of None \<Rightarrow> 0 | Some x \<Rightarrow> user_seats u x)"

text \<open>What the checks establish before an admission, and what holds at all times.\<close>

definition room_for :: "service_config \<Rightarrow> bool \<Rightarrow> string \<Rightarrow> store \<Rightarrow> bool" where
  "room_for cfg g u m \<longleftrightarrow> finite (dom m) \<and>
     (g \<longrightarrow> int (card (active_ids m)) < session_capacity cfg) \<and>
     int (seats u m) < per_user_runtime_capacity cfg"

definition within_quota :: "service_config \<Rightarrow> store \<Rightarrow> bool" where
  "within_quota cfg m \<longleftrightarrow> finite (dom m) \<and> int (card (active_ids m)) \<le> session_capacity cfg \<and>
     (\<forall>u. int (seats u m) \<le> per_user_runtime_capacity cfg)"

section \<open>How writes change them\<close>

lemma seats_upd_new:
  assumes "finite (dom m)" and "m k = None"
  shows "seats u (m(k \<mapsto> x)) = seats u m + user_seats u x"
proof -
  have "(\<Sum>j \<in> dom m. case (m(k \<mapsto> x)) j of None \<Rightarrow> 0 | Some z \<Rightarrow> user_seats u z) = seats u m"
    unfolding seats_def by (rule sum.cong) (use assms(2) in auto)
  then show ?thesis using assms by (simp add: seats_def domIff)
qed

lemma seats_upd_old:
  assumes "finite (dom m)" and "m k = Some x"
  shows "seats u (m(k \<mapsto> y)) + user_seats u x = seats u m + user_seats u y"
proof -
  have k: "k \<in> dom m" using assms(2) by blast
  have "(\<Sum>j \<in> dom m - {k}. case (m(k \<mapsto> y)) j of None \<Rightarrow> 0 | Some z \<Rightarrow> user_seats u z) =
      (\<Sum>j \<in> dom m - {k}. case m j of None \<Rightarrow> 0 | Some z \<Rightarrow> user_seats u z)"
    by (rule sum.cong) auto
  moreover have "dom (m(k \<mapsto> y)) = dom m" using k by auto
  ultimately show ?thesis
    using sum.remove [OF assms(1) k, of "\<lambda>j. case (m(k \<mapsto> y)) j of None \<Rightarrow> 0 | Some z \<Rightarrow> user_seats u z"]
      sum.remove [OF assms(1) k, of "\<lambda>j. case m j of None \<Rightarrow> 0 | Some z \<Rightarrow> user_seats u z"] assms(2)
    by (simp add: seats_def)
qed

lemma map_le_finite: "m' \<subseteq>\<^sub>m m \<Longrightarrow> finite (dom m) \<Longrightarrow> finite (dom m')"
  by (meson map_le_implies_dom_le rev_finite_subset)

lemma seats_mono:
  assumes "m' \<subseteq>\<^sub>m m" and "finite (dom m)"
  shows "seats u m' \<le> seats u m"
proof -
  have "seats u m' = (\<Sum>k \<in> dom m'. case m k of None \<Rightarrow> 0 | Some x \<Rightarrow> user_seats u x)"
    unfolding seats_def using assms(1) by (intro sum.cong) (auto simp: map_le_apply)
  also have "\<dots> \<le> seats u m"
    unfolding seats_def by (rule sum_mono2 [OF assms(2) map_le_implies_dom_le [OF assms(1)]]) simp
  finally show ?thesis .
qed

lemma active_ids_mono:
  assumes "m' \<subseteq>\<^sub>m m" and "finite (dom m)"
  shows "card (active_ids m') \<le> card (active_ids m)"
proof (rule card_mono)
  show "finite (active_ids m)" by (rule finite_subset [OF _ assms(2)]) (auto simp: active_ids_def)
  show "active_ids m' \<subseteq> active_ids m" using assms(1) by (auto simp: active_ids_def dest: map_le_apply)
qed

lemma lobby_step_seats:
  assumes step: "lobby_step ttl x y" and inv: "lobby_inv ttl x"
    and len: "length (s_participants y) = length (s_participants x)"
  shows "is_active_session y \<Longrightarrow> is_active_session x" "user_seats u y \<le> user_seats u x"
proof -
  have "(is_active_session y \<longrightarrow> is_active_session x) \<and> user_seats u y \<le> user_seats u x"
    using step
  proof cases
    case (move p p' e now)
    note frame = participant_step_frame [OF move(3)]
    have act: "is_active_session y \<longrightarrow> is_active_session x"
      using move(1) by (cases "s_state x") (auto simp: is_active_session_def)
    obtain as bs where ps: "s_participants x = as @ p # bs"
      and sub: "substitute p' (s_participants x) = as @ p' # bs"
      by (rule substitute_split [OF move(2) roster_inv_ids frame(1)]) (use inv in \<open>simp_all add: lobby_inv_def\<close>)
    have "length (filter (\<lambda>q. p_user_id q = u \<and> is_live q) (as @ p' # bs)) \<le>
        length (filter (\<lambda>q. p_user_id q = u \<and> is_live q) (as @ p # bs))"
      using frame(3,7) by auto
    then have "length (filter (\<lambda>q. p_user_id q = u \<and> is_live q) (s_participants y)) \<le>
        length (filter (\<lambda>q. p_user_id q = u \<and> is_live q) (s_participants x))"
      by (simp only: move(1) updated_session_simps sub ps [symmetric])
    with act show ?thesis by (auto simp: user_seats_def)
  next
    case (enter p now)
    with len show ?thesis by simp
  next
    case (shut reason now)
    then show ?thesis by (simp add: is_active_session_def user_seats_def)
  qed
  then show "is_active_session y \<Longrightarrow> is_active_session x" "user_seats u y \<le> user_seats u x" by auto
qed

lemma active_ids_upd:
  assumes "m k = Some x" and "is_active_session y \<Longrightarrow> is_active_session x"
  shows "active_ids (m(k \<mapsto> y)) \<subseteq> active_ids m"
  using assms by (auto simp: active_ids_def split: if_splits)

lemma store_step_quota:
  assumes "store_step ttl m m'" and "store_inv ttl m" and "within_quota cfg m"
  shows "within_quota cfg m'"
proof -
  have less: "within_quota cfg m'" if "m' \<subseteq>\<^sub>m n" "within_quota cfg n" for n
    using that map_le_finite [OF that(1)] active_ids_mono [OF that(1)] seats_mono [OF that(1)]
    unfolding within_quota_def by (meson of_nat_mono order_trans)
  from assms(1) show ?thesis
  proof cases
    case gone
    then show ?thesis using less assms(3) by blast
  next
    case (stored k x y)
    have inv: "lobby_inv ttl x" using assms(2) stored(1) by (simp add: store_inv_def)
    note le = lobby_step_seats [OF stored(2) inv stored(3)]
    have fin: "finite (dom m)" using assms(3) by (simp add: within_quota_def)
    have "finite (active_ids m)" by (rule finite_subset [OF _ fin]) (auto simp: active_ids_def)
    then have "card (active_ids (m(k \<mapsto> y))) \<le> card (active_ids m)"
      by (rule card_mono) (rule active_ids_upd [of m k x y, OF stored(1) le(1)])
    moreover have "seats u (m(k \<mapsto> y)) \<le> seats u m" for u
      using seats_upd_old [OF fin stored(1), of u y] le(2) [of u] by simp
    ultimately have "within_quota cfg (m(k \<mapsto> y))"
      using assms(3) fin unfolding within_quota_def
      by (simp del: fun_upd_apply) (meson of_nat_le_iff order_trans)
    with stored(4) show ?thesis by (rule less)
  qed
qed

lemma base_quota:
  assumes "base ttl m0 m" and "within_quota cfg m0"
  shows "within_quota cfg m"
proof -
  have "store_steps ttl m0 m" "store_inv ttl m0" using assms(1) by (auto simp: base_def)
  then show ?thesis
    using assms(2)
    by (induction rule: rtranclp_induct) (auto intro: store_step_quota store_steps_inv)
qed

lemma user_seats_start:
  assumes "lobby_start ttl x"
  shows "user_seats u x = (if u = s_owner_user_id x then 1 else 0)"
  using assms by (auto simp: lobby_start_def user_seats_def is_active_session_def is_live_def)

lemma admits_quota:
  assumes "admits ttl g u m m'" and "within_quota cfg m" and room: "room_for cfg g u m"
  shows "within_quota cfg m'"
  using assms(1)
proof cases
  case (added x)
  have fin: "finite (dom m)" using room by (simp add: room_for_def)
  have sub: "active_ids m' \<subseteq> insert (s_session_id x) (active_ids m)"
    using added(2) by (auto simp: active_ids_def split: if_splits)
  have "finite (active_ids m)" by (rule finite_subset [OF _ fin]) (auto simp: active_ids_def)
  then have "card (active_ids m') \<le> card (insert (s_session_id x) (active_ids m))"
    "card (insert (s_session_id x) (active_ids m)) \<le> Suc (card (active_ids m))"
    using card_mono [OF _ sub] by (simp_all add: card_insert_if)
  then have "card (active_ids m') \<le> Suc (card (active_ids m))" by simp
  moreover have "seats v m' = seats v m + (if v = u then 1 else 0)" for v
    using added seats_upd_new [OF fin added(3), of v x] user_seats_start [OF added(4), of v] by simp
  moreover have "finite (dom m')" using fin by (simp add: added(2))
  ultimately show ?thesis
    using assms(2) room added(1) unfolding within_quota_def room_for_def by (simp add: add_mono)
next
  case (entered k x y p)
  have fin: "finite (dom m)" using room by (simp add: room_for_def)
  have open_: "s_state x = OPEN" "s_state y = OPEN" "is_live p"
    using entered(4)
    by (cases; use entered(5) in \<open>auto simp: substitute_def is_live_def dest: arg_cong [of _ _ length]\<close>)+
  then have y: "is_active_session y" "is_active_session x"
    "user_seats v y = user_seats v x + (if v = u then 1 else 0)" for v
    using entered(5,6) by (auto simp: is_active_session_def user_seats_def)
  have "finite (active_ids m)" by (rule finite_subset [OF _ fin]) (auto simp: active_ids_def)
  then have "card (active_ids m') \<le> card (active_ids m)"
    unfolding entered(2) by (rule card_mono) (rule active_ids_upd [of m k x y, OF entered(3) y(2)])
  moreover have "seats v m' = seats v m + (if v = u then 1 else 0)" for v
    using seats_upd_old [OF fin entered(3), of v y] y(3) [of v] by (simp add: entered(2))
  moreover have "finite (dom m')" using fin by (simp add: entered(2))
  ultimately show ?thesis
    using assms(2) room unfolding within_quota_def room_for_def by (simp add: add_mono)
qed

lemma effect_quota:
  assumes "effect ttl (room_for cfg) m0 m" and "within_quota cfg m0"
  shows "within_quota cfg m"
  using assms unfolding effect_def after_def by (blast intro: base_quota admits_quota)

section \<open>The checks read the store\<close>

lemma listed_seats:
  assumes ks: "distinct ks" "set ks = dom m" and xs: "map m ks = map Some xs"
  shows "length (filter is_active_session xs) = card (active_ids m)"
    "user_live_count u (filter is_active_session xs) = int (seats u m)" "finite (dom m)"
proof -
  have x: "xs = map (\<lambda>k. the (m k)) ks"
    using arg_cong [OF xs, of "map the"] by (simp add: comp_def)
  have "active_ids m = set (filter (\<lambda>k. is_active_session (the (m k))) ks)"
    using ks(2) by (auto simp: active_ids_def)
  then show "length (filter is_active_session xs) = card (active_ids m)"
    using distinct_card [of "filter (\<lambda>k. is_active_session (the (m k))) ks"] ks(1)
    by (simp add: x filter_map comp_def)
  have count: "length (filter (\<lambda>p. p_user_id p = u \<and> is_live p)
      (concat (map s_participants (filter is_active_session ys)))) = sum_list (map (user_seats u) ys)" for ys
    by (induction ys) (auto simp: user_seats_def)
  have "seats u m = (\<Sum>k \<in> set ks. user_seats u (the (m k)))"
    unfolding seats_def ks(2) by (rule sum.cong) auto
  also have "\<dots> = sum_list (map (user_seats u) xs)"
    using ks(1) by (simp add: x sum_list_distinct_conv_sum_set comp_def)
  finally show "user_live_count u (filter is_active_session xs) = int (seats u m)"
    by (simp add: user_live_count_def count)
  show "finite (dom m)" using ks(2) by (metis finite_set)
qed

lemma room_for_down: "down_closed (room_for cfg g u)"
  unfolding down_closed_def
proof (intro allI impI)
  fix m m' assume m: "room_for cfg g u m" and le: "m' \<subseteq>\<^sub>m m"
  then have fin: "finite (dom m)" by (simp add: room_for_def)
  show "room_for cfg g u m'"
    using m map_le_finite [OF le fin] active_ids_mono [OF le fin] seats_mono [OF le fin, of u]
    by (auto simp: room_for_def)
qed

context reliable_env
begin

lemma wp_active_sessions:
  assumes "\<And>xs t. view t = view s \<Longrightarrow> int (length xs) = int (card (active_ids (view s))) \<Longrightarrow>
      (\<And>u. user_live_count u xs = int (seats u (view s))) \<Longrightarrow> finite (dom (view s)) \<Longrightarrow> Q xs t"
  shows "wp (active_sessions D) Q E s"
  unfolding active_sessions_def wp_simps
proof (rule wp_mono [OF list_exact])
  fix xs t
  assume "view t = view s \<and> (\<exists>ks. distinct ks \<and> set ks = dom (view s) \<and>
    map (view s) ks = map Some xs) \<and> sorted (map s_created_at xs)"
  then show "Q (filter is_active_session xs) t"
    using listed_seats by (intro assms) auto
qed simp

lemma quota_exact: "quota_law (room_for cfg) cfg D view"
  unfolding quota_law_def require_session_capacity_def require_user_runtime_capacity_def wp_simps
  by (auto intro!: wp_active_sessions simp: room_for_down room_for_def)

lemma serve_within_quota:
  assumes "store_inv (session_ttl cfg) (view s)" and "uuid4_fresh D view" and "within_quota cfg (view s)"
  shows "within_quota cfg (view (serve cfg D cs s))"
  using assms(1,3)
proof (induction cs arbitrary: s)
  case (Cons c cs)
  note eff = perform_effect [OF Cons.prems(1) assms(2) quota_exact, of c]
  show ?case
    using Cons.IH [OF effect_inv [OF eff] effect_quota [OF eff Cons.prems(2)]] by simp
qed simp

end

end
