(* ===== verification/ServiceTermination.thy ===== *)
theory ServiceTermination
  imports OperationRefinement
begin

text \<open>
  Every request ends: no run of the service uses up the iteration bound of the readiness
  loop, when each call to a collaborator ends and sleeping makes the monotonic clock
  advance by at least the requested time.
\<close>

named_theorems ends_intros \<open>programs that end\<close>

definition ends :: "(exn, 's, 'a) prog \<Rightarrow> bool" where
  "ends f \<longleftrightarrow> (\<forall>s. wp f (\<lambda>_ _. True) (\<lambda>e _. e \<noteq> Diverged) s)"

lemma ends_iff: "ends f \<longleftrightarrow> (\<forall>s t. f s \<noteq> (Inl Diverged, t))"
  unfolding ends_def wp_def by (auto split: prod.splits sum.splits)

text \<open>\<open>now\<close> reads the monotonic clock off a state.\<close>

definition steady :: "'s services \<Rightarrow> ('s \<Rightarrow> int) \<Rightarrow> bool" where
  "steady D now \<longleftrightarrow>
     (\<forall>s. fst (monotonic D s) = now s \<and> now s \<le> now (snd (monotonic D s))) \<and>
     (\<forall>d s. now s + d \<le> now (snd (sleep D d s))) \<and>
     (\<forall>u s. now s \<le> now (snd (execution_inspect D u s)))"

definition calls_end :: "'s services \<Rightarrow> bool" where
  "calls_end D \<longleftrightarrow>
     (\<forall>x. ends (repo_add D x)) \<and> (\<forall>k. ends (repo_get D k)) \<and> ends (repo_list D) \<and>
     (\<forall>x n. ends (repo_save D x n)) \<and> (\<forall>i. ends (romm_resolve_game D i)) \<and>
     (\<forall>p. ends (cores_resolve D p)) \<and> (\<forall>r. ends (execution_create D r)) \<and>
     (\<forall>u. ends (execution_inspect D u)) \<and> ends (execution_list D) \<and>
     (\<forall>u. ends (execution_remove D u)) \<and> (\<forall>u g. ends (stream_provision D u g)) \<and>
     (\<forall>u. ends (stream_revoke D u)) \<and> ends (uuid4 D)"

section \<open>Combinators\<close>

lemma ends_returnE [ends_intros]: "ends (returnE a)"
  by (simp add: ends_def wp_simps)

lemma ends_raiseE [ends_intros]: "e \<noteq> Diverged \<Longrightarrow> ends (raiseE e)"
  by (simp add: ends_def wp_simps)

lemma ends_bindE [ends_intros]: "ends f \<Longrightarrow> (\<And>a. ends (g a)) \<Longrightarrow> ends (bindE f g)"
  unfolding ends_def wp_simps by (blast intro: wp_mono)

lemma ends_catchE [ends_intros]:
  "ends f \<Longrightarrow> (\<And>e. e \<noteq> Diverged \<Longrightarrow> ends (h e)) \<Longrightarrow> ends (catchE f h)"
  unfolding ends_def wp_simps by (blast intro: wp_mono)

lemma ends_liftE [ends_intros]: "ends (liftE f)"
  by (simp add: ends_def wp_liftE split: prod.splits)

lemma ends_resultE [ends_intros]: "r \<noteq> Inl Diverged \<Longrightarrow> ends (resultE r)"
  by (auto simp: ends_def wp_simps split: sum.splits)

lemma ends_if [ends_intros]: "(b \<Longrightarrow> ends f) \<Longrightarrow> (\<not> b \<Longrightarrow> ends g) \<Longrightarrow> ends (if b then f else g)"
  by simp

lemma ends_case_option [ends_intros]:
  "(r = None \<Longrightarrow> ends f) \<Longrightarrow> (\<And>y. r = Some y \<Longrightarrow> ends (g y)) \<Longrightarrow>
   ends (case r of None \<Rightarrow> f | Some y \<Rightarrow> g y)"
  by (cases r) simp_all

lemma ends_case_sum [ends_intros]:
  "(\<And>e. r = Inl e \<Longrightarrow> ends (f e)) \<Longrightarrow> (\<And>y. r = Inr y \<Longrightarrow> ends (g y)) \<Longrightarrow>
   ends (case r of Inl e \<Rightarrow> f e | Inr y \<Rightarrow> g y)"
  by (cases r) simp_all

lemma ends_case_prod [ends_intros]:
  "(\<And>a b. r = (a, b) \<Longrightarrow> ends (f a b)) \<Longrightarrow> ends (case r of (a, b) \<Rightarrow> f a b)"
  by (cases r) simp

lemma ends_foldE [ends_intros]: "(\<And>x b. ends (f x b)) \<Longrightarrow> ends (foldE f xs b)"
  by (induction xs arbitrary: b) (auto intro: ends_intros)

lemma ends_forE [ends_intros]: "(\<And>x. ends (f x)) \<Longrightarrow> ends (forE f xs)"
  by (induction xs) (auto intro: ends_intros)

lemma ends_mapE [ends_intros]: "(\<And>x. ends (f x)) \<Longrightarrow> ends (mapE f xs)"
  by (induction xs) (auto intro!: ends_intros)

lemma ends_catch_exception [ends_intros]:
  "ends f \<Longrightarrow> (\<And>e. e \<noteq> Diverged \<Longrightarrow> ends (h e)) \<Longrightarrow> ends (catch_exception f h)"
  unfolding catch_exception_def by (auto intro!: ends_intros)

lemma ends_try_exception [ends_intros]: "ends f \<Longrightarrow> ends (try_exception f)"
  unfolding try_exception_def by (auto intro!: ends_intros)

text \<open>A try whose handler re-raises: the caught exception is one.\<close>

lemma ends_try_bind [ends_intros]:
  assumes "ends f" and "\<And>e. e \<noteq> Diverged \<Longrightarrow> ends (h e)" and "\<And>a. ends (g a)"
  shows "ends (bindE (try_exception f) (\<lambda>r. case r of Inl e \<Rightarrow> h e | Inr a \<Rightarrow> g a))"
  using assms unfolding ends_def wp_simps by (auto elim!: wp_mono)

section \<open>The readiness loop\<close>

lemma wait_loop_ends:
  assumes st: "steady D now" and c: "calls_end D" and poll: "0 < poll_interval cfg"
    and n: "deadline - now s \<le> (int n - 1) * poll_interval cfg" and pos: "0 < n"
  shows "wait_loop n cfg D rid deadline h s \<noteq> (Inl Diverged, t)"
  using n pos
proof (induction n arbitrary: h s)
  case (Suc n)
  obtain a1 s1 where m: "monotonic D s = (a1, s1)" by (cases "monotonic D s")
  then have m1: "a1 = now s" "now s \<le> now s1" using st unfolding steady_def by (metis fst_conv snd_conv)+
  define d where "d = min (poll_interval cfg) (deadline - a1)"
  obtain s2 where sl: "sleep D d s1 = ((), s2)" by (cases "sleep D d s1") simp
  have m2: "now s1 + d \<le> now s2" using st sl unfolding steady_def by (metis snd_conv)
  obtain r s3 where ins: "execution_inspect D rid s2 = (r, s3)" by (cases "execution_inspect D rid s2")
  have m3: "now s2 \<le> now s3" using st ins unfolding steady_def by (metis snd_conv)
  have r: "r \<noteq> Inl Diverged" using c ins unfolding calls_end_def ends_iff by blast
  have next_: "wait_loop n cfg D rid deadline h' s3 \<noteq> (Inl Diverged, t)" if "0 < deadline - a1" for h'
  proof -
    have late: "deadline - now s3 \<le> max 0 (deadline - a1 - poll_interval cfg)"
      using m1 m2 m3 by (auto simp: d_def min_def max_def)
    have le: "deadline - a1 \<le> int n * poll_interval cfg" using Suc.prems(1) m1(1) by simp
    then have "0 < n" using that by (cases n) simp_all
    moreover from this have "0 \<le> (int n - 1) * poll_interval cfg" using poll by simp
    moreover have "deadline - a1 - poll_interval cfg \<le> (int n - 1) * poll_interval cfg"
      using le by (simp add: algebra_simps)
    ultimately have "0 < n" "deadline - now s3 \<le> (int n - 1) * poll_interval cfg"
      using late by auto
    then show ?thesis using Suc.IH by blast
  qed
  show ?case
    using next_ r by (auto simp: returnE_def raiseE_def bindE_def liftE_def Let_def m sl ins
        d_def [symmetric] split: sum.splits)
qed simp

lemma wait_ready_ends:
  assumes st: "steady D now" and c: "calls_end D" and poll: "0 < poll_interval cfg"
    and t: "0 < timeout"
  shows "ends (wait_ready cfg D h timeout)"
proof -
  have "wait_ready cfg D h timeout s \<noteq> (Inl Diverged, u)" for s u
  proof -
    obtain a1 s1 where m: "monotonic D s = (a1, s1)" by (cases "monotonic D s")
    then have m1: "a1 \<le> now s1" using st unfolding steady_def by (metis fst_conv snd_conv)
    have "timeout \<le> (timeout div poll_interval cfg + 1) * poll_interval cfg"
      using div_mult_mod_eq [of timeout "poll_interval cfg"] pos_mod_bound [OF poll, of timeout]
      unfolding distrib_right mult_1 by linarith
    moreover have "0 \<le> timeout div poll_interval cfg" using t poll by (simp add: pos_imp_zdiv_nonneg_iff)
    ultimately have "a1 + timeout - now s1 \<le> (int (wait_bound cfg timeout) - 1) * poll_interval cfg"
      using m1 by (simp add: wait_bound_def add.commute)
    from wait_loop_ends [OF st c poll this, of "h_runtime_id h" h u] show ?thesis
      by (simp add: wait_ready_def bindE_def liftE_def m wait_bound_def)
  qed
  then show ?thesis by (simp add: ends_iff)
qed

section \<open>The operations\<close>

text \<open>
  Settings accepted by the constructor and collaborators whose calls end.
\<close>

definition sound_setup :: "service_config \<Rightarrow> 's services \<Rightarrow> ('s \<Rightarrow> int) \<Rightarrow> bool" where
  "sound_setup cfg D now \<longleftrightarrow> make_service cfg = Inr cfg \<and> calls_end D \<and> steady D now"

lemma make_service_positive:
  assumes "make_service cfg = Inr c"
  shows "c = cfg" "0 < poll_interval cfg" "0 < startup_timeout cfg" "0 < netplay_connect_timeout cfg"
    "0 < session_ttl cfg" "0 < lobby_lease cfg" "1 \<le> session_capacity cfg"
    "session_capacity cfg \<le> runtime_capacity cfg" "1 \<le> per_user_runtime_capacity cfg"
  using assms by (auto simp: make_service_def split: if_splits)

lemma checks_end [ends_intros]:
  "ends (resultE (require_session_transition a b))"
  "ends (resultE (require_participant_transition c d))"
  "ends (resultE (left_participant p now))"
  "ends (resultE (make_participant q))" "ends (resultE (make_session x))"
  "ends (resultE (make_runtime_request r))" "ends (resultE (make_stream_launch l))"
  by (auto intro!: ends_resultE simp: require_session_transition_def require_participant_transition_def
      left_participant_eq leaving_conflict_def make_participant_def make_session_def construct_def
      consistent_participants_def make_runtime_request_def make_stream_launch_def Let_def)

lemma calls_endD [ends_intros]:
  assumes "calls_end D"
  shows "ends (repo_add D x)" "ends (repo_get D k)" "ends (repo_list D)" "ends (repo_save D x n)"
    "ends (romm_resolve_game D i)" "ends (cores_resolve D p)" "ends (execution_create D r)"
    "ends (execution_inspect D u)" "ends (execution_list D)" "ends (execution_remove D u)"
    "ends (stream_provision D u g)" "ends (stream_revoke D u)" "ends (uuid4 D)"
  using assms by (simp_all add: calls_end_def)

lemma teardown_ends [ends_intros]:
  assumes "calls_end D"
  shows "ends (best_effort_revoke D u)" "ends (cleanup_failed_runtime D u)" "ends (retire_runtime D u)"
  unfolding best_effort_revoke_def cleanup_failed_runtime_def retire_runtime_def
  by (intro ends_intros assms; simp)+

lemma writes_end [ends_intros]:
  assumes "calls_end D"
  shows "ends (replace_participant D x p st app e)" "ends (close_session D x r)"
  unfolding replace_participant_def close_session_def Let_def
  by (intro ends_intros assms; simp)+

lemma reads_end [ends_intros]:
  assumes "calls_end D"
  shows "ends (required D k)" "ends (expire D x)" "ends (retire_participant D x p failed)"
    "ends (resolve D rom)" "ends (require_runtime_capacity cfg D)" "ends (active_sessions D)"
    "ends (require_session_capacity cfg D)" "ends (require_user_runtime_capacity cfg D u)"
  unfolding required_def expire_def retire_participant_def resolve_def require_runtime_capacity_def
    active_sessions_def require_session_capacity_def require_user_runtime_capacity_def
  by (intro ends_intros assms; simp)+

lemma sweep_ends [ends_intros]:
  assumes "calls_end D"
  shows "ends (sweep_participant D stale p acc)" "ends (sweep_session cfg D x c)"
    "ends (sweep cfg D)" "ends (expire_due cfg D)" "ends (reconcile_startup D)"
proof -
  show p: "ends (sweep_participant D stale p acc)" for p acc stale
    unfolding sweep_participant_def by (intro ends_intros assms; simp)
  show x: "ends (sweep_session cfg D x c)" for x c
    unfolding sweep_session_def Let_def by (intro ends_intros assms p; simp)
  show "ends (sweep cfg D)" "ends (expire_due cfg D)" "ends (reconcile_startup D)"
    unfolding sweep_def expire_due_def reconcile_startup_def by (intro ends_intros assms x; simp)+
qed

lemma start_participant_ends [ends_intros]:
  assumes "sound_setup cfg D now"
  shows "ends (start_participant cfg D x p game core role host)"
proof -
  have c: "calls_end D" and st: "steady D now" and mk: "make_service cfg = Inr cfg"
    using assms by (auto simp: sound_setup_def)
  note wait = wait_ready_ends [OF st c make_service_positive(2) [OF mk]]
  have w: "ends (wait_ready cfg D h (if role = Host then startup_timeout cfg else netplay_connect_timeout cfg))" for h
    using make_service_positive(3,4) [OF mk] by (auto intro!: wait)
  have f: "ends (start_failed D role pid y e)" if "e \<noteq> Diverged" for pid y e
    unfolding start_failed_def mark_failed_def by (intro ends_intros c; simp add: that)
  have a: "ends (activate_participant cfg D y q)" for y q
    unfolding activate_participant_def Let_def by (intro ends_intros c)
  have b: "ends (await_participant cfg D role h q y)" for h q y
    unfolding await_participant_def by (intro ends_intros c w f a)
  have r: "ends (run_participant cfg D role q y request)" for q y request
    unfolding run_participant_def Let_def by (intro ends_intros c f b)
  show ?thesis
    unfolding start_participant_def Let_def by (intro ends_intros c r)
qed

lemma operations_end:
  assumes "sound_setup cfg D now"
  shows "ends (create cfg D actor request)" "ends (discover cfg D)" "ends (get_session D k)"
    "ends (join cfg D k actor)" "ends (launch D k actor)" "ends (heartbeat cfg D k actor)"
    "ends (leave D k actor)" "ends (kick D k actor pid)" "ends (close D k actor)"
proof -
  have c: "calls_end D" using assms by (simp add: sound_setup_def)
  note start = start_participant_ends [OF assms]
  show "ends (create cfg D actor request)"
    unfolding create_def by (intro ends_intros c start; simp)
  have "ends (join_admit cfg D x actor game core)" for x game core
    unfolding join_admit_def by (intro ends_intros c start; simp)
  then show "ends (join cfg D k actor)"
    unfolding join_def by (intro ends_intros c; simp)
  show "ends (discover cfg D)" "ends (get_session D k)"
    "ends (launch D k actor)" "ends (heartbeat cfg D k actor)"
    "ends (leave D k actor)" "ends (kick D k actor pid)" "ends (close D k actor)"
    unfolding discover_def get_session_def launch_def heartbeat_def leave_def kick_def close_def
    by (intro ends_intros c; simp)+
qed

lemma perform_ends:
  assumes "sound_setup cfg D now"
  shows "ends (perform cfg D c)"
proof -
  have "calls_end D" using assms by (simp add: sound_setup_def)
  then show ?thesis
    by (cases c) (auto intro!: ends_bindE ends_returnE operations_end [OF assms] sweep_ends)
qed

end
