(* ===== verification/ServiceQuiescence.thy ===== *)
theory ServiceQuiescence
  imports ServiceTermination
begin

text \<open>
  Between requests no participant is half started: with a repository that never fails and
  records that come from the validated models, a request that begins with settled records
  ends with settled records, whether it returns or raises. Settled records satisfy the
  model validator \<open>consistent_participants\<close>, so they can be decoded again.
\<close>

text \<open>What the catalogues promise: \<open>GameRecord\<close> and \<open>CoreProfile\<close> are validated models.\<close>

definition valid_catalogue :: "'s services \<Rightarrow> bool" where
  "valid_catalogue D \<longleftrightarrow>
     (\<forall>i s g t. romm_resolve_game D i s = (Inr g, t) \<longrightarrow> game_record_ok g) \<and>
     (\<forall>p s c t. cores_resolve D p s = (Inr c, t) \<longrightarrow> core_profile_ok c)"

definition quiet :: "store \<Rightarrow> bool" where
  "quiet m \<longleftrightarrow> (\<forall>k x. m k = Some x \<longrightarrow> s_session_id x = k \<and> settled x)"

text \<open>
  Collaborators that answer: removals succeed, an inspection fails only as documented and a
  revocation ends.
\<close>

definition responsive :: "'s services \<Rightarrow> bool" where
  "responsive D \<longleftrightarrow> (\<forall>u s. wp (execution_remove D u) (\<lambda>_ _. True) (\<lambda>_ _. False) s) \<and>
     (\<forall>u s. wp (execution_inspect D u) (\<lambda>_ _. True) (\<lambda>e _. is_orchestration_error e) s) \<and>
     (\<forall>u s. wp (stream_revoke D u) (\<lambda>_ _. True) (\<lambda>e _. e \<noteq> Diverged) s)"

text \<open>\<open>x\<close> is stored, and only the participant \<open>pid\<close> of it may be half started.\<close>

definition around :: "session \<Rightarrow> uuid \<Rightarrow> store \<Rightarrow> bool" where
  "around x pid m \<longleftrightarrow> m (s_session_id x) = Some x \<and>
     (\<forall>k z. m k = Some z \<longrightarrow> k \<noteq> s_session_id x \<longrightarrow> s_session_id z = k \<and> settled z) \<and>
     pid \<in> set (map p_participant_id (s_participants x)) \<and>
     (\<forall>p \<in> set (s_participants x). half_started p \<longrightarrow> p_participant_id p = pid)"

definition holds :: "session \<Rightarrow> store \<Rightarrow> bool" where
  "holds x m \<longleftrightarrow> m (s_session_id x) = Some x \<and> quiet m"

lemma around_update:
  assumes "around x pid m" and "p_participant_id p' = pid"
    and "m' = m(s_session_id x \<mapsto> updated_session x (substitute p' (s_participants x)) st now e)"
  shows "around (updated_session x (substitute p' (s_participants x)) st now e) pid m'"
    "\<not> half_started p' \<Longrightarrow> quiet m'"
proof -
  have ps: "q = p' \<or> q \<in> set (s_participants x) \<and> p_participant_id q \<noteq> pid"
    if "q \<in> set (substitute p' (s_participants x))" for q
    using that assms(2) by (auto simp: substitute_def split: if_splits)
  show "around (updated_session x (substitute p' (s_participants x)) st now e) pid m'"
    using assms ps unfolding around_def by (auto simp del: set_map)
  show "quiet m'" if "\<not> half_started p'"
    using assms ps that unfolding around_def quiet_def settled_def by (auto split: if_splits)
qed

lemma holds_around:
  assumes "holds x m" and "p \<in> set (s_participants x)"
  shows "around x (p_participant_id p) m"
  using assms unfolding holds_def around_def quiet_def settled_def by auto

lemma quiet_write:
  assumes "quiet m" and "settled y" and "m' = m(s_session_id y \<mapsto> y)"
  shows "holds y m'"
  using assms by (auto simp: holds_def quiet_def)

lemma settled_departed: "settled (closed_session x (map (departed now) ps) now r)"
  by (auto simp: settled_def half_started_def)

section \<open>The runtime request is always valid\<close>

lemma length_dec_of_nat: "n < 100 \<Longrightarrow> length (dec_of_nat n) \<in> {1, 2}"
  by (subst dec_of_nat.simps, subst dec_of_nat.simps) auto

text \<open>\<open>_netplay_player_name\<close> fits RetroArch's 32-byte nickname field with its terminating NUL.\<close>

lemma player_name_fits:
  assumes "participant_ok p"
  shows "1 \<le> length (netplay_player_name p)" "utf8_length (netplay_player_name p) \<le> 31"
proof -
  have slot: "nat (p_player_slot p) < 100" "\<not> p_player_slot p < 0"
    using assms by (auto simp: participant_ok_def)
  let ?d = "dec_of_nat (nat (p_player_slot p))"
  have two: "utf8_size (of_char c) \<le> 2" for c :: char
    using nat_of_char_less_256 [of c] unfolding utf8_size_def by (auto simp del: nat_of_char_less_256)
  have size: "utf8_length (ustring_of t) \<le> 2 * length t" for t
  proof (induction t)
    case (Cons c t)
    then show ?case using two [of c] by (simp add: utf8_length_def ustring_of_def)
  qed (simp add: utf8_length_def ustring_of_def)
  have "utf8_length (ustring_of (''Player '' @ ?d)) \<le> 31"
    using length_dec_of_nat [OF slot(1)] size [of "''Player '' @ ?d"] by auto
  with slot(2) show "utf8_length (netplay_player_name p) \<le> 31"
    by (simp add: netplay_player_name_def str_of_int_def)
  show "1 \<le> length (netplay_player_name p)"
    using assms by (simp add: netplay_player_name_def participant_ok_def ustring_of_def)
qed

lemma request_valid:
  assumes "participant_ok p" and "game_record_ok g" and "core_profile_ok c"
    and "rr_user_id r = p_user_id p" "rr_player_name r = netplay_player_name p"
      "rr_rom_path r = g_canonical_path g" "rr_rom_sha256 r = g_rom_sha256 g"
      "rr_core_profile r = c_profile_id c"
  shows "make_runtime_request r = Inr r"
proof -
  have "length (netplay_player_name p) \<le> 31"
    using player_name_fits(2) [OF assms(1)] length_le_utf8_length [of "netplay_player_name p"] by simp
  then show ?thesis
    using assms player_name_fits(1) [OF assms(1)]
    by (simp add: make_runtime_request_def construct_def runtime_request_ok_def participant_ok_def
        game_record_ok_def core_profile_ok_def slug_def)
qed

section \<open>Writes in a reliable environment\<close>

context reliable_env
begin

lemma wp_replace_exact:
  assumes "view s (s_session_id x) = Some x"
    and "\<And>now t. view t = (view s)(s_session_id x \<mapsto>
        updated_session x (if app then s_participants x @ [p] else substitute p (s_participants x)) st now e) \<Longrightarrow>
      Q (updated_session x (if app then s_participants x @ [p] else substitute p (s_participants x)) st now e) t"
  shows "wp (replace_participant D x p st app e) Q E s"
  unfolding replace_participant_def Let_def wp_simps
proof (rule wp_keeps_exactly_liftE [OF exact_clock])
  fix now t assume "view t = view s"
  let ?y = "updated_session x (if app then s_participants x @ [p] else substitute p (s_participants x)) st now e"
  have "wp (repo_save D ?y (s_revision x)) (\<lambda>_ u. view u = (view t)(s_session_id ?y \<mapsto> ?y)) (\<lambda>_ _. False) t"
    by (rule save_exact) (use assms(1) \<open>view t = view s\<close> in simp_all)
  then show "wp (repo_save D ?y (s_revision x)) (\<lambda>_. Q ?y) E t"
    by (rule wp_mono) (use assms(2) \<open>view t = view s\<close> in simp_all)
qed

lemma wp_exact_call:
  assumes "keeps_exactly view f" and "wp f (\<lambda>_ _. True) F s"
    and "\<And>a t. view t = view s \<Longrightarrow> Q a t" and "\<And>e t. view t = view s \<Longrightarrow> F e t \<Longrightarrow> E e t"
  shows "wp f Q E s"
proof -
  have "wp f (\<lambda>_ t. view t = view s) (\<lambda>_ t. view t = view s) s" using assms(1) by (rule wp_keeps_exactly) simp_all
  from wp_conj [OF this assms(2)] show ?thesis by (rule wp_mono) (simp_all add: assms(3,4))
qed

lemma wp_exact_teardown:
  assumes ok: "\<And>t. view t = view s \<Longrightarrow> Q () t" and bad: "\<And>e t. \<not> responsive D \<Longrightarrow> view t = view s \<Longrightarrow> E e t"
  shows "wp (retire_runtime D u) Q E s"
proof (cases "responsive D")
  case True
  then have calls: "wp (execution_remove D u) (\<lambda>_ _. True) (\<lambda>_ _. False) t"
    "wp (stream_revoke D u) (\<lambda>_ _. True) (\<lambda>e _. e \<noteq> Diverged) s" for t
    by (simp_all add: responsive_def)
  have remove: "wp (execution_remove D u) Q E t" if "view t = view s" for t
    by (rule wp_exact_call [OF exact_remove calls(1)]) (use that ok in auto)
  show ?thesis
    unfolding retire_runtime_def best_effort_revoke_def wp_simps
    by (rule wp_exact_call [OF exact_revoke calls(2)]) (use remove in auto)
next
  case False
  then show ?thesis
    unfolding retire_runtime_def best_effort_revoke_def wp_simps
    by (intro wp_keeps_exactly [OF exact_revoke]) (auto intro!: wp_keeps_exactly [OF exact_remove] ok bad)
qed

lemma wp_exact_inspect:
  assumes ok: "\<And>h t. view t = view s \<Longrightarrow> Q h t"
    and bad: "\<And>e t. is_orchestration_error e \<or> \<not> responsive D \<Longrightarrow> view t = view s \<Longrightarrow> E e t"
  shows "wp (execution_inspect D u) Q E s"
proof (cases "responsive D")
  case True
  then have "wp (execution_inspect D u) (\<lambda>_ _. True) (\<lambda>e _. is_orchestration_error e) s"
    by (simp add: responsive_def)
  then show ?thesis by (rule wp_exact_call [OF exact_inspect]) (use ok bad in auto)
next
  case False
  then show ?thesis by (intro wp_keeps_exactly [OF exact_inspect] ok bad) simp_all
qed

lemma wp_exact_cleanup:
  assumes "\<And>t. view t = view s \<Longrightarrow> Q () t" and "\<And>t. E Diverged t"
  shows "wp (cleanup_failed_runtime D u) Q E s"
  unfolding cleanup_failed_runtime_def best_effort_revoke_def wp_simps
  by (rule wp_keeps_exactly [OF exact_revoke]; auto intro!: wp_keeps_exactly [OF exact_remove] assms)

lemma wp_exact_wait:
  assumes "\<And>t. view t = view s \<Longrightarrow> Q () t" and "\<And>e t. view t = view s \<Longrightarrow> E e t"
  shows "wp (wait_ready cfg D h timeout) Q E s"
proof -
  have loop: "wp (wait_loop n cfg D rid deadline h) Q E u" if "view u = view s" for n rid deadline h u
    using that
  proof (induction n arbitrary: h u)
    case (Suc n)
    then show ?case
      unfolding wait_loop.simps wp_simps Let_def
      by (auto intro!: assms wp_keeps_exactly_liftE [OF exact_monotonic] wp_keeps_exactly_liftE [OF exact_sleep]
          wp_keeps_exactly [OF exact_inspect] Suc.IH)
  qed (simp add: wp_simps assms)
  show ?thesis
    unfolding wait_ready_def wp_simps by (auto intro!: wp_keeps_exactly_liftE [OF exact_monotonic] loop)
qed

section \<open>Starting a participant settles it\<close>

lemma wp_mark_failed_quiet:
  assumes a: "around x pid (view s)" and bad: "\<And>e t. (e \<noteq> Diverged \<Longrightarrow> quiet (view t)) \<Longrightarrow> E e t"
  shows "wp (mark_failed D role pid x err) Q E s"
proof -
  obtain q where q: "first_match (\<lambda>q. p_participant_id q = pid) (s_participants x) = Some q"
    using a first_match_ex [of _ "s_participants x" "\<lambda>q. p_participant_id q = pid"]
    by (force simp: around_def)
  have id: "p_participant_id (q\<lparr>p_state := P_ERROR\<rparr>) = pid" using first_match_SomeD [OF q] by simp
  have settled: "quiet (view t)" if "view t = (view s)(s_session_id x \<mapsto>
      updated_session x (substitute (q\<lparr>p_state := P_ERROR\<rparr>) (s_participants x)) st now e)" for t st now e
    by (rule around_update(2) [OF a id that]) (simp add: half_started_def is_live_def)
  have held: "view s (s_session_id x) = Some x" using a by (simp add: around_def)
  show ?thesis
    unfolding mark_failed_def q option.case wp_simps
    by (rule wp_replace_exact [OF held]) (auto intro!: bad dest!: settled [unfolded if_False])
qed

lemma wp_start_failed_quiet:
  assumes a: "around x pid (view s)" and bad: "\<And>e t. (e \<noteq> Diverged \<Longrightarrow> quiet (view t)) \<Longrightarrow> E e t"
  shows "wp (start_failed D role pid x err) Q E s"
  unfolding start_failed_def wp_bindE
proof (rule wp_exact_cleanup)
  have get: "wp (repo_get D (s_session_id x)) (\<lambda>r. wp (mark_failed D role pid
      (case r of None \<Rightarrow> x | Some y \<Rightarrow> y) err) Q E) E t" if t: "view t = view s" for t
  proof (rule wp_mono [OF get_exact])
    fix r u assume "view u = view t \<and> r = view t (s_session_id x)"
    with a t have "around x pid (view u)" "r = Some x" by (auto simp: around_def)
    then show "wp (mark_failed D role pid (case r of None \<Rightarrow> x | Some y \<Rightarrow> y) err) Q E u"
      by (simp add: wp_mark_failed_quiet bad)
  qed simp
  then show "\<And>t. view t = view s \<Longrightarrow> wp (repo_get D (s_session_id x)) (\<lambda>r. wp (mark_failed D role pid
      (case r of None \<Rightarrow> x | Some y \<Rightarrow> y) err) Q E) E t" .
  show "E Diverged t" for t by (rule bad) simp
qed

lemma wp_activate_quiet:
  assumes a: "around x (p_participant_id p) (view s)" and ok: "\<And>y t. quiet (view t) \<Longrightarrow> Q y t"
    and bad: "\<And>e t. (e \<noteq> Diverged \<Longrightarrow> quiet (view t)) \<Longrightarrow> E e t"
    and state: "s_state x \<in> {STARTING, OPEN}"
  shows "wp (activate_participant cfg D x p) Q E s"
proof -
  let ?p = "\<lambda>at. p\<lparr>p_state := P_ACTIVE, p_last_heartbeat := at,
     p_stream_path := Some (stream_path_of (p_participant_id p))\<rparr>"
  have rep: "wp (replace_participant D x (?p at) st False e) Q E t"
    if t: "view t = view s" for at st e t
  proof (rule wp_replace_exact)
    show "view t (s_session_id x) = Some x" using a t by (simp add: around_def)
    fix now u
    assume "view u = (view t)(s_session_id x \<mapsto> updated_session x
      (if False then s_participants x @ [?p at] else substitute (?p at) (s_participants x)) st now e)"
    then have "quiet (view u)"
      using around_update(2) [OF a, of "?p at" "view u" st now e] t by (simp add: half_started_def)
    then show "Q (updated_session x
      (if False then s_participants x @ [?p at] else substitute (?p at) (s_participants x)) st now e) u"
      by (rule ok)
  qed
  show ?thesis
    using state unfolding activate_participant_def Let_def wp_simps
    by (auto simp: require_participant_transition_def require_session_transition_def
        intro!: wp_keeps_exactly_liftE [OF exact_clock] rep)
qed

lemma wp_await_quiet:
  assumes a: "around x (p_participant_id p) (view s)" and ok: "\<And>y t. quiet (view t) \<Longrightarrow> Q y t"
    and bad: "\<And>e t. (e \<noteq> Diverged \<Longrightarrow> quiet (view t)) \<Longrightarrow> E e t"
    and state: "s_state x \<in> {STARTING, OPEN}"
  shows "wp (await_participant cfg D role h p x) Q E s"
proof -
  have f: "wp (start_failed D r (p_participant_id p) x e) Q E t" if "view t = view s" for r e t
    by (rule wp_start_failed_quiet) (use a that bad in auto)
  have g: "wp (activate_participant cfg D x p) Q E t" if "view t = view s" for t
    by (rule wp_activate_quiet) (use a that ok bad state in auto)
  show ?thesis
    unfolding await_participant_def wp_simps sum.case
    by (auto intro!: wp_exact_wait wp_keeps_exactly [OF exact_provision] f g bad)
qed

lemma wp_run_quiet:
  assumes a: "around x (p_participant_id p) (view s)" and ok: "\<And>y t. quiet (view t) \<Longrightarrow> Q y t"
    and bad: "\<And>e t. (e \<noteq> Diverged \<Longrightarrow> quiet (view t)) \<Longrightarrow> E e t"
    and state: "s_state x \<in> {STARTING, OPEN}"
  shows "wp (run_participant cfg D role p x request) Q E s"
proof -
  have f: "wp (start_failed D r (p_participant_id p) x e) Q E t" if "view t = view s" for r e t
    by (rule wp_start_failed_quiet) (use a that bad in auto)
  have "wp (replace_participant D x (p\<lparr>p_runtime_id := Some (h_runtime_id h)\<rparr>) (s_state x) False None)
      (\<lambda>y. wp (await_participant cfg D role h (p\<lparr>p_runtime_id := Some (h_runtime_id h)\<rparr>) y) Q E)
      F t" if t: "view t = view s" for h t F
  proof (rule wp_replace_exact)
    show "view t (s_session_id x) = Some x" using a t by (simp add: around_def)
  next
    fix now u
    let ?p = "p\<lparr>p_runtime_id := Some (h_runtime_id h)\<rparr>"
    let ?y = "updated_session x (if False then s_participants x @ [?p]
      else substitute ?p (s_participants x)) (s_state x) now None"
    assume "view u = (view t)(s_session_id x \<mapsto> ?y)"
    then have "around ?y (p_participant_id ?p) (view u)" by (auto intro!: around_update(1) [OF a] simp: t)
    then show "wp (await_participant cfg D role h ?p ?y) Q E u"
      by (rule wp_await_quiet) (use ok bad state in auto)
  qed
  then show ?thesis
    unfolding run_participant_def wp_simps Let_def sum.case prod.case
    by (auto intro!: wp_keeps_exactly [OF exact_create] f bad)
qed

lemma wp_start_quiet:
  assumes a: "around x (p_participant_id p) (view s)" and ok: "\<And>y t. quiet (view t) \<Longrightarrow> Q y t"
    and bad: "\<And>e t. (e \<noteq> Diverged \<Longrightarrow> quiet (view t)) \<Longrightarrow> E e t"
    and p: "p_state p = P_ALLOCATING" "participant_ok p"
    and g: "game_record_ok game" and c: "core_profile_ok core"
    and state: "s_state x \<in> {CREATING, OPEN}"
  shows "wp (start_participant cfg D x p game core role host) Q E s"
proof -
  let ?p = "p\<lparr>p_state := P_STARTING\<rparr>"
  let ?st = "if s_state x = CREATING then STARTING else s_state x"
  have st: "?st \<in> {STARTING, OPEN}" using state by auto
  have run: "wp (run_participant cfg D role ?p
      (updated_session x (substitute ?p (s_participants x)) ?st now None) r) Q E t"
    if "view t = (view s)(s_session_id x \<mapsto> updated_session x (substitute ?p (s_participants x)) ?st now None)"
    for now r t
    by (rule wp_run_quiet) (use around_update(1) [OF a, of ?p, OF _ that] st ok bad in auto)
  have valid: "make_runtime_request (mk y) = Inr (mk y)"
    if "mk = (\<lambda>y. \<lparr>rr_session_id = s_session_id y, rr_participant_id = p_participant_id p,
                rr_user_id = p_user_id p, rr_player_name = netplay_player_name p,
                rr_rom_path = g_canonical_path game, rr_rom_sha256 = g_rom_sha256 game,
                rr_core_profile = c_profile_id core, rr_role = role,
                rr_host_participant_id = host\<rparr>)" for mk and y :: session
    by (rule request_valid [OF p(2) g c]) (simp_all add: that)
  have trans: "require_participant_transition (p_state p) P_STARTING = Inr ()"
    "s_state x = CREATING \<Longrightarrow> require_session_transition (s_state x) ?st = Inr ()"
    by (simp_all add: p(1) require_participant_transition_def require_session_transition_def)
  have held: "view s (s_session_id x) = Some x" using a by (simp add: around_def)
  have replace: "wp (replace_participant D x ?p ?st False None) (\<lambda>a s.
      wp (run_participant cfg D role ?p a (mk a)) Q E s) E s" for mk
    by (rule wp_replace_exact [OF held]) (unfold if_False, rule run)
  show ?thesis
    unfolding start_participant_def Let_def wp_simps trans(1) sum.case valid [OF refl]
    using replace trans(2) by auto
qed

section \<open>Closing, leaving and sweeping keep records settled\<close>

lemma wp_close_quiet:
  assumes h: "holds x (view s)"
    and ok: "\<And>y t. holds y (view t) \<Longrightarrow> s_session_id y = s_session_id x \<Longrightarrow>
       (\<And>k. k \<noteq> s_session_id x \<Longrightarrow> view t k = view s k) \<Longrightarrow> s_state y = CLOSED \<Longrightarrow> Q y t"
    and bad: "\<And>e t. \<not> responsive D \<Longrightarrow> quiet (view t) \<Longrightarrow> E e t"
  shows "wp (close_session D x reason) Q E s"
proof (cases "s_state x = CLOSED")
  case True
  then show ?thesis using h ok by (simp add: close_session_def wp_simps)
next
  case False
  have calm: "List.find half_started (s_participants x) = None"
    using h by (auto simp: holds_def quiet_def settled_def find_None_iff)
  have E: "E e t" if "\<not> responsive D" "view t = view s" for e t
    using h that by (intro bad) (simp_all add: holds_def)
  have shut: "require_session_transition (s_state x) CLOSED = Inr ()"
    using False by (cases "s_state x") (simp_all add: require_session_transition_def)
  have save: "wp (repo_save D (closed_session x (map (departed now) (s_participants x)) now reason) (s_revision x))
      (\<lambda>_. Q (closed_session x (map (departed now) (s_participants x)) now reason)) E t"
    if t: "view t = view s" for now t
  proof -
    let ?y = "closed_session x (map (departed now) (s_participants x)) now reason"
    have "wp (repo_save D ?y (s_revision x)) (\<lambda>_ u. view u = (view t)(s_session_id ?y \<mapsto> ?y)) (\<lambda>_ _. False) t"
      by (rule save_exact [of t _ x]) (use h t in \<open>simp_all add: holds_def\<close>)
    then show ?thesis
      using quiet_write [of "view s" ?y] h settled_departed
      by (elim wp_mono) (auto intro!: ok simp: t holds_def)
  qed
  have loop: "wp (forE (\<lambda>p. if is_live p then retire_runtime D (p_participant_id p) else returnE ())
      (s_participants x)) R E t"
    if "view t = view s" and "\<And>u. view u = view s \<Longrightarrow> R () u" for R t
    by (rule wp_forE [where I = "\<lambda>_ u. view u = view s"])
      (use that in \<open>auto simp: wp_simps intro!: wp_exact_teardown E\<close>)
  show ?thesis
    unfolding close_session_def Let_def wp_simps wp_left_all calm option.case shut sum.case
    using False
    by (auto intro!: wp_keeps_exactly_liftE [OF exact_clock] loop save)
qed

lemma wp_expire_quiet:
  assumes h: "holds x (view s)"
    and ok: "\<And>y t. holds y (view t) \<Longrightarrow> y = x \<or> s_state y = CLOSED \<Longrightarrow> Q y t"
    and bad: "\<And>e t. quiet (view t) \<Longrightarrow> E e t"
  shows "wp (expire D x) Q E s"
  unfolding expire_def wp_simps using h
  by (auto intro!: wp_keeps_exactly_liftE [OF exact_clock] wp_close_quiet ok bad)

lemma wp_required_quiet:
  assumes q: "quiet (view s)"
    and ok: "\<And>x t. holds x (view t) \<Longrightarrow> view s sid = Some x \<Longrightarrow> Q x t"
    and bad: "\<And>e t. quiet (view t) \<Longrightarrow> E e t"
  shows "wp (required D sid) Q E s"
  unfolding required_def wp_simps
proof (rule wp_mono [OF get_exact])
  fix r t assume r: "view t = view s \<and> r = view s sid"
  have "holds x (view t)" if "r = Some x" for x
    using r that q by (auto simp: holds_def quiet_def)
  then show "case r of None \<Rightarrow> E (NotFoundError ''session not found'') t | Some x \<Rightarrow> Q x t"
    using r q by (auto intro!: ok bad split: option.split)
qed simp

lemma settled_substitute:
  "settled x \<Longrightarrow> \<not> half_started p' \<Longrightarrow>
   settled (updated_session x (substitute p' (s_participants x)) st now e)"
  by (auto simp: settled_def dest!: substitute_mem(1))

lemma wp_update_quiet:
  assumes h: "holds x (view s)" and p': "\<not> half_started p'"
    and ok: "\<And>now t. holds (updated_session x (substitute p' (s_participants x)) st now e) (view t) \<Longrightarrow>
       (\<And>k. k \<noteq> s_session_id x \<Longrightarrow> view t k = view s k) \<Longrightarrow>
       Q (updated_session x (substitute p' (s_participants x)) st now e) t"
  shows "wp (replace_participant D x p' st False e) Q E s"
proof (rule wp_replace_exact)
  show "view s (s_session_id x) = Some x" using h by (simp add: holds_def)
  fix now t
  let ?y = "updated_session x (if False then s_participants x @ [p']
      else substitute p' (s_participants x)) st now e"
  assume t: "view t = (view s)(s_session_id x \<mapsto> ?y)"
  have "settled x" using h by (auto simp: holds_def quiet_def)
  then have "holds ?y (view t)"
    using settled_substitute [OF _ p'] h t by (intro quiet_write) (auto simp: holds_def)
  with t show "Q ?y t" by (auto intro!: ok)
qed

lemma not_half_started [simp]:
  "\<not> half_started (p\<lparr>p_state := P_ERROR, p_last_heartbeat := t\<rparr>)" "\<not> half_started (departed now p)"
  by (simp_all add: half_started_def is_live_def departed_def)

lemma settled_not_half: "holds x m \<Longrightarrow> p \<in> set (s_participants x) \<Longrightarrow> \<not> half_started p"
  by (auto simp: holds_def quiet_def settled_def)

lemma wp_retire_participant_quiet:
  assumes h: "holds x (view s)" and p: "\<not> half_started p"
    and ok: "\<And>y t. holds y (view t) \<Longrightarrow> s_session_id y = s_session_id x \<Longrightarrow>
       (\<And>k. k \<noteq> s_session_id x \<Longrightarrow> view t k = view s k) \<Longrightarrow> Q y t"
    and bad: "\<And>e t. \<not> responsive D \<Longrightarrow> quiet (view t) \<Longrightarrow> E e t"
  shows "wp (retire_participant D x p failed) Q E s"
proof -
  have E: "E e t" if "\<not> responsive D" "view t = view s" for e t
    using h that by (intro bad) (simp_all add: holds_def)
  have rep: "wp (replace_participant D x p' (s_state x) False None) Q E t"
    if "view t = view s" "\<not> half_started p'" for p' t
    by (rule wp_update_quiet [OF _ that(2)]) (use h that ok in auto)
  show ?thesis
    unfolding retire_participant_def wp_simps left_participant_eq
    using p by (auto intro!: wp_exact_teardown wp_keeps_exactly_liftE [OF exact_clock] rep E)
qed

text \<open>The loops: the sessions still to be visited are the stored ones.\<close>

lemma wp_list_quiet:
  assumes q: "quiet (view s)"
    and ok: "\<And>xs t. view t = view s \<Longrightarrow> distinct (map s_session_id xs) \<Longrightarrow>
      \<forall>x \<in> set xs. view t (s_session_id x) = Some x \<Longrightarrow> Q xs t"
  shows "wp (repo_list D) Q E s"
proof (rule wp_mono [OF list_exact])
  fix xs t
  assume xs: "view t = view s \<and> (\<exists>ks. distinct ks \<and> set ks = dom (view s) \<and>
    map (view s) ks = map Some xs) \<and> sorted (map s_created_at xs)"
  then have l: "lists_store (view t) xs" by (auto simp: lists_store_def)
  have keyed: "s_session_id x = k" if "view t k = Some x" for k x
    using q xs that by (auto simp: quiet_def)
  show "Q xs t"
    using lists_store_distinct [OF l keyed] lists_store_mem [OF l] keyed xs by (intro ok) blast+
qed simp

lemma wp_session_loop_quiet:
  assumes q: "quiet (view s)"
    and body: "\<And>x c s. holds x (view s) \<Longrightarrow>
       wp (f x c) (\<lambda>_ t. quiet (view t) \<and> (\<forall>k. k \<noteq> s_session_id x \<longrightarrow> view t k = view s k))
         (\<lambda>_ t. quiet (view t)) s"
    and ok: "\<And>c t. quiet (view t) \<Longrightarrow> Q c t"
    and bad: "\<And>e t. quiet (view t) \<Longrightarrow> E e t"
  shows "wp (bindE (repo_list D) (\<lambda>xs. foldE f xs c)) Q E s"
  unfolding wp_bindE
proof (rule wp_list_quiet [OF q])
  fix xs t
  assume start: "view t = view s" "distinct (map s_session_id xs)"
    "\<forall>x \<in> set xs. view t (s_session_id x) = Some x"
  show "wp (foldE f xs c) Q E t"
  proof (rule wp_foldE [where I = "\<lambda>ys _ s. quiet (view s) \<and> distinct (map s_session_id ys) \<and>
      (\<forall>x \<in> set ys. view s (s_session_id x) = Some x)"])
    fix x ys c u
    assume I: "quiet (view u) \<and> distinct (map s_session_id (x # ys)) \<and>
      (\<forall>x \<in> set (x # ys). view u (s_session_id x) = Some x)"
    then have h: "holds x (view u)" by (simp add: holds_def)
    have other: "s_session_id z \<noteq> s_session_id x" if "z \<in> set ys" for z
      using I that by (metis distinct.simps(2) image_eqI list.set_map list.simps(9))
    show "wp (f x c) (\<lambda>_ s. quiet (view s) \<and> distinct (map s_session_id ys) \<and>
      (\<forall>x \<in> set ys. view s (s_session_id x) = Some x)) E u"
      using body [OF h] by (rule wp_mono) (use I other bad in auto)
  qed (use start q ok in auto)
qed

lemma wp_sweep_participants_quiet:
  assumes h: "holds x (view s)" and ps: "\<forall>p \<in> set ps. p_state p = P_ACTIVE"
  shows "wp (foldE (sweep_participant D stale) ps (x, c, False))
    (\<lambda>_ t. quiet (view t) \<and> (\<forall>k. k \<noteq> s_session_id x \<longrightarrow> view t k = view s k))
    (\<lambda>_ t. \<not> responsive D \<and> quiet (view t)) s"
proof -
  let ?same = "\<lambda>t. \<forall>k. k \<noteq> s_session_id x \<longrightarrow> view t k = view s k"
  let ?I = "\<lambda>(ps :: participant list) acc t. ?same t \<and> quiet (view t) \<and> (\<forall>p \<in> set ps. p_state p = P_ACTIVE) \<and>
    (case acc of (y, c, stopped) \<Rightarrow> \<not> stopped \<longrightarrow> holds y (view t) \<and> s_session_id y = s_session_id x)"
  show ?thesis
  proof (rule wp_foldE [where I = ?I])
    show "?I ps (x, c, False) s" using h ps by (simp add: holds_def)
  next
    fix p :: participant and ps and acc :: "session \<times> int \<times> bool" and u
    assume I: "?I (p # ps) acc u"
    obtain y c stopped where acc: "acc = (y, c, stopped)" by (cases acc)
    show "wp (sweep_participant D stale p acc) (?I ps) (\<lambda>_ t. \<not> responsive D \<and> quiet (view t)) u"
    proof (cases stopped)
      case True
      then show ?thesis using I by (simp add: acc sweep_participant_def wp_simps)
    next
      case False
      then have y: "holds y (view u)" "s_session_id y = s_session_id x" "?same u"
        and p: "\<not> half_started p" and rest: "\<forall>p \<in> set ps. p_state p = P_ACTIVE"
        using I by (auto simp: acc half_started_def)
      have retire: "wp (retire_participant D y p failed) (\<lambda>z t. ?I ps (z, n, False) t)
          (\<lambda>_ t. \<not> responsive D \<and> quiet (view t)) v" if "view v = view u" for failed v n
        by (rule wp_retire_participant_quiet [OF _ p]) (use y rest that in \<open>auto simp: holds_def\<close>)
      have shut: "wp (close_session D y ''owner_runtime_failed'') (\<lambda>_ t. ?I ps (y, n, True) t)
          (\<lambda>_ t. \<not> responsive D \<and> quiet (view t)) v" if "view v = view u" for v n
        by (rule wp_close_quiet) (use y rest that in \<open>auto simp: holds_def\<close>)
      have fail: "quiet (view v)" if "view v = view u" for v using y that by (simp add: holds_def)
      have skip: "?I ps (y, n, False) v" if "view v = view u" for v n
        using y rest that by (simp add: holds_def)
      show ?thesis
        unfolding acc sweep_participant_def prod.case wp_simps False if_False
        using retire shut skip fail
        by (auto simp: prod.case intro!: wp_exact_inspect)
    qed
  qed auto
qed

lemma wp_sweep_session_quiet:
  assumes h: "holds x (view s)"
  shows "wp (sweep_session cfg D x c)
    (\<lambda>_ t. quiet (view t) \<and> (\<forall>k. k \<noteq> s_session_id x \<longrightarrow> view t k = view s k))
    (\<lambda>_ t. \<not> responsive D \<and> quiet (view t)) s"
proof -
  let ?Q = "\<lambda>t. quiet (view t) \<and> (\<forall>k. k \<noteq> s_session_id x \<longrightarrow> view t k = view s k)"
  have shut: "wp (close_session D x r) (\<lambda>_. ?Q) (\<lambda>_ t. \<not> responsive D \<and> quiet (view t)) v" if "view v = view s" for r v
    by (rule wp_close_quiet) (use h that in \<open>auto simp: holds_def\<close>)
  have loop: "wp (foldE (sweep_participant D stale) (active_list x) (x, c, False)) (\<lambda>_. ?Q)
      (\<lambda>_ t. \<not> responsive D \<and> quiet (view t)) v" if "view v = view s" for stale v
    using wp_sweep_participants_quiet [of x v "active_list x" stale c] h that by simp
  show ?thesis
    unfolding sweep_session_def Let_def wp_simps
    using h by (auto intro!: shut loop wp_keeps_exactly_liftE [OF exact_clock] simp: holds_def)
qed

lemma wp_sweep_quiet:
  assumes q: "quiet (view s)"
    and ok: "\<And>c t. quiet (view t) \<Longrightarrow> Q c t" and bad: "\<And>e t. quiet (view t) \<Longrightarrow> E e t"
  shows "wp (sweep cfg D) Q E s" "wp (expire_due cfg D) Q E s"
  unfolding expire_due_def sweep_def
  by (rule wp_session_loop_quiet [OF q wp_mono [OF wp_sweep_session_quiet] ok bad]; simp)+

lemma wp_reconcile_quiet:
  assumes q: "quiet (view s)"
    and ok: "\<And>c t. quiet (view t) \<Longrightarrow> Q c t" and bad: "\<And>e t. quiet (view t) \<Longrightarrow> E e t"
  shows "wp (reconcile_startup D) Q E s"
proof -
  let ?close = "\<lambda>x c. if s_state x \<noteq> CLOSED
    then bindE (close_session D x ''manager_restarted'') (\<lambda>_. returnE (c + 1)) else returnE c"
  let ?reap = "\<lambda>h c. bindE (best_effort_revoke D (h_runtime_id h)) (\<lambda>_.
    bindE (execution_remove D (h_runtime_id h)) (\<lambda>_. returnE (c + (1::int))))"
  have body: "wp (?close x c) (\<lambda>_ t. quiet (view t) \<and> (\<forall>k. k \<noteq> s_session_id x \<longrightarrow> view t k = view v k))
      (\<lambda>_ t. quiet (view t)) v" if "holds x (view v)" for x c v
    unfolding wp_simps using that by (auto intro!: wp_close_quiet [OF that] simp: holds_def)
  have reap: "wp (foldE ?reap hs c) Q E v" if "quiet (view v)" for hs c v
    by (rule wp_foldE [where I = "\<lambda>_ _ s. quiet (view s)"])
      (auto simp: wp_simps best_effort_revoke_def that intro!: ok bad
        wp_keeps_exactly [OF exact_revoke] wp_keeps_exactly [OF exact_remove])
  have "wp (bindE (repo_list D) (\<lambda>xs. foldE ?close xs 0))
      (\<lambda>c. wp (execution_list D) (\<lambda>hs. wp (foldE ?reap hs c) Q E) E) E s"
    by (rule wp_session_loop_quiet [OF q body])
      (auto intro!: bad reap wp_keeps_exactly [OF exact_list])
  then show ?thesis unfolding reconcile_startup_def wp_bindE .
qed

section \<open>Every request keeps records settled\<close>

lemma wp_resolve_exact:
  assumes v: "valid_catalogue D"
    and ok: "\<And>g c t. view t = view s \<Longrightarrow> game_record_ok g \<Longrightarrow> core_profile_ok c \<Longrightarrow> Q (g, c) t"
    and bad: "\<And>e t. view t = view s \<Longrightarrow> E e t"
  shows "wp (resolve D rom) Q E s"
proof -
  have r: "wp (romm_resolve_game D rom) (\<lambda>g t. view t = view s \<and> game_record_ok g) (\<lambda>_ t. view t = view s) s"
    using v exact_romm [of rom] unfolding valid_catalogue_def keeps_exactly_def
    by (intro wp_I) (metis snd_conv)+
  have c: "wp (cores_resolve D p) (\<lambda>c u. view u = view t \<and> core_profile_ok c) (\<lambda>_ u. view u = view t) t" for p t
    using v exact_cores [of p] unfolding valid_catalogue_def keeps_exactly_def
    by (intro wp_I) (metis snd_conv)+
  show ?thesis
    unfolding resolve_def wp_simps
    by (rule wp_mono [OF r]) (auto intro!: wp_mono [OF c] ok bad)
qed

lemma wp_quotas_exact:
  assumes "\<And>t. view t = view s \<Longrightarrow> Q () t" and "\<And>e t. view t = view s \<Longrightarrow> E e t"
  shows "wp (require_session_capacity cfg D) Q E s"
    "wp (require_user_runtime_capacity cfg D u) Q E s"
    "wp (require_runtime_capacity cfg D) Q E s"
  unfolding require_session_capacity_def require_user_runtime_capacity_def active_sessions_def
    require_runtime_capacity_def wp_simps
  by (auto intro!: wp_mono [OF list_exact] wp_keeps_exactly [OF exact_list] assms)

lemma wp_depart_quiet:
  assumes h: "holds x (view s)" and p: "\<not> half_started p"
    and ok: "\<And>y t. quiet (view t) \<Longrightarrow> Q y t" and bad: "\<And>e t. quiet (view t) \<Longrightarrow> E e t"
  shows "wp (bindE (retire_runtime D (p_participant_id p)) (\<lambda>_.
              bindE (liftE (clock D)) (\<lambda>now.
              bindE (resultE (left_participant p now)) (\<lambda>left.
              replace_participant D x left (s_state x) False None)))) Q E s"
proof -
  have E: "E e t" if "view t = view s" for e t using h that by (intro bad) (simp add: holds_def)
  have rep: "wp (replace_participant D x (departed now p) (s_state x) False None) Q E t"
    if "view t = view s" for now t
    by (rule wp_update_quiet) (use h that ok in \<open>auto simp: holds_def\<close>)
  show ?thesis
    unfolding wp_simps left_participant_eq
    using p by (auto intro!: wp_exact_teardown wp_keeps_exactly_liftE [OF exact_clock] rep E)
qed

lemma wp_member_ops_quiet:
  assumes q: "quiet (view s)"
    and ok: "\<And>y t. quiet (view t) \<Longrightarrow> Q y t" and bad: "\<And>e t. quiet (view t) \<Longrightarrow> E e t"
  shows "wp (leave D sid actor) Q E s" "wp (kick D sid actor pid) Q E s"
    "wp (close D sid actor) Q E s" "wp (get_session D sid) Q E s" "wp (heartbeat cfg D sid actor) Q E s"
proof -
  have start: "wp (required D sid) (\<lambda>x. wp (expire D x) R E) E s"
    if "\<And>x t. holds x (view t) \<Longrightarrow> R x t" for R
    by (rule wp_required_quiet [OF q]) (auto intro!: wp_expire_quiet that bad)
  have held: "quiet (view t)" if "holds x (view t)" for x t using that by (simp add: holds_def)
  have member: "\<not> half_started p"
    if "holds x (view t)" "first_match f (s_participants x) = Some p" for x t f p
    using settled_not_half [OF that(1)] first_match_SomeD [OF that(2)] by blast
  show "wp (leave D sid actor) Q E s"
    unfolding leave_def wp_bindE wp_case_option wp_if wp_returnE wp_raiseE
    by (rule start) (auto intro!: ok bad held wp_depart_quiet [unfolded wp_bindE] dest: member split: option.splits)
  show "wp (kick D sid actor pid) Q E s"
    unfolding kick_def wp_bindE wp_case_option wp_if wp_returnE wp_raiseE
    by (rule start) (auto intro!: ok bad held wp_depart_quiet [unfolded wp_bindE] dest: member split: option.splits)
  show "wp (close D sid actor) Q E s"
    unfolding close_def wp_simps
    by (rule wp_required_quiet [OF q]) (auto intro!: wp_close_quiet ok bad held)
  show "wp (get_session D sid) Q E s"
    unfolding get_session_def wp_bindE by (rule start) (auto intro!: ok held)
  have renew: "wp (replace_participant D x (p\<lparr>p_last_heartbeat := now\<rparr>) (s_state x) False e) Q E t"
    if "holds x (view t)" "active_participant x v = Some p" for x p now e v t
    by (rule wp_update_quiet [OF that(1)])
      (use member [OF that(1) that(2) [unfolded active_participant_def]] in
        \<open>auto simp: half_started_def is_live_def intro!: ok held\<close>)
  show "wp (heartbeat cfg D sid actor) Q E s"
    unfolding heartbeat_def wp_simps
    by (rule start)
      (auto intro!: bad held renew wp_keeps_exactly_liftE [OF exact_clock] split: option.splits)
qed

lemma wp_launch_quiet:
  assumes q: "quiet (view s)"
    and ok: "\<And>y t. quiet (view t) \<Longrightarrow> Q y t" and bad: "\<And>e t. quiet (view t) \<Longrightarrow> E e t"
  shows "wp (launch D sid actor) Q E s" 
  unfolding launch_def wp_simps
  by (rule wp_required_quiet [OF q])
    (auto intro!: wp_expire_quiet ok bad wp_keeps_exactly [OF exact_provision]
      simp: holds_def split: option.splits sum.splits)

lemma wp_discover_quiet:
  assumes q: "quiet (view s)"
    and ok: "\<And>y t. quiet (view t) \<Longrightarrow> Q y t" and bad: "\<And>e t. quiet (view t) \<Longrightarrow> E e t"
  shows "wp (discover cfg D) Q E s"
  unfolding discover_def wp_simps
  by (auto intro!: wp_sweep_quiet [OF q] wp_list_quiet ok bad)

lemma wp_join_quiet:
  assumes q: "quiet (view s)" and v: "valid_catalogue D"
    and host: "\<And>k x. view s k = Some x \<Longrightarrow> \<exists>p \<in> set (s_participants x). p_player_slot p = 1"
    and ok: "\<And>y t. quiet (view t) \<Longrightarrow> Q y t"
    and bad: "\<And>e t. (e \<noteq> Diverged \<Longrightarrow> quiet (view t)) \<Longrightarrow> E e t"
  shows "wp (join cfg D sid actor) Q E s"
proof -
  have E: "E e t" if "holds x (view t)" for x e t using that by (intro bad) (simp add: holds_def)
  have start: "wp (start_participant cfg D (updated_session x (s_participants x @ [p]) OPEN now None)
      p game core Client host) Q E u"
    if h: "holds x (view t)" "p_state p = P_ALLOCATING" "participant_ok p"
      and gc: "game_record_ok game" "core_profile_ok core"
      and u: "view u = (view t)(s_session_id x \<mapsto> updated_session x (s_participants x @ [p]) OPEN now None)"
    for x p now game core host t u
  proof (rule wp_start_quiet)
    show "around (updated_session x (s_participants x @ [p]) OPEN now None) (p_participant_id p) (view u)"
      using h(1) u by (auto simp: around_def holds_def quiet_def settled_def)
  qed (use h gc ok bad in auto)
  have admit: "wp (join_admit cfg D x actor game core) Q E t"
    if h: "holds x (view t)" and gc: "game_record_ok game" "core_profile_ok core" and st: "s_state x = OPEN"
      and slot: "\<exists>p \<in> set (s_participants x). p_player_slot p = 1" for x game core t
  proof -
    obtain q where q: "first_match (\<lambda>q. p_player_slot q = 1) (s_participants x) = Some q"
      using slot first_match_ex [of _ "s_participants x" "\<lambda>q. p_player_slot q = 1"] by blast
    have app: "wp (replace_participant D x p OPEN True None)
      (\<lambda>a. wp (start_participant cfg D a p game core Client (Some (p_participant_id q))) Q E) E u"
      if u: "view u = view t" and p: "p_state p = P_ALLOCATING" "participant_ok p" for p u
    proof (rule wp_replace_exact)
      show "view u (s_session_id x) = Some x" using h u by (simp add: holds_def)
    qed (unfold if_True u, rule start [OF h p gc])
    show ?thesis
      unfolding join_admit_def wp_simps st make_participant_def case_construct q option.case
      by (cases "free_slot x")
        (auto intro!: wp_keeps_exactly_liftE [OF exact_clock] wp_keeps_exactly [OF exact_uuid4] app
          E [of x] simp: h)
  qed
  have checks: "wp (require_user_runtime_capacity cfg D u) (\<lambda>_. wp (require_runtime_capacity cfg D)
      (\<lambda>_. wp (resolve D rom) R E) E) E t"
    if h: "holds x (view t)" and R: "\<And>g c w. holds x (view w) \<Longrightarrow> game_record_ok g \<Longrightarrow> core_profile_ok c \<Longrightarrow> R (g, c) w"
    for x t R rom u
    by (auto intro!: wp_quotas_exact wp_resolve_exact [OF v] R E [of x] simp: h)
  have slot: "\<exists>p \<in> set (s_participants x). p_player_slot p = 1" if "view s sid = Some x" for x
    using host [OF that] .
  have held: "quiet (view t)" if "holds x (view t)" for x t using that by (simp add: holds_def)
  show ?thesis
    unfolding join_def wp_simps
    by (rule wp_required_quiet [OF q])
      (auto intro!: wp_expire_quiet checks ok bad admit dest: slot held)
qed

lemma wp_create_quiet:
  assumes q: "quiet (view s)" and v: "valid_catalogue D"
    and ok: "\<And>y t. quiet (view t) \<Longrightarrow> Q y t"
    and bad: "\<And>e t. (e \<noteq> Diverged \<Longrightarrow> quiet (view t)) \<Longrightarrow> E e t"
  shows "wp (create cfg D actor request) Q E s"
proof -
  have add: "wp (repo_add D x) (\<lambda>_. wp (start_participant cfg D x p game core Host None) Q E) E t"
    if t: "quiet (view t)" and x: "make_session z = Inr x"
      and z: "s_participants z = [p]" "s_state z = CREATING"
      and p: "p_state p = P_ALLOCATING" "participant_ok p"
      and gc: "game_record_ok game" "core_profile_ok core" for x z p game core t
  proof (rule wp_mono [OF add_exact])
    have xz: "x = z"
      using x by (auto simp: make_session_def consistent_participants_def Let_def split: if_splits)
    fix u assume "view t (s_session_id x) = None \<and> view u = (view t)(s_session_id x \<mapsto> x)"
    then have a: "around x (p_participant_id p) (view u)"
      using t z by (auto simp: around_def quiet_def xz)
    show "wp (start_participant cfg D x p game core Host None) Q E u"
      by (rule wp_start_quiet [OF a]) (use p gc z ok bad in \<open>auto simp: xz\<close>)
  qed (use t bad in auto)
  have sw: "wp (expire_due cfg D) R E s" if "\<And>c t. quiet (view t) \<Longrightarrow> R c t" for R
    by (rule wp_sweep_quiet(2) [OF q that bad]) simp_all
  show ?thesis
    unfolding create_def wp_simps make_participant_def case_construct
    by (rule sw)
      (auto intro!: bad wp_quotas_exact wp_resolve_exact [OF v] add
        wp_keeps_exactly_liftE [OF exact_clock] wp_keeps_exactly [OF exact_uuid4] split: sum.split)
qed

lemma wp_perform_quiet:
  assumes q: "quiet (view s)" and v: "valid_catalogue D" and inv: "store_inv ttl (view s)"
  shows "wp (perform cfg D c) (\<lambda>_ t. quiet (view t)) (\<lambda>e t. e \<noteq> Diverged \<longrightarrow> quiet (view t)) s"
proof -
  have host: "\<exists>p \<in> set (s_participants x). p_player_slot p = 1" if "view s k = Some x" for k x
    using inv that by (force simp: store_inv_def lobby_inv_def owner_inv_def)
  show ?thesis
    by (cases c)
      (auto simp: wp_simps intro!: wp_create_quiet [OF q v] wp_discover_quiet [OF q]
        wp_join_quiet [OF q v host] wp_launch_quiet [OF q] wp_member_ops_quiet [OF q]
        wp_sweep_quiet [OF q] wp_reconcile_quiet [OF q])
qed

lemma serve_quiet:
  assumes "store_inv (session_ttl cfg) (view s)" and "uuid4_fresh D view" and "valid_catalogue D"
    and "sound_setup cfg D now" and "quiet (view s)"
  shows "quiet (view (serve cfg D cs s))"
  using assms(1,5)
proof (induction cs arbitrary: s)
  case (Cons c cs)
  obtain r t where run: "perform cfg D c s = (r, t)" by (cases "perform cfg D c s")
  have "r \<noteq> Inl Diverged" using perform_ends [OF assms(4), of c] run by (auto simp: ends_iff)
  then have "quiet (view t)"
    using wp_perform_quiet [OF Cons.prems(2) assms(3) Cons.prems(1), of cfg c] run
    by (auto simp: wp_def split: sum.splits)
  moreover have "store_inv (session_ttl cfg) (view t)"
    using effect_inv [OF perform_effect [OF Cons.prems(1) assms(2) quota_trivial, of c]] run by simp
  ultimately show ?case using Cons.IH [of t] run by simp
qed simp

end

text \<open>A settled record of the lobby passes the model validator.\<close>

lemma settled_consistent:
  assumes inv: "lobby_inv ttl x" and st: "settled x"
  shows "consistent_participants x = Inr x"
proof -
  have r: "roster_inv x" using inv by (simp add: lobby_inv_def)
  have live: "live_participants x = active_list x"
    unfolding live_participants_def active_list_def
    by (rule filter_cong) (use st in \<open>auto simp: settled_def half_started_def is_live_def\<close>)
  have users: "distinct (map p_user_id (live_participants x))"
    unfolding live using r by (simp add: roster_inv_def)
  have slots: "distinct (map p_player_slot (live_participants x))"
    and bound: "\<forall>p \<in> set (live_participants x). p_player_slot p \<le> s_max_players x"
    using r by (auto simp: roster_inv_def)
  have low: "\<forall>p \<in> set (live_participants x). 1 \<le> p_player_slot p"
    using r by (auto simp: roster_inv_def participant_ok_def)
  have "int (length (map p_player_slot (live_participants x))) \<le> max 0 (s_max_players x - 1 + 1)"
    by (rule distinct_bounded_length [OF slots]) (use low bound in auto)
  moreover have "0 \<le> s_max_players x" using inv by (simp add: lobby_inv_def session_fields_ok_def)
  ultimately have "player_count x \<le> s_max_players x" by (simp add: player_count_def)
  moreover have "card (set (map p_user_id (live_participants x))) = length (live_participants x)"
    "card (set (map p_player_slot (live_participants x))) = length (live_participants x)"
    using users slots unfolding card_set_map_eq_length by auto
  moreover have "\<not> list_ex (\<lambda>p. p_session_id p \<noteq> s_session_id x) (s_participants x)"
    using r by (auto simp: roster_inv_def list_ex_iff)
  moreover have "\<not> list_ex (\<lambda>p. p_player_slot p > s_max_players x) (live_participants x)"
    using bound by (auto simp: list_ex_iff)
  ultimately show ?thesis unfolding consistent_participants_def Let_def by auto
qed

end
