(* ===== verification/MemoryRepository.thy ===== *)
theory MemoryRepository
  imports ServiceQuotas ServiceQuiescence "HOL-Library.DAList"
begin

text \<open>
  \<open>repositories/memory.py\<close> and the fixed providers of \<open>providers/static.py\<close>, and the
  proof that a service on the in-memory repository satisfies both contracts of
  \<open>Interfaces\<close>, whatever the other collaborators do.

  The repository's dictionary is an association list with distinct keys in insertion
  order, which is Python's \<open>dict\<close>: assigning to a present key keeps its position, and
  \<open>sorted\<close> is stable.
\<close>

section \<open>The in-memory repository\<close>

record 'w manager =
  sessions :: "(uuid, session) alist"
  world :: 'w

definition memory_add :: "session \<Rightarrow> (exn, 'w manager, unit) prog" where
  "memory_add x = (\<lambda>s.
     if DAList.lookup (sessions s) (s_session_id x) \<noteq> None
     then (Inl (ConflictError ''session already exists''), s)
     else (Inr (), s\<lparr>sessions := DAList.update (s_session_id x) x (sessions s)\<rparr>))"

definition memory_get :: "uuid \<Rightarrow> (exn, 'w manager, session option) prog" where
  "memory_get k = (\<lambda>s. (Inr (DAList.lookup (sessions s) k), s))"

definition memory_list :: "(exn, 'w manager, session list) prog" where
  "memory_list = (\<lambda>s. (Inr (sort_key s_created_at (map snd (DAList.impl_of (sessions s)))), s))"

definition memory_save :: "session \<Rightarrow> int \<Rightarrow> (exn, 'w manager, unit) prog" where
  "memory_save x expected = (\<lambda>s.
     case DAList.lookup (sessions s) (s_session_id x) of
       None \<Rightarrow> (Inl (RepositoryConflict ''session disappeared during update''), s)
     | Some current \<Rightarrow>
         if s_revision current \<noteq> expected
         then (Inl (RepositoryConflict ''session revision changed during update''), s)
         else if s_revision x \<noteq> expected + 1
         then (Inl (RepositoryConflict ''new session revision is invalid''), s)
         else (Inr (), s\<lparr>sessions := DAList.update (s_session_id x) x (sessions s)\<rparr>))"

definition memory_health :: "(exn, 'w manager, bool) prog" where
  "memory_health = returnE True"

section \<open>Fixed providers\<close>

definition static_resolve_game :: "game_record \<Rightarrow> int \<Rightarrow> (exn, 's, game_record) prog" where
  "static_resolve_game game rom =
     (if rom \<noteq> g_romm_rom_id game then raiseE KeyError else returnE game)"

text \<open>The constructor of the core registry, and its lookup by platform.\<close>

fun add_profiles :: "core_profile list \<Rightarrow> (string \<times> core_profile) list \<Rightarrow> exn + (string \<times> core_profile) list" where
  "add_profiles [] profiles = Inr profiles"
| "add_profiles (c # cs) profiles =
     (if map_of profiles (c_platform c) \<noteq> None
      then Inl (ValueError (''duplicate core platform: '' @ c_platform c))
      else add_profiles cs (profiles @ [(c_platform c, c)]))"

definition make_core_registry :: "core_profile list \<Rightarrow> exn + (string \<times> core_profile) list" where
  "make_core_registry items =
     (case add_profiles items [] of
        Inl e \<Rightarrow> Inl e
      | Inr profiles \<Rightarrow>
          if profiles = [] then Inl (ValueError ''at least one core profile is required'')
          else Inr profiles)"

definition static_resolve_core ::
  "(string \<times> core_profile) list \<Rightarrow> string \<Rightarrow> (exn, 's, core_profile) prog" where
  "static_resolve_core profiles platform =
     (case map_of profiles platform of None \<Rightarrow> raiseE KeyError | Some c \<Rightarrow> returnE c)"

lemma add_profiles_lookup:
  assumes "add_profiles cs ps = Inr rs" and "\<forall>(k, c) \<in> set ps. k = c_platform c"
  shows "set rs = set ps \<union> (\<lambda>c. (c_platform c, c)) ` set cs \<and>
    (distinct (map fst ps) \<longrightarrow> distinct (map fst rs))"
  using assms
proof (induction cs arbitrary: ps)
  case (Cons c cs)
  then have new: "map_of ps (c_platform c) = None"
    and rest: "add_profiles cs (ps @ [(c_platform c, c)]) = Inr rs"
    by (auto split: if_splits)
  have "c_platform c \<notin> fst ` set ps" using new by (metis map_of_eq_None_iff)
  with Cons.IH [OF rest] Cons.prems(2) show ?case by auto
qed simp

text \<open>A registry resolves exactly the profiles it was built from, each by its own platform.\<close>

lemma registry_resolves:
  assumes "make_core_registry items = Inr profiles"
  shows "wp (static_resolve_core profiles platform)
    (\<lambda>c t. t = s \<and> c \<in> set items \<and> c_platform c = platform)
    (\<lambda>e t. t = s \<and> e = KeyError \<and> platform \<notin> c_platform ` set items) s"
proof -
  have add: "add_profiles items [] = Inr profiles"
    using assms by (auto simp: make_core_registry_def split: sum.splits if_splits)
  then have set: "set profiles = (\<lambda>c. (c_platform c, c)) ` set items"
    using add_profiles_lookup [OF add] by simp
  show ?thesis
  proof (cases "map_of profiles platform")
    case None
    then show ?thesis
      using set None [unfolded map_of_eq_None_iff]
      by (simp add: static_resolve_core_def wp_simps image_image)
  next
    case (Some c)
    then show ?thesis
      using set map_of_SomeD [OF Some] by (auto simp: static_resolve_core_def wp_simps)
  qed
qed

section \<open>The service's collaborators over it\<close>

text \<open>
  Calls to other processes act on the \<open>world\<close>. The random source \<open>U\<close> may depend on the
  whole state: that its identifiers are new is a hypothesis of the theorems that need it.
\<close>

definition on_world :: "('w \<Rightarrow> 'r \<times> 'w) \<Rightarrow> 'w manager \<Rightarrow> 'r \<times> 'w manager" where
  "on_world f = (\<lambda>s. case f (world s) of (r, w) \<Rightarrow> (r, s\<lparr>world := w\<rparr>))"

definition memory_services ::
  "'w services \<Rightarrow> ('w manager \<Rightarrow> (exn + uuid) \<times> 'w) \<Rightarrow> 'w manager services" where
  "memory_services X U =
     \<lparr>repo_add = memory_add, repo_get = memory_get, repo_list = memory_list,
      repo_save = memory_save, repo_health = memory_health,
      romm_resolve_game = (\<lambda>i. on_world (romm_resolve_game X i)),
      romm_health = on_world (romm_health X),
      cores_resolve = (\<lambda>p. on_world (cores_resolve X p)),
      cores_health = on_world (cores_health X),
      execution_create = (\<lambda>r. on_world (execution_create X r)),
      execution_inspect = (\<lambda>u. on_world (execution_inspect X u)),
      execution_list = on_world (execution_list X),
      execution_remove = (\<lambda>u. on_world (execution_remove X u)),
      execution_health = on_world (execution_health X),
      stream_provision = (\<lambda>u g. on_world (stream_provision X u g)),
      stream_revoke = (\<lambda>u. on_world (stream_revoke X u)),
      stream_health = on_world (stream_health X),
      clock = on_world (clock X),
      monotonic = on_world (monotonic X),
      sleep = (\<lambda>d. on_world (sleep X d)),
      uuid4 = (\<lambda>s. case U s of (r, w) \<Rightarrow> (r, s\<lparr>world := w\<rparr>))\<rparr>"

definition memory_view :: "'w manager \<Rightarrow> store" where
  "memory_view s = DAList.lookup (sessions s)"

lemma memory_view_world [simp]: "memory_view (s\<lparr>world := w\<rparr>) = memory_view s"
  by (simp add: memory_view_def)

lemma memory_view_update [simp]:
  "memory_view (s\<lparr>sessions := DAList.update k x (sessions s)\<rparr>) = (memory_view s)(k \<mapsto> x)"
  by (simp add: memory_view_def DAList.lookup.rep_eq DAList.update.rep_eq update_conv')

lemma on_world_exactly: "keeps_exactly memory_view (on_world f)"
  by (simp add: keeps_exactly_def on_world_def split: prod.splits)

lemma keeps_exactly_keeps: "keeps_exactly view f \<Longrightarrow> keeps view f"
  by (simp add: keeps_def keeps_exactly_def)

lemma map_snd_sort_key:
  fixes kvs :: "('k \<times> 'v) list"
  shows "map snd (sort_key (\<lambda>kv. f (snd kv)) kvs) = sort_key f (map snd kvs)"
proof -
  have "map snd (insort_key (\<lambda>kv. f (snd kv)) kv kvs) = insort_key f (snd kv) (map snd kvs)"
    for kv and kvs :: "('k \<times> 'v) list"
    by (induction kvs) auto
  then show ?thesis by (induction kvs) (simp_all add: sort_key_def)
qed

lemma lists_store_sort: "lists_store m xs \<Longrightarrow> lists_store m (sort_key s_created_at xs)"
proof -
  assume "lists_store m xs"
  then obtain ks where ks: "distinct ks" "map m ks = map Some xs" unfolding lists_store_def by blast
  then have len: "length ks = length xs" by (metis length_map)
  let ?kvs = "sort_key (\<lambda>kv. s_created_at (snd kv)) (zip ks xs)"
  have "distinct (map fst ?kvs)"
    using ks(1) len by (metis distinct_map distinct_sort map_fst_zip set_sort)
  moreover have "m k = Some x" if "(k, x) \<in> set (zip ks xs)" for k x
    using that ks(2) len by (metis in_set_zip nth_map fst_conv snd_conv)
  then have "map m (map fst ?kvs) = map Some (map snd ?kvs)" by auto
  moreover have "map snd ?kvs = sort_key s_created_at xs" using map_snd_sort_key len by (metis map_snd_zip)
  ultimately show ?thesis unfolding lists_store_def by metis
qed

lemma memory_list_exact:
  "\<exists>ks. distinct ks \<and> set ks = dom (memory_view s) \<and>
     map (memory_view s) ks = map Some (sort_key s_created_at (map snd (DAList.impl_of (sessions s))))"
proof -
  let ?kvs = "sort_key (\<lambda>kv. s_created_at (snd kv)) (DAList.impl_of (sessions s))"
  have dist: "distinct (map fst (DAList.impl_of (sessions s)))" by simp
  then have "distinct (map fst ?kvs)"
    by (metis distinct_map distinct_sort set_sort)
  moreover have "set (map fst ?kvs) = dom (memory_view s)"
    by (simp add: memory_view_def DAList.lookup.rep_eq dom_map_of_conv_image_fst)
  moreover have "map (memory_view s) (map fst ?kvs) = map Some (map snd ?kvs)"
    using dist by (auto simp: memory_view_def DAList.lookup.rep_eq)
  moreover have "map snd ?kvs = sort_key s_created_at (map snd (DAList.impl_of (sessions s)))"
    by (rule map_snd_sort_key)
  ultimately show ?thesis by metis
qed

text \<open>The repository's operations, each on every branch.\<close>

lemma wp_memory_add:
  "wp (memory_add x)
     (\<lambda>_ t. memory_view s (s_session_id x) = None \<and> memory_view t = (memory_view s)(s_session_id x \<mapsto> x))
     (\<lambda>e t. memory_view s (s_session_id x) \<noteq> None \<and> e = ConflictError ''session already exists'' \<and>
        memory_view t = memory_view s) s"
  by (simp add: wp_def memory_add_def) (simp add: memory_view_def)

lemma wp_memory_get: "wp (memory_get k) (\<lambda>r t. t = s \<and> r = memory_view s k) (\<lambda>_ _. False) s"
  by (simp add: wp_def memory_get_def memory_view_def)

lemma wp_memory_list:
  "wp memory_list
     (\<lambda>xs t. t = s \<and> (\<exists>ks. distinct ks \<and> set ks = dom (memory_view s) \<and>
        map (memory_view s) ks = map Some xs) \<and> sorted (map s_created_at xs)) (\<lambda>_ _. False) s"
  using memory_list_exact [of s] by (simp add: wp_def memory_list_def)

lemma wp_memory_save:
  "wp (memory_save x n)
     (\<lambda>_ t. (\<exists>old. memory_view s (s_session_id x) = Some old \<and> s_revision old = n) \<and>
        s_revision x = n + 1 \<and> memory_view t = (memory_view s)(s_session_id x \<mapsto> x))
     (\<lambda>e t. is_conflict_error e \<and> t = s \<and>
        \<not> ((\<exists>old. memory_view s (s_session_id x) = Some old \<and> s_revision old = n) \<and>
           s_revision x = n + 1)) s"
  by (auto simp: wp_def memory_save_def memory_view_def [symmetric] split: option.split)

lemma keeps_uuid_source:
  "keeps_exactly memory_view (\<lambda>s. case U s of (r, w) \<Rightarrow> (r, s\<lparr>world := w\<rparr>))"
  by (simp add: keeps_exactly_def split: prod.splits)

lemma keeps_memory_health: "keeps view memory_health"
  by (simp add: keeps_def memory_health_def returnE_def)

lemmas keeps_all = on_world_exactly keeps_uuid_source
  on_world_exactly [THEN keeps_exactly_keeps] keeps_uuid_source [THEN keeps_exactly_keeps]

interpretation mem: reliable_env "memory_services X U" memory_view
  for X :: "'w services" and U :: "'w manager \<Rightarrow> (exn + uuid) \<times> 'w"
proof (unfold_locales, goal_cases)
  case (1 x s)
  show ?case by (simp add: memory_services_def, rule wp_mono [OF wp_memory_add]) (auto intro: map_le_refl)
next
  case (2 k s)
  show ?case by (simp add: memory_services_def, rule wp_mono [OF wp_memory_get]) (auto simp: map_le_def)
next
  case (3 s)
  show ?case
    by (simp add: memory_services_def, rule wp_mono [OF wp_memory_list]) (auto simp: lists_store_def)
next
  case (4 x n s)
  show ?case by (simp add: memory_services_def, rule wp_mono [OF wp_memory_save]) (auto simp: map_le_def)
next
  case (22 x s)
  show ?case by (simp add: memory_services_def, rule wp_mono [OF wp_memory_add]) (auto simp: map_le_def)
next
  case (23 k s)
  show ?case by (simp add: memory_services_def, rule wp_mono [OF wp_memory_get]) (auto simp: map_le_def)
next
  case (24 s)
  show ?case by (simp add: memory_services_def, rule wp_mono [OF wp_memory_list]) (auto simp: map_le_def)
next
  case (25 s x old n)
  then show ?case
    by (simp add: memory_services_def, intro wp_mono [OF wp_memory_save]) auto
qed (simp_all add: memory_services_def keeps_all keeps_memory_health)

end
