(* ===== verification/SampleDeployment.thy ===== *)
theory SampleDeployment
  imports MemoryRepository
begin

text \<open>
  A concrete environment of the Session Manager: one game, one core, runtimes that become
  healthy at once, a clock that only sleeping advances and the smallest unused identifier
  as the random source. The hypotheses of the theorems about the service hold of it, and
  the model runs on it.
\<close>

record sample_world =
  ticks :: int
  runtimes :: "uuid list"

definition sample_game :: game_record where
  "sample_game = \<lparr>g_romm_rom_id = 7, g_platform = ''snes'', g_canonical_path = ustring_of ''/roms/a.sfc'',
     g_rom_sha256 = replicate 64 (CHR ''a'')\<rparr>"

definition sample_core :: core_profile where
  "sample_core = \<lparr>c_profile_id = ''snes9x'', c_platform = ''snes'', c_max_players = 4\<rparr>"

definition sample_handle :: "uuid \<Rightarrow> runtime_handle" where
  "sample_handle u = \<lparr>h_runtime_id = u, h_state = ''running'', h_health_status = HS_healthy\<rparr>"

definition sample_services :: "sample_world services" where
  "sample_services =
     \<lparr>repo_add = (\<lambda>_. returnE ()), repo_get = (\<lambda>_. returnE None), repo_list = returnE [],
      repo_save = (\<lambda>_ _. returnE ()), repo_health = returnE True,
      romm_resolve_game = static_resolve_game sample_game, romm_health = returnE True,
      cores_resolve = static_resolve_core [(''snes'', sample_core)], cores_health = returnE True,
      execution_create = (\<lambda>r w. (Inr (sample_handle (rr_participant_id r)),
         w\<lparr>runtimes := rr_participant_id r # runtimes w\<rparr>)),
      execution_inspect = (\<lambda>u w. (if u \<in> set (runtimes w) then Inr (sample_handle u)
         else Inl (OrchestrationError ''missing''), w)),
      execution_list = (\<lambda>w. (Inr (map sample_handle (runtimes w)), w)),
      execution_remove = (\<lambda>u w. (Inr (), w\<lparr>runtimes := removeAll u (runtimes w)\<rparr>)),
      execution_health = returnE True,
      stream_provision = (\<lambda>_ _. returnE (replicate 64 (CHR ''0''))),
      stream_revoke = (\<lambda>_. returnE ()), stream_health = returnE True,
      clock = (\<lambda>w. (ticks w, w)), monotonic = (\<lambda>w. (ticks w, w)),
      sleep = (\<lambda>d w. ((), w\<lparr>ticks := ticks w + max 0 d\<rparr>)),
      uuid4 = returnE 0\<rparr>"

text \<open>The identifiers in use, and the smallest one that is not.\<close>

definition used_ids :: "'w manager \<Rightarrow> uuid list" where
  "used_ids s = concat (map (\<lambda>(k, x). k # map p_participant_id (s_participants x))
     (DAList.impl_of (sessions s)))"

definition next_uuid :: "'w manager \<Rightarrow> (exn + uuid) \<times> 'w" where
  "next_uuid s = (case first_match (\<lambda>u. u \<notin> set (used_ids s)) (map word_of_nat [1..<16]) of
       None \<Rightarrow> Inl (OtherException ''no identifier left'') | Some u \<Rightarrow> Inr u, world s)"

abbreviation sample_manager :: "sample_world manager services" where
  "sample_manager \<equiv> memory_services sample_services next_uuid"

definition sample_config :: service_config where
  "sample_config =
     \<lparr>session_ttl = 14400, lobby_lease = 120, participant_idle_timeout = 45, startup_timeout = 180,
      netplay_connect_timeout = 45, poll_interval = 2, runtime_capacity = 8, session_capacity = 4,
      per_user_runtime_capacity = 8\<rparr>"

definition sample_start :: "sample_world manager" where
  "sample_start = \<lparr>sessions = DAList.empty, world = \<lparr>ticks = 100, runtimes = []\<rparr>\<rparr>"

definition alice :: actor where
  "alice = \<lparr>a_user_id = ''alice'', a_display_name = ustring_of ''Alice''\<rparr>"

definition bob :: actor where
  "bob = \<lparr>a_user_id = ''bob'', a_display_name = ustring_of ''Bob''\<rparr>"

definition sample_request :: create_session_request where
  "sample_request = \<lparr>cr_display_name = ustring_of ''Lobby'', cr_romm_rom_id = 7, cr_max_players = 2\<rparr>"

section \<open>The hypotheses hold\<close>

lemma sample_fresh: "uuid4_fresh sample_manager memory_view"
proof -
  have new: "u \<notin> set (map p_participant_id (s_participants x))"
    if u: "u \<notin> set (used_ids s)" and x: "memory_view s k = Some x"
    for s :: "sample_world manager" and u k x
  proof -
    have "(k, x) \<in> set (DAList.impl_of (sessions s))"
      using x unfolding memory_view_def DAList.lookup.rep_eq by (rule map_of_SomeD)
    then have "k # map p_participant_id (s_participants x) \<in>
        (\<lambda>(k, x). k # map p_participant_id (s_participants x)) ` set (DAList.impl_of (sessions s))"
      by (intro image_eqI [of _ _ "(k, x)"]) simp_all
    then have "set (k # map p_participant_id (s_participants x)) \<subseteq> set (used_ids s)"
      unfolding used_ids_def set_concat set_map by (rule UN_upper)
    with u show ?thesis by auto
  qed
  show ?thesis
    unfolding uuid4_fresh_def memory_services_def next_uuid_def
    by (simp split: option.splits del: set_map) (blast dest: first_match_SomeD new)
qed

lemma sample_ends: "ends (on_world f) \<longleftrightarrow> (\<forall>s t. f s \<noteq> (Inl Diverged, t))"
proof
  assume e: "ends (on_world f :: (exn, 'a manager, 'b) prog)"
  show "\<forall>s t. f s \<noteq> (Inl Diverged, t)"
  proof (intro allI notI)
    fix s t assume "f s = (Inl Diverged, t)"
    then have "on_world f \<lparr>sessions = DAList.empty, world = s\<rparr> =
        (Inl Diverged, \<lparr>sessions = DAList.empty, world = s\<rparr>\<lparr>world := t\<rparr>)"
      by (simp add: on_world_def)
    with e show False by (metis ends_iff)
  qed
qed (auto simp: ends_iff on_world_def split: prod.splits)

lemma memory_ends:
  "ends (memory_add x)" "ends (memory_get k)" "ends memory_list" "ends (memory_save x n)"
  by (auto simp: ends_iff memory_add_def memory_get_def memory_list_def memory_save_def split: option.splits)

lemma sample_sound: "sound_setup sample_config sample_manager (\<lambda>s. ticks (world s))"
  unfolding sound_setup_def
proof (intro conjI)
  show "make_service sample_config = Inr sample_config"
    by (simp add: make_service_def sample_config_def)
  show "calls_end sample_manager"
    unfolding calls_end_def memory_services_def
    by (auto simp: memory_ends sample_ends sample_services_def static_resolve_game_def
        static_resolve_core_def returnE_def raiseE_def)
      (auto simp: ends_iff next_uuid_def split: prod.splits option.splits)
  show "steady sample_manager (\<lambda>s. ticks (world s))"
    by (auto simp: steady_def memory_services_def sample_services_def on_world_def)
qed

lemma sample_catalogue: "valid_catalogue sample_manager"
  unfolding valid_catalogue_def memory_services_def sample_services_def
  by (auto simp: on_world_def static_resolve_game_def static_resolve_core_def returnE_def raiseE_def list_all_iff
      game_record_ok_def core_profile_ok_def sample_game_def sample_core_def slug_def slug_pattern_def
      sha256_text_def char_class_defs ustring_of_def split: if_splits prod.splits)

lemma sample_empty [simp]: "memory_view sample_start = Map.empty"
  by (simp add: memory_view_def sample_start_def DAList.lookup.rep_eq DAList.empty.rep_eq fun_eq_iff)

lemma empty_store [simp]: "store_inv ttl Map.empty" "quiet Map.empty"
  "1 \<le> session_capacity cfg \<Longrightarrow> 1 \<le> per_user_runtime_capacity cfg \<Longrightarrow> within_quota cfg Map.empty"
  by (simp_all add: store_inv_def quiet_def within_quota_def active_ids_def seats_def)

section \<open>A run of the model\<close>

lemma sample_run:
  "map (\<lambda>x. (s_state x, map (\<lambda>p. (p_state p, p_player_slot p)) (s_participants x)))
     (case memory_list (serve sample_config sample_manager
        [Create alice sample_request, Join 1 bob] sample_start) of
        (Inr xs, _) \<Rightarrow> xs | _ \<Rightarrow> []) =
   [(OPEN, [(P_ACTIVE, 1), (P_ACTIVE, 2)])]"
  by code_simp

end
