(* ===== verification/ServiceBehaviour.thy ===== *)
theory ServiceBehaviour
  imports SampleDeployment
begin

text \<open>
  What the operations of the Session Manager do, one by one: the state tables they follow,
  whom they serve, which records they return, and what happens to a record whose
  participant a crash left half started.
\<close>

section \<open>The state tables\<close>

definition participant_moves :: "(participant_state \<times> participant_state) set" where
  "participant_moves = {(a, b). b \<in> participant_transitions a}"

lemma moves_step: "b \<in> participant_transitions a \<Longrightarrow> (a, b) \<in> participant_moves\<^sup>*"
  by (auto simp: participant_moves_def)

lemma active_moves: "(P_ACTIVE, P_LEFT) \<in> participant_moves\<^sup>*"
  using moves_step [of P_LEAVING P_ACTIVE] moves_step [of P_LEFT P_LEAVING]
  by (auto intro: rtrancl_trans)

lemma participant_step_moves:
  "participant_step p p' \<Longrightarrow> (p_state p, p_state p') \<in> participant_moves\<^sup>*"
  by (induction rule: participant_step.induct) (auto intro: moves_step active_moves)

text \<open>Each participant keeps its place in the roster and moves along the table.\<close>

definition roster_follows :: "session \<Rightarrow> session \<Rightarrow> bool" where
  "roster_follows x y \<longleftrightarrow>
     (\<forall>i < length (s_participants x). i < length (s_participants y) \<and>
       p_participant_id (s_participants y ! i) = p_participant_id (s_participants x ! i) \<and>
       (p_state (s_participants x ! i), p_state (s_participants y ! i)) \<in> participant_moves\<^sup>*)"

lemma lobby_step_follows:
  assumes "lobby_step ttl x y" and "lobby_inv ttl x"
  shows "(s_state y = s_state x \<or> s_state y \<in> session_transitions (s_state x)) \<and> roster_follows x y"
  using assms(1)
proof cases
  case (move p p' e now)
  have sess: "s_state y = s_state x \<or> s_state y \<in> session_transitions (s_state x)"
    using move(1) by (cases "s_state x"; cases "p_state p'") auto
  have "(p_state q, p_state p') \<in> participant_moves\<^sup>*"
    if "q \<in> set (s_participants x)" "p_participant_id q = p_participant_id p'" for q
    using participant_step_moves [OF move(3)] participant_step_frame(1) [OF move(3)]
      roster_unique [OF assms(2) that(1) move(2)] that(2) by simp
  then show ?thesis using sess move(1,4) by (auto simp: roster_follows_def substitute_def)
next
  case (enter p now)
  then show ?thesis by (auto simp: roster_follows_def nth_append)
next
  case (shut reason now)
  have "(p_state q, p_state (departed now q)) \<in> participant_moves\<^sup>*"
    if "q \<in> set (s_participants x)" for q
    using shut(3) that active_moves by (auto simp: departed_def)
  moreover have "s_state y \<in> session_transitions (s_state x)"
    using shut(1,2) by (cases "s_state x") auto
  ultimately show ?thesis using shut(1,2) by (auto simp: roster_follows_def)
qed

definition session_moves :: "(session_state \<times> session_state) set" where
  "session_moves = {(a, b). b \<in> session_transitions a}"

lemma lobby_steps_follow:
  assumes "(lobby_step ttl)\<^sup>*\<^sup>* x y" and "lobby_inv ttl x"
  shows "lobby_inv ttl y \<and> (s_state x, s_state y) \<in> session_moves\<^sup>* \<and> roster_follows x y"
  using assms(1)
proof induction
  case base
  then show ?case using assms(2) by (simp add: roster_follows_def)
next
  case (step y z)
  have inv: "lobby_inv ttl z" using step.hyps(2) step.IH by (blast intro: lobby_step_inv)
  have one: "s_state z = s_state y \<or> s_state z \<in> session_transitions (s_state y)" "roster_follows y z"
    using lobby_step_follows [OF step.hyps(2)] step.IH by blast+
  have "(s_state y, s_state z) \<in> session_moves\<^sup>*" using one(1) by (auto simp: session_moves_def)
  with step.IH have "(s_state x, s_state z) \<in> session_moves\<^sup>*" by (blast intro: rtrancl_trans)
  moreover have "roster_follows x z"
    using step.IH one(2) unfolding roster_follows_def by (metis rtrancl_trans)
  ultimately show ?case using inv by blast
qed

section \<open>Requests refine the lobby specification\<close>

text \<open>
  A store that developed out of another: each record it holds went through lobby steps,
  starting from the record that was stored under its key or from a new lobby.
\<close>

definition evolved :: "int \<Rightarrow> store \<Rightarrow> store \<Rightarrow> bool" where
  "evolved ttl m m' \<longleftrightarrow>
     (\<forall>k y. m' k = Some y \<longrightarrow> (\<exists>x. m k = Some x \<and> (lobby_step ttl)\<^sup>*\<^sup>* x y) \<or> lobby_reachable ttl y)"

lemma evolved_refl: "evolved ttl m m"
  by (auto simp: evolved_def)

lemma lobby_reachable_steps: "lobby_reachable ttl x \<Longrightarrow> (lobby_step ttl)\<^sup>*\<^sup>* x y \<Longrightarrow> lobby_reachable ttl y"
  unfolding lobby_reachable_def by (meson rtranclp_trans)

lemma evolved_trans: "evolved ttl m m1 \<Longrightarrow> evolved ttl m1 m2 \<Longrightarrow> evolved ttl m m2"
  unfolding evolved_def by (meson lobby_reachable_steps rtranclp_trans)

lemma store_steps_evolved: "store_steps ttl m m' \<Longrightarrow> evolved ttl m m'"
proof (induction rule: rtranclp_induct)
  case base
  then show ?case by (rule evolved_refl)
next
  case (step m1 m2)
  from step.hyps(2) have "evolved ttl m1 m2"
  proof cases
    case gone
    then show ?thesis unfolding evolved_def by (blast dest: map_le_apply)
  next
    case (stored k x y)
    have "m2 j = Some z \<Longrightarrow> j = k \<and> z = y \<or> m1 j = Some z" for j z
      by (drule map_le_apply [OF stored(4)]) (simp split: if_splits)
    then show ?thesis unfolding evolved_def using stored(1,2) by (metis r_into_rtranclp rtranclp.rtrancl_refl)
  qed
  with step.IH show ?case by (rule evolved_trans)
qed

lemma admits_evolved:
  assumes "admits ttl g u m m'"
  shows "evolved ttl m m'"
  using assms
proof cases
  case (added x)
  then have "lobby_reachable ttl x" unfolding lobby_reachable_def by blast
  with added show ?thesis by (auto simp: evolved_def)
next
  case (entered k x y p)
  then show ?thesis by (auto simp: evolved_def)
qed

lemma effect_evolved: "effect ttl P m m' \<Longrightarrow> evolved ttl m m'"
  unfolding effect_def after_def base_def
  by (blast intro: evolved_trans store_steps_evolved admits_evolved)

lemma serve_evolved:
  assumes "uuid4_fresh (memory_services X U) memory_view"
    and "store_inv (session_ttl cfg) (memory_view s)"
  shows "evolved (session_ttl cfg) (memory_view s) (memory_view (serve cfg (memory_services X U) cs s))"
  using assms(2)
proof (induction cs arbitrary: s)
  case Nil
  then show ?case by (simp add: evolved_refl)
next
  case (Cons c cs)
  note eff = mem.perform_effect [OF Cons.prems assms(1) mem.quota_trivial, of c]
  from effect_evolved [OF eff] Cons.IH [OF effect_inv [OF eff]]
  show ?case by (auto intro: evolved_trans)
qed

text \<open>
  C5. The service refines the lobby specification: whatever requests are served and whichever
  collaborator calls fail, each stored session is the result of lobby steps (a participant
  enters, moves or the session closes) from the record that was stored before, or from a
  newly created lobby.
\<close>

theorem requests_refine_lobbies:
  assumes "uuid4_fresh (memory_services X U) memory_view"
    and "store_inv (session_ttl cfg) (memory_view s)"
    and "memory_view (serve cfg (memory_services X U) cs s) k = Some y"
  shows "(\<exists>x. memory_view s k = Some x \<and> (lobby_step (session_ttl cfg))\<^sup>*\<^sup>* x y) \<or>
    lobby_reachable (session_ttl cfg) y"
  using serve_evolved [OF assms(1,2), of cs] assms(3) unfolding evolved_def by blast

theorem requests_refine_lobbies_witness:
  "\<exists>y. memory_view (serve sample_config sample_manager [Create alice sample_request, Join 1 bob]
      sample_start) 1 = Some y \<and> lobby_reachable (session_ttl sample_config) y"
proof -
  have i: "store_inv (session_ttl sample_config) (memory_view sample_start)" by simp
  have "memory_view (serve sample_config sample_manager [Create alice sample_request, Join 1 bob]
      sample_start) 1 \<noteq> None" by code_simp
  then obtain y where y: "memory_view (serve sample_config sample_manager
      [Create alice sample_request, Join 1 bob] sample_start) 1 = Some y" by auto
  from requests_refine_lobbies [OF sample_fresh i y] y show ?thesis by auto
qed



section \<open>Free slots\<close>

text \<open>
  Joining a session below capacity always finds a slot: the smallest slot number that no
  live participant occupies, so the search of \<open>join\<close> never runs out.
\<close>

theorem join_finds_slot:
  assumes "player_count x < s_max_players x"
  shows "\<exists>i. free_slot x = Some i \<and> 1 \<le> i \<and> i \<le> s_max_players x \<and>
    i \<notin> set (map p_player_slot (live_participants x)) \<and>
    (\<forall>j. 1 \<le> j \<longrightarrow> j < i \<longrightarrow> j \<in> set (map p_player_slot (live_participants x)))"
proof -
  let ?occ = "set (map p_player_slot (live_participants x))"
  have "\<not> {1..s_max_players x} \<subseteq> ?occ"
  proof
    assume "{1..s_max_players x} \<subseteq> ?occ"
    then have "card {1..s_max_players x} \<le> card ?occ" by (intro card_mono) simp_all
    also have "\<dots> \<le> length (live_participants x)" by (metis card_length length_map)
    finally show False using assms by (simp add: player_count_def)
  qed
  then obtain i where i: "free_slot x = Some i"
    by (cases "free_slot x") (auto simp: free_slot_def)
  obtain n where n: "n < length [1..s_max_players x]" "i = [1..s_max_players x] ! n"
    "\<forall>m < n. [1..s_max_players x] ! m \<in> ?occ"
    using i unfolding free_slot_def first_match_def find_Some_iff by auto
  have "j \<in> ?occ" if j: "1 \<le> j" "j < i" for j
  proof -
    have "i = 1 + int n" using n(1,2) by (simp add: nth_upto)
    then have "nat (j - 1) < n" "1 + int (nat (j - 1)) \<le> s_max_players x"
      using j free_slot_SomeD(2) [OF i] by auto
    then show ?thesis using n(3) nth_upto [of 1 "nat (j - 1)" "s_max_players x"] j(1) by force
  qed
  with i free_slot_SomeD [OF i] show ?thesis by blast
qed

theorem join_finds_slot_witness:
  "\<exists>x i. player_count x < s_max_players x \<and> free_slot x = Some i"
proof -
  define x where "x = \<lparr>s_session_id = 1, s_display_name = [], s_owner_user_id = ''alice'', s_romm_rom_id = 7,
    s_platform = ''snes'', s_rom_sha256 = [], s_core_profile_id = ''c'', s_max_players = 2, s_state = OPEN,
    s_participants = [], s_created_at = 0, s_updated_at = 0, s_expires_at = 9, s_closed_reason = None,
    s_revision = 0\<rparr>"
  have "player_count x < s_max_players x" by (simp add: x_def player_count_def live_participants_def)
  from this join_finds_slot [OF this] show ?thesis by blast
qed

section \<open>Nicknames\<close>

text \<open>
  The nickname passed to the emulator is never empty and its UTF-8 encoding fits
  RetroArch's 32-byte field with the terminating NUL.
\<close>

theorem nickname_fits:
  assumes "participant_ok p"
  shows "1 \<le> length (netplay_player_name p) \<and> utf8_length (netplay_player_name p) < 32"
  using player_name_fits [OF assms] by simp

theorem nickname_fits_witness:
  "\<exists>p. participant_ok p \<and> utf8_length (p_display_name p) > 31 \<and>
     1 \<le> length (netplay_player_name p) \<and> utf8_length (netplay_player_name p) < 32"
proof -
  define p where "p = \<lparr>p_participant_id = 1, p_session_id = 1, p_user_id = ''bob'',
    p_display_name = replicate 16 0x1F3AE, p_player_slot = 2, p_runtime_id = None, p_stream_path = None,
    p_state = P_ACTIVE, p_joined_at = 0, p_last_heartbeat = 0\<rparr>"
  have ok: "participant_ok p"
    by (simp add: p_def participant_ok_def safe_user_id_def char_class_defs)
  have "utf8_length (p_display_name p) > 31"
    by (simp add: p_def utf8_length_def utf8_size_def sum_list_replicate)
  with ok nickname_fits [OF ok] show ?thesis by blast
qed

section \<open>Authorisation\<close>

text \<open>How the in-memory service reads a session.\<close>

lemma memory_required:
  "required (memory_services X U) k s =
     (case memory_view s k of None \<Rightarrow> Inl (NotFoundError ''session not found'') | Some x \<Rightarrow> Inr x, s)"
  by (simp add: required_def memory_services_def memory_get_def bindE_def memory_view_def
      raiseE_def returnE_def split: option.split)

text \<open>
  Closing is the owner's: for anybody else \<open>close\<close> raises and changes nothing at all, not
  even by calling another service.
\<close>

theorem close_only_owner:
  assumes "memory_view s k = Some x" and "s_owner_user_id x \<noteq> a_user_id actor"
  shows "close (memory_services X U) k actor s =
    (Inl (AuthorizationError ''only the session owner may close it''), s)"
  using assms by (simp add: close_def bindE_def memory_required raiseE_def)

theorem close_only_owner_witness:
  "\<exists>s. close sample_manager 1 bob s = (Inl (AuthorizationError ''only the session owner may close it''), s)"
proof -
  let ?s = "serve sample_config sample_manager [Create alice sample_request] sample_start"
  have "(case memory_view ?s 1 of None \<Rightarrow> False | Some x \<Rightarrow> s_owner_user_id x = ''alice'')" by code_simp
  then obtain x where x: "memory_view ?s 1 = Some x" "s_owner_user_id x = ''alice''"
    by (auto split: option.splits)
  have "s_owner_user_id x \<noteq> a_user_id bob" using x(2) by (simp add: bob_def)
  from close_only_owner [OF x(1) this] show ?thesis by blast
qed

text \<open>
  Kicking is the owner's too, and never of the owner: a request by somebody else, or one
  that names the owner, raises and leaves every stored session as it was.
\<close>

theorem kick_only_owner:
  assumes "memory_view s k = Some x" and "s_state x = CLOSED \<or> clock X (world s) = (now, w) \<and> now < s_expires_at x"
    and "s_owner_user_id x \<noteq> a_user_id actor \<or>
      (\<exists>p. first_match (\<lambda>p. p_participant_id p = pid) (s_participants x) = Some p \<and>
         p_user_id p = s_owner_user_id x)"
  shows "\<exists>e t. kick (memory_services X U) k actor pid s = (Inl e, t) \<and> memory_view t = memory_view s \<and>
    e \<in> {AuthorizationError ''only the session owner may kick a participant'',
      ConflictError ''session owner cannot be kicked; close the session instead''}"
proof -
  let ?D = "memory_services X U"
  have ex: "\<exists>w'. expire ?D x s = (Inr x, s\<lparr>world := w'\<rparr>)"
  proof (cases "s_state x = CLOSED")
    case True
    then have "expire ?D x s = (Inr x, s\<lparr>world := world s\<rparr>)" by (simp add: expire_def returnE_def)
    then show ?thesis by blast
  next
    case False
    then have "expire ?D x s = (Inr x, s\<lparr>world := w\<rparr>)"
      using assms(2) by (auto simp: expire_def returnE_def bindE_def liftE_def memory_services_def on_world_def)
    then show ?thesis by blast
  qed
  then obtain w' where w': "expire ?D x s = (Inr x, s\<lparr>world := w'\<rparr>)" by blast
  show ?thesis
    using assms(1,3) by (auto simp: kick_def bindE_def memory_required w' raiseE_def)
qed

theorem kick_only_owner_witness:
  "\<exists>s e t. kick sample_manager 1 bob 2 s = (Inl e, t) \<and> memory_view t = memory_view s"
proof -
  let ?s = "serve sample_config sample_manager [Create alice sample_request] sample_start"
  have "(case memory_view ?s 1 of None \<Rightarrow> False
      | Some x \<Rightarrow> s_owner_user_id x = ''alice'' \<and> ticks (world ?s) < s_expires_at x)" by code_simp
  then obtain x where x: "memory_view ?s 1 = Some x" "s_owner_user_id x = ''alice''"
    "ticks (world ?s) < s_expires_at x"
    by (auto split: option.splits)
  have c: "clock sample_services (world ?s) = (ticks (world ?s), world ?s)"
    by (simp add: sample_services_def)
  have o: "s_owner_user_id x \<noteq> a_user_id bob" using x(2) by (simp add: bob_def)
  have "\<exists>e t. kick (memory_services sample_services next_uuid) 1 bob 2 ?s = (Inl e, t) \<and>
      memory_view t = memory_view ?s \<and>
      e \<in> {AuthorizationError ''only the session owner may kick a participant'',
        ConflictError ''session owner cannot be kicked; close the session instead''}"
    by (rule kick_only_owner [OF x(1)]) (use c x(3) o in auto)
  then show ?thesis by blast
qed

section \<open>Launching a stream\<close>

lemma wp_anything: "wp f (\<lambda>_ _. True) (\<lambda>_ _. True) s"
  by (simp add: wp_def split: prod.splits sum.splits)

lemma close_session_result:
  "s_state x \<noteq> CLOSED \<Longrightarrow> wp (close_session D x reason)
     (\<lambda>y _. \<exists>now. y = closed_session x (map (departed now) (s_participants x)) now reason) (\<lambda>_ _. True) s"
  unfolding close_session_def Let_def wp_simps wp_left_all
  by (auto simp: wp_liftE split: sum.splits option.splits prod.splits intro!: wp_mono [OF wp_anything])

lemma expire_result:
  "wp (expire D x) (\<lambda>y _. y = x \<or> s_state y = CLOSED \<and> active_list y = []) (\<lambda>_ _. True) s"
  unfolding expire_def wp_simps
  by (auto simp: wp_liftE split: prod.splits intro!: wp_mono [OF close_session_result])
    (auto simp: active_list_def filter_empty_conv)

text \<open>
  A launch is for an active participant only: when \<open>launch\<close> returns, the actor has an
  active participant in the stored session, the path is that participant's own stream and
  the credential is the one the stream provider issued for it; the launch expires with the
  session's lease.
\<close>

theorem launch_is_for_active:
  assumes inv: "store_inv ttl (memory_view s)"
    and run: "launch (memory_services X U) k actor s = (Inr l, t)"
  shows "\<exists>x p u v. memory_view s k = Some x \<and> p \<in> set (s_participants x) \<and>
    p_user_id p = a_user_id actor \<and> p_state p = P_ACTIVE \<and>
    l_stream_path l = ''/stream/'' @ uuid_hex (p_participant_id p) @ ''/'' \<and>
    stream_provision (memory_services X U) (p_participant_id p) 1 u = (Inr (l_access_token l), v) \<and>
    l_expires_at l = s_expires_at x"
proof -
  let ?D = "memory_services X U"
  obtain x where x: "memory_view s k = Some x"
    using run by (auto simp: launch_def bindE_def memory_required split: option.splits)
  obtain y s2 where y: "expire ?D x s = (Inr y, s2)"
    using run x by (auto simp: launch_def bindE_def memory_required split: prod.splits sum.splits)
  obtain p where p: "active_participant y (a_user_id actor) = Some p"
    using run x y by (auto simp: launch_def bindE_def memory_required raiseE_def split: option.splits)
  have member: "p \<in> set (active_list y)" "p_user_id p = a_user_id actor"
    using first_match_SomeD [OF p [unfolded active_participant_def]] by auto
  then have yx: "y = x" using wp_run(1) [OF expire_result y] by (auto simp del: active_list_mem)
  have path: "p_stream_path p = Some (stream_path_of (p_participant_id p))"
    using inv x member by (auto simp: store_inv_def lobby_inv_def roster_inv_def yx)
  obtain token v where tok: "stream_provision ?D (p_participant_id p) 1 s2 = (Inr token, v)"
    "l = \<lparr>l_stream_path = stream_path_of (p_participant_id p) @ ''/'', l_access_token = token,
       l_expires_at = s_expires_at x\<rparr>"
    using run x y p path
    by (auto simp: launch_def bindE_def memory_required yx resultE_def make_stream_launch_def construct_def
        split: prod.splits sum.splits if_splits)
  show ?thesis
    using x member tok by (auto simp: yx stream_path_of_def)
qed

theorem launch_is_for_active_witness:
  "\<exists>s l t x. launch sample_manager 1 alice s = (Inr l, t) \<and> memory_view s 1 = Some x \<and>
     l_expires_at l = s_expires_at x"
proof -
  let ?s = "serve sample_config sample_manager [Create alice sample_request] sample_start"
  have inv: "store_inv (session_ttl sample_config) (memory_view ?s)"
    by (rule mem.serve_store_inv) (use sample_fresh in simp_all)
  have "(case fst (launch sample_manager 1 alice ?s) of Inl _ \<Rightarrow> False | Inr _ \<Rightarrow> True)" by code_simp
  then obtain l where "fst (launch sample_manager 1 alice ?s) = Inr l" by (auto split: sum.splits)
  then obtain t where l: "launch sample_manager 1 alice ?s = (Inr l, t)" by (metis prod.collapse)
  from launch_is_for_active [OF inv l] l show ?thesis by blast
qed

text \<open>
  The launch material always has the declared form: for a credential of 32 to 512
  characters the model accepts every path the service builds.
\<close>

theorem launch_material_valid:
  assumes "32 \<le> length token" and "length token \<le> 512"
  shows "make_stream_launch \<lparr>l_stream_path = stream_path_of u @ ''/'', l_access_token = token, l_expires_at = e\<rparr> =
    Inr \<lparr>l_stream_path = stream_path_of u @ ''/'', l_access_token = token, l_expires_at = e\<rparr>"
proof -
  have "take 32 (uuid_hex u @ ''/'') = uuid_hex u" "drop 32 (uuid_hex u @ ''/'') = ''/''" by simp_all
  then show ?thesis
    using assms uuid_hex_chars [of u]
    by (simp add: make_stream_launch_def construct_def stream_launch_ok_def stream_path_of_def)
qed

theorem launch_material_valid_witness:
  "make_stream_launch \<lparr>l_stream_path = stream_path_of 7 @ ''/'', l_access_token = replicate 64 (CHR ''0''),
     l_expires_at = 5\<rparr> \<noteq> Inl (ValidationError ''field constraint'')"
  using launch_material_valid [of "replicate 64 (CHR ''0'')" 7 5] by simp

section \<open>Heartbeats\<close>

text \<open>
  A heartbeat that returns renews exactly one active participant of the actor and the
  lobby lease: it stores the session it returns, which differs from the stored one only
  in that participant's heartbeat, the update time, the revision and the expiry, now the
  lease from the heartbeat but never past the session's lifetime.
\<close>

theorem heartbeat_renews:
  assumes inv: "store_inv (session_ttl cfg) (memory_view s)"
    and run: "heartbeat cfg (memory_services X U) k actor s = (Inr y, t)"
  shows "\<exists>x p now now'. memory_view s k = Some x \<and> p \<in> set (s_participants x) \<and>
    p_user_id p = a_user_id actor \<and> p_state p = P_ACTIVE \<and>
    y = updated_session x (substitute (p\<lparr>p_last_heartbeat := now\<rparr>) (s_participants x)) (s_state x) now'
      (Some (lease_expiry cfg x now)) \<and>
    memory_view t = (memory_view s)(k \<mapsto> y) \<and> s_expires_at y \<le> s_created_at x + session_ttl cfg"
proof -
  let ?D = "memory_services X U"
  obtain x where x: "memory_view s k = Some x"
    using run by (auto simp: heartbeat_def bindE_def memory_required split: option.splits)
  then have id: "s_session_id x = k" using inv by (simp add: store_inv_def)
  obtain z s2 where z: "expire ?D x s = (Inr z, s2)"
    using run x by (auto simp: heartbeat_def bindE_def memory_required split: prod.splits sum.splits)
  obtain p where p: "active_participant z (a_user_id actor) = Some p"
    using run x z by (auto simp: heartbeat_def bindE_def memory_required raiseE_def split: option.splits)
  have member: "p \<in> set (active_list z)" "p_user_id p = a_user_id actor"
    using first_match_SomeD [OF p [unfolded active_participant_def]] by auto
  then have zx: "z = x" using wp_run(1) [OF expire_result z] by (auto simp del: active_list_mem)
  have open_: "s_state x = OPEN"
    using lobby_inv_active_state [of "session_ttl cfg" x p] inv x member by (auto simp: store_inv_def zx)
  have s2: "memory_view s2 = memory_view s"
  proof -
    have "wp (expire ?D x) (\<lambda>y t. y = x \<longrightarrow> memory_view t = memory_view s) (\<lambda>_ _. True) s"
      unfolding expire_def wp_simps
      by (auto simp: open_ intro!: wp_keeps_exactly_liftE [OF mem.exact_clock]
          wp_mono [OF close_session_result] dest!: arg_cong [of _ _ s_state])
    from wp_run(1) [OF this z] show ?thesis by (simp add: zx)
  qed
  obtain now s3 where c: "clock ?D s2 = (now, s3)" by (cases "clock ?D s2")
  have s3: "memory_view s3 = memory_view s2"
    using mem.exact_clock [of X U] c unfolding keeps_exactly_def by (metis snd_conv)
  let ?p = "p\<lparr>p_last_heartbeat := now\<rparr>"
  have rep: "replace_participant ?D x ?p (s_state x) False (Some (lease_expiry cfg x now)) s3 = (Inr y, t)"
    using run x z p c by (simp add: heartbeat_def bindE_def memory_required zx liftE_def)
  have "wp (replace_participant ?D x ?p (s_state x) False (Some (lease_expiry cfg x now)))
      (\<lambda>y t. \<exists>now'. y = updated_session x (substitute ?p (s_participants x)) (s_state x) now'
          (Some (lease_expiry cfg x now)) \<and> memory_view t = (memory_view s)(k \<mapsto> y)) (\<lambda>_ _. False) s3"
    by (rule mem.wp_replace_exact) (auto simp: s3 s2 x id)
  from wp_run(1) [OF this rep] obtain now' where
    "y = updated_session x (substitute ?p (s_participants x)) (s_state x) now' (Some (lease_expiry cfg x now))"
    "memory_view t = (memory_view s)(k \<mapsto> y)" by blast
  then show ?thesis using x member lease_expiry_le [of cfg x now] by (auto simp: zx)
qed

theorem heartbeat_renews_witness:
  "\<exists>s y t x. heartbeat sample_config sample_manager 1 alice s = (Inr y, t) \<and>
     memory_view t = (memory_view s)(1 \<mapsto> y) \<and> memory_view s 1 = Some x \<and>
     s_expires_at y \<le> s_created_at x + session_ttl sample_config"
proof -
  let ?s = "serve sample_config sample_manager [Create alice sample_request] sample_start"
  have inv: "store_inv (session_ttl sample_config) (memory_view ?s)"
    by (rule mem.serve_store_inv) (use sample_fresh in simp_all)
  have "(case fst (heartbeat sample_config sample_manager 1 alice ?s) of Inl _ \<Rightarrow> False | Inr _ \<Rightarrow> True)"
    by code_simp
  then obtain y where "fst (heartbeat sample_config sample_manager 1 alice ?s) = Inr y"
    by (auto split: sum.splits)
  then obtain t where y: "heartbeat sample_config sample_manager 1 alice ?s = (Inr y, t)"
    by (metis prod.collapse)
  from heartbeat_renews [OF inv y] y show ?thesis by blast
qed

section \<open>Records with a half-started participant\<close>

text \<open>
  A crash of the manager between two writes of \<open>_start_participant\<close> leaves a participant in
  \<open>ALLOCATING\<close> or \<open>STARTING\<close>. The transition table lets neither move to \<open>LEAVING\<close>, which
  \<open>_left_participant\<close> requires.
\<close>

lemma close_half_started:
  assumes "s_state x \<noteq> CLOSED" and "p \<in> set (s_participants x)" and "half_started p"
  shows "wp (close_session D x reason) (\<lambda>_ _. False) (\<lambda>_ _. True) s"
proof -
  obtain q where "List.find half_started (s_participants x) = Some q"
    using assms(2,3) by (cases "List.find half_started (s_participants x)") (auto simp: find_None_iff)
  then show ?thesis
    using assms(1) unfolding close_session_def Let_def wp_simps wp_left_all
    by (auto simp: wp_liftE split: sum.splits prod.splits intro!: wp_mono [OF wp_anything])
qed

lemma memory_close_frame:
  assumes "s_session_id z \<noteq> k"
  shows "wp (close_session (memory_services X U) z reason) (\<lambda>_ t. memory_view t k = memory_view s k)
    (\<lambda>_ t. memory_view t k = memory_view s k) s"
proof -
  let ?P = "\<lambda>t. memory_view t k = memory_view s k"
  have save: "wp (memory_save y n) (\<lambda>_. ?P) (\<lambda>_. ?P) t" if "?P t" "s_session_id y \<noteq> k" for y n t
    by (rule wp_mono [OF wp_memory_save]) (use that in auto)
  have loop: "wp (forE (\<lambda>p. if is_live p then retire_runtime (memory_services X U) (p_participant_id p)
      else returnE ()) ps) R (\<lambda>_. ?P) t"
    if "?P t" "\<And>u. ?P u \<Longrightarrow> R () u" for ps R t
    by (rule wp_forE [where I = "\<lambda>_. ?P"])
      (use that in \<open>auto simp: wp_simps intro!: mem.wp_exact_teardown\<close>)
  show ?thesis
    unfolding close_session_def Let_def wp_simps wp_left_all
    using assms
    by (auto split: sum.splits option.splits intro!: wp_keeps_exactly_liftE [OF mem.exact_clock] loop save)
      (auto simp: memory_services_def intro!: save)
qed

text \<open>
  C7. A stored session with a half-started participant can never be closed: \<open>close_session\<close>
  (so closing by the owner, expiry and the sweeper's closings) raises and leaves every
  record unchanged, after removing the runtimes.
\<close>

theorem half_started_cannot_close:
  assumes "s_state x \<noteq> CLOSED" and "p \<in> set (s_participants x)" and "half_started p"
  shows "\<exists>e t. close_session (memory_services X U) x reason s = (Inl e, t) \<and> memory_view t = memory_view s"
proof -
  have "wp (close_session (memory_services X U) x reason) (\<lambda>_ _. True) (\<lambda>_ t. memory_view t = memory_view s) s"
  proof -
    obtain q where q: "List.find half_started (s_participants x) = Some q"
      using assms(2,3) by (cases "List.find half_started (s_participants x)") (auto simp: find_None_iff)
    have loop: "wp (forE (\<lambda>p. if is_live p then retire_runtime (memory_services X U) (p_participant_id p)
        else returnE ()) ps) (\<lambda>_ t. memory_view t = memory_view s) (\<lambda>_ t. memory_view t = memory_view s) t"
      if "memory_view t = memory_view s" for ps t
      by (rule wp_forE [where I = "\<lambda>_ t. memory_view t = memory_view s"])
        (use that in \<open>auto simp: wp_simps intro!: mem.wp_exact_teardown\<close>)
    show ?thesis
      unfolding close_session_def Let_def wp_simps wp_left_all q option.case
      using assms(1) by (auto split: sum.splits intro!: wp_keeps_exactly_liftE [OF mem.exact_clock] loop)
  qed
  with close_half_started [OF assms, of "memory_services X U" reason s]
  show ?thesis by (auto simp: wp_def split: prod.splits sum.splits)
qed

text \<open>A record such a crash leaves: Alice is active, Bob was being started.\<close>

definition sample_participant :: "uuid \<Rightarrow> actor \<Rightarrow> int \<Rightarrow> participant_state \<Rightarrow> participant" where
  "sample_participant u a slot st =
     \<lparr>p_participant_id = u, p_session_id = 1, p_user_id = a_user_id a, p_display_name = a_display_name a,
      p_player_slot = slot, p_runtime_id = None,
      p_stream_path = (if st = P_ACTIVE then Some (stream_path_of u) else None),
      p_state = st, p_joined_at = 100, p_last_heartbeat = 100\<rparr>"

definition crashed_session :: session where
  "crashed_session =
     \<lparr>s_session_id = 1, s_display_name = ustring_of ''Lobby'', s_owner_user_id = ''alice'', s_romm_rom_id = 7,
      s_platform = ''snes'', s_rom_sha256 = g_rom_sha256 sample_game, s_core_profile_id = ''snes9x'',
      s_max_players = 4, s_state = OPEN,
      s_participants = [sample_participant 2 alice 1 P_ACTIVE, sample_participant 3 bob 2 P_STARTING],
      s_created_at = 100, s_updated_at = 100, s_expires_at = 220, s_closed_reason = None, s_revision = 4\<rparr>"

definition crashed_start :: "sample_world manager" where
  "crashed_start = sample_start\<lparr>sessions := DAList.update 1 crashed_session DAList.empty,
     world := \<lparr>ticks = 100, runtimes = [2, 3]\<rparr>\<rparr>"

lemma crashed_view: "memory_view crashed_start = [1 \<mapsto> crashed_session]"
  by (simp add: crashed_start_def memory_view_def DAList.lookup.rep_eq DAList.update.rep_eq
      DAList.empty.rep_eq fun_eq_iff)

lemma crashed_half_started:
  "s_state crashed_session \<noteq> CLOSED" "sample_participant 3 bob 2 P_STARTING \<in> set (s_participants crashed_session)"
  "half_started (sample_participant 3 bob 2 P_STARTING)"
  by (simp_all add: crashed_session_def half_started_def is_live_def sample_participant_def)

theorem half_started_cannot_close_witness:
  "\<exists>e t. close_session sample_manager crashed_session ''owner_closed'' crashed_start = (Inl e, t) \<and>
     memory_view t = memory_view crashed_start"
  using half_started_cannot_close [OF crashed_half_started] by blast

text \<open>
  One such record stops the start-up reconciliation: if the store holds it,
  \<open>reconcile_startup\<close> raises, and the record is still there, unchanged and not closed.
\<close>

theorem reconcile_blocked:
  assumes inv: "store_inv ttl (memory_view s)" and x: "memory_view s k = Some x"
    and half: "s_state x \<noteq> CLOSED" "p \<in> set (s_participants x)" "half_started p"
  shows "\<exists>e t. reconcile_startup (memory_services X U) s = (Inl e, t) \<and> memory_view t k = Some x"
proof -
  let ?D = "memory_services X U"
  let ?I = "\<lambda>t. memory_view t k = Some x"
  let ?close = "\<lambda>x c. if s_state x \<noteq> CLOSED
    then bindE (close_session ?D x ''manager_restarted'') (\<lambda>_. returnE (c + (1::int))) else returnE c"
  have keyed: "s_session_id z = j" if "memory_view s j = Some z" for j z
    using inv that by (simp add: store_inv_def)
  have stuck: "wp (close_session ?D x r) (\<lambda>_ _. False) (\<lambda>_. ?I) t" if "?I t" for r t
    using half_started_cannot_close [OF half, of X U r t] that by (auto simp: wp_def)
  have other: "wp (close_session ?D z r) (\<lambda>_. ?I) (\<lambda>_. ?I) t" if "?I t" "s_session_id z \<noteq> k" for z r t
    using memory_close_frame [OF that(2), of X U r t] that(1) by simp
  have loop: "wp (foldE ?close xs c) (\<lambda>_ _. False) (\<lambda>_. ?I) t"
    if "?I t" "x \<in> set xs" "\<forall>z \<in> set xs. s_session_id z = k \<longrightarrow> z = x" for xs c t
  proof (rule wp_foldE [where I = "\<lambda>ys _ t. ?I t \<and> x \<in> set ys \<and>
      (\<forall>z \<in> set ys. s_session_id z = k \<longrightarrow> z = x)"], goal_cases)
    case (2 z ys c u)
    then show ?case
      using half(1) by (cases "z = x") (auto simp: wp_simps intro!: wp_mono [OF stuck] wp_mono [OF other])
  qed (use that in auto)
  have "wp (repo_list ?D) (\<lambda>xs t. ?I t \<and> x \<in> set xs \<and> (\<forall>z \<in> set xs. s_session_id z = k \<longrightarrow> z = x))
      (\<lambda>_ _. False) s"
  proof (rule wp_mono [OF mem.list_exact])
    fix xs t
    assume "memory_view t = memory_view s \<and> (\<exists>ks. distinct ks \<and> set ks = dom (memory_view s) \<and>
      map (memory_view s) ks = map Some xs) \<and> sorted (map s_created_at xs)"
    then obtain ks where ks: "memory_view t = memory_view s" "set ks = dom (memory_view s)"
      "map (memory_view s) ks = map Some xs" by blast
    have set: "Some ` set xs = memory_view s ` set ks" using arg_cong [OF ks(3), of set] by simp
    have "x \<in> set xs" using set ks(2) x by (metis domI image_eqI image_iff option.inject)
    moreover have "z = x" if "z \<in> set xs" "s_session_id z = k" for z
      using set that x keyed by (metis image_eqI image_iff option.inject)
    ultimately show "?I t \<and> x \<in> set xs \<and> (\<forall>z \<in> set xs. s_session_id z = k \<longrightarrow> z = x)"
      using ks(1) x by simp
  qed simp
  then have "wp (reconcile_startup ?D) (\<lambda>_ _. False) (\<lambda>_. ?I) s"
    unfolding reconcile_startup_def wp_simps
    by (rule wp_mono) (auto intro!: wp_mono [OF loop])
  then show ?thesis by (auto simp: wp_def split: prod.splits sum.splits)
qed

lemma crashed_lobby: "lobby_inv 14400 crashed_session"
proof -
  have "length (stream_path_of u) = 40" for u by (simp add: stream_path_of_def)
  then have ok: "participant_ok (sample_participant 2 alice 1 P_ACTIVE)"
    "participant_ok (sample_participant 3 bob 2 P_STARTING)"
    by (simp_all add: participant_ok_def sample_participant_def alice_def bob_def safe_user_id_def
        char_class_defs ustring_of_def)
  then show ?thesis
    by (simp add: lobby_inv_def roster_inv_def owner_inv_def phase_inv_def session_fields_ok_def
        crashed_session_def live_participants_def active_list_def is_live_def)
      (simp add: sample_participant_def sample_game_def alice_def safe_user_id_def char_class_defs
        sha256_text_def list_all_iff ustring_of_def)
qed

theorem reconcile_blocked_witness:
  "\<exists>e t. reconcile_startup sample_manager crashed_start = (Inl e, t) \<and>
     memory_view t 1 = Some crashed_session"
proof -
  have inv: "store_inv 14400 (memory_view crashed_start)"
    using crashed_lobby by (simp add: store_inv_def crashed_view) (simp add: crashed_session_def)
  have x: "memory_view crashed_start 1 = Some crashed_session" by (simp add: crashed_view)
  from reconcile_blocked [OF inv x crashed_half_started] show ?thesis by blast
qed


end
