(* ===== verification/Json.thy ===== *)
theory Json
  imports Domain
begin

text \<open>
  JSON documents as \<open>json.loads\<close> returns them, Python's \<open>str\<close> of them, and the text form
  of UUIDs that \<open>uuid.UUID\<close> reads. Objects are association lists in document order with
  distinct keys; a float is kept as its \<open>repr\<close> and
  its integer part, which an infinity or NaN does not have. Text that a person typed
  and paths are \<open>JText\<close>, code points; text known to be ASCII is \<open>JStr\<close>. A reader
  may use either form for ASCII text.
\<close>

text \<open>A code point where a field is restricted to ASCII: any other becomes one that no pattern allows.\<close>

definition narrow :: "nat \<Rightarrow> char" where
  "narrow c = (if c < 128 then char_of c else CHR 0xFF)"

datatype json =
    JNull
  | JBool bool
  | JInt int
  | JFloat string "int option"
  | JStr string
  | JText ustring
  | JList "json list"
  | JObj "(string \<times> json) list"

text \<open>\<open>document[key]\<close> and \<open>document.get(key)\<close>.\<close>

fun json_get :: "json \<Rightarrow> string \<Rightarrow> json option" where
  "json_get (JObj kvs) k = map_of kvs k"
| "json_get _ k = None"

fun is_object :: "json \<Rightarrow> bool" where
  "is_object (JObj kvs) = True"
| "is_object _ = False"

text \<open>\<open>isinstance(value, str)\<close>, with the text.\<close>

fun json_text :: "json \<Rightarrow> string option" where
  "json_text (JStr s) = Some s"
| "json_text (JText t) = Some (map narrow t)"
| "json_text _ = None"

fun json_ustring :: "json \<Rightarrow> ustring option" where
  "json_ustring (JStr s) = Some (ustring_of s)"
| "json_ustring (JText t) = Some t"
| "json_ustring _ = None"

text \<open>
  A JSON reader. Malformed bytes and malformed documents are decode errors; the reader may raise
  others too, such as a \<open>ValueError\<close> for a number of more than 4300 digits.
\<close>

type_synonym reader = "string \<Rightarrow> exn + json"

definition is_decode_error :: "exn \<Rightarrow> bool" where
  "is_decode_error e \<longleftrightarrow>
     e = OtherException ''JSONDecodeError'' \<or> e = OtherException ''UnicodeDecodeError''"

text \<open>\<open>value == True\<close>: Python compares \<open>True\<close>, \<open>1\<close> and \<open>1.0\<close> as equal.\<close>

definition equals_true :: "json \<Rightarrow> bool" where
  "equals_true v \<longleftrightarrow>
     (case v of JBool b \<Rightarrow> b | JInt i \<Rightarrow> i = 1 | JFloat r _ \<Rightarrow> r = ''1.0'' | _ \<Rightarrow> False)"

text \<open>\<open>document == {key: True}\<close>.\<close>

definition equals_flag :: "string \<Rightarrow> json \<Rightarrow> bool" where
  "equals_flag k d \<longleftrightarrow> (case d of JObj [(j, v)] \<Rightarrow> j = k \<and> equals_true v | _ \<Rightarrow> False)"

section \<open>Text of a document\<close>

definition escape_char :: "char \<Rightarrow> char \<Rightarrow> string" where
  "escape_char q c =
     (if c = q \<or> c = CHR 0x5C then [CHR 0x5C, c]
      else if c = CHR 0x0A then [CHR 0x5C, CHR ''n'']
      else if c = CHR 0x0D then [CHR 0x5C, CHR ''r'']
      else if c = CHR 0x09 then [CHR 0x5C, CHR ''t'']
      else if (of_char c :: nat) < 32 \<or> (of_char c :: nat) = 127
      then [CHR 0x5C, CHR ''x''] @ hex_of_nat 2 (of_char c)
      else [c])"

definition repr_str :: "string \<Rightarrow> string" where
  "repr_str s =
     (let q = (if CHR 0x27 \<in> set s \<and> CHR 0x22 \<notin> set s then CHR 0x22 else CHR 0x27)
      in [q] @ concat (map (escape_char q) s) @ [q])"

fun join_with :: "string \<Rightarrow> string list \<Rightarrow> string" where
  "join_with sep [] = []"
| "join_with sep [x] = x"
| "join_with sep (x # y # zs) = x @ sep @ join_with sep (y # zs)"

fun py_repr :: "json \<Rightarrow> string" where
  "py_repr JNull = ''None''"
| "py_repr (JBool b) = (if b then ''True'' else ''False'')"
| "py_repr (JInt i) = str_of_int i"
| "py_repr (JFloat r t) = r"
| "py_repr (JStr s) = repr_str s"
| "py_repr (JText t) = repr_str (map narrow t)"
| "py_repr (JList xs) = ''['' @ join_with '', '' (map py_repr xs) @ '']''"
| "py_repr (JObj kvs) =
     ''{'' @ join_with '', '' (map (\<lambda>(k, v). repr_str k @ '': '' @ py_repr v) kvs) @ ''}''"

definition py_str :: "json \<Rightarrow> string" where
  "py_str v = (case json_text v of Some s \<Rightarrow> s | None \<Rightarrow> py_repr v)"

section \<open>Reading integers and UUIDs\<close>

definition digit_value :: "char \<Rightarrow> nat option" where
  "digit_value c =
     (if is_digit_ascii c then Some (of_char c - 48)
      else if is_lower_ascii c then Some (of_char c - 87)
      else if is_alnum_ascii c then Some (of_char c - 55)
      else None)"

text \<open>Digits of a base, single underscores between them allowed; \<open>prev\<close> is whether one may follow.\<close>

fun read_digits :: "nat \<Rightarrow> bool \<Rightarrow> nat \<Rightarrow> string \<Rightarrow> nat option" where
  "read_digits b prev acc [] = (if prev then Some acc else None)"
| "read_digits b prev acc (c # cs) =
     (if c = CHR ''_'' then (if prev then read_digits b False acc cs else None)
      else case digit_value c of
             None \<Rightarrow> None
           | Some d \<Rightarrow> if d < b then read_digits b True (acc * b + d) cs else None)"

definition is_py_space :: "char \<Rightarrow> bool" where
  "is_py_space c \<longleftrightarrow> (of_char c :: nat) \<in> {9, 10, 11, 12, 13, 28, 29, 30, 31, 32, 133, 160}"

text \<open>\<open>int(text, 16)\<close>: surrounding space, a sign and a \<open>0x\<close> prefix are allowed.\<close>

definition drop_hex_prefix :: "string \<Rightarrow> string" where
  "drop_hex_prefix s =
     (if take 2 s = ''0x'' \<or> take 2 s = ''0X''
      then (if take 1 (drop 2 s) = ''_'' then drop 3 s else drop 2 s) else s)"

definition int_of_hex :: "string \<Rightarrow> int option" where
  "int_of_hex s =
     (let t = strip is_py_space s;
          neg = (take 1 t = ''-'');
          u = (if take 1 t = ''-'' \<or> take 1 t = ''+'' then drop 1 t else t)
      in map_option (\<lambda>n. if neg then - int n else int n) (read_digits 16 False 0 (drop_hex_prefix u)))"

text \<open>
  \<open>int(value)\<close> of a document: text is read as decimal, a float is truncated; a container or
  \<open>None\<close> is a type error and an infinity overflows.
\<close>

definition int_of_dec :: "string \<Rightarrow> int option" where
  "int_of_dec s =
     (if 4300 < length (filter is_digit_ascii s) then None else
      let t = strip is_py_space s;
          neg = (take 1 t = ''-'');
          u = (if take 1 t = ''-'' \<or> take 1 t = ''+'' then drop 1 t else t)
      in map_option (\<lambda>n. if neg then - int n else int n) (read_digits 10 False 0 u))"

definition json_int :: "json \<Rightarrow> exn + int" where
  "json_int v =
     (case json_text v of
        Some s \<Rightarrow> (case int_of_dec s of Some i \<Rightarrow> Inr i | None \<Rightarrow> Inl (ValueError ''invalid literal for int()''))
      | None \<Rightarrow> case v of
        JInt i \<Rightarrow> Inr i
      | JBool b \<Rightarrow> Inr (if b then 1 else 0)
      | JFloat r (Some i) \<Rightarrow> Inr i
      | JFloat r None \<Rightarrow>
          if r = ''nan'' then Inl (ValueError ''cannot convert float NaN to integer'')
          else Inl (OtherException ''OverflowError'')
      | _ \<Rightarrow> Inl (OtherException ''TypeError''))"

text \<open>\<open>s.replace(pat, "")\<close> for a pattern that is not empty.\<close>

fun remove_all_fuel :: "nat \<Rightarrow> string \<Rightarrow> string \<Rightarrow> string" where
  "remove_all_fuel 0 pat s = s"
| "remove_all_fuel (Suc n) pat s =
     (case s of
        [] \<Rightarrow> []
      | c # cs \<Rightarrow> if take (length pat) s = pat then remove_all_fuel n pat (drop (length pat) s)
                  else c # remove_all_fuel n pat cs)"

definition remove_all :: "string \<Rightarrow> string \<Rightarrow> string" where
  "remove_all pat s = remove_all_fuel (length s) pat s"

text \<open>\<open>uuid.UUID(text)\<close>.\<close>

definition uuid_of_str :: "string \<Rightarrow> uuid option" where
  "uuid_of_str s =
     (let t = remove_all ''uuid:'' (remove_all ''urn:'' s);
          h = filter (\<lambda>c. c \<noteq> CHR ''-'') (strip (\<lambda>c. c = CHR ''{'' \<or> c = CHR ''}'') t)
      in if length h \<noteq> 32 then None
         else case int_of_hex h of
                None \<Rightarrow> None
              | Some i \<Rightarrow> if 0 \<le> i \<and> i < 2 ^ 128 then Some (word_of_int i) else None)"

section \<open>The text form round-trips\<close>

lemma digit_value_digit_char: "d < 16 \<Longrightarrow> digit_value (digit_char d) = Some d"
  by (drule less_16_cases) (auto simp: digit_value_def char_class_defs)

text \<open>Characters that play a role in the readers and are not hexadecimal digits.\<close>

definition marks :: "char set" where
  "marks = set ''_-{}+:urxX ''"

lemma digit_char_not: "d < 16 \<Longrightarrow> digit_char d \<notin> marks"
  by (drule less_16_cases) (auto simp: marks_def)

lemma digit_char_underscore: "d < 16 \<Longrightarrow> digit_char d \<noteq> CHR ''_''"
  using digit_char_not [of d] by (auto simp: marks_def)

lemma read_hex: "read_digits 16 True acc (hex_of_nat w n @ cs) =
    read_digits 16 True (acc * 16 ^ w + n mod 16 ^ w) cs"
proof (induction w arbitrary: n cs)
  case (Suc w)
  have "n mod 16 ^ Suc w = 16 * (n div 16 mod 16 ^ w) + n mod 16" by (simp add: mod_mult2_eq)
  then show ?case
    using digit_value_digit_char [of "n mod 16"] digit_char_underscore [of "n mod 16"]
    by (simp add: Suc.IH algebra_simps)
qed simp

lemma read_digits_start: "cs \<noteq> [] \<Longrightarrow> hd cs \<noteq> CHR ''_'' \<Longrightarrow> read_digits b False acc cs = read_digits b True acc cs"
  by (cases cs) simp_all

lemma hex_chars_not: "c \<in> set (uuid_hex u) \<Longrightarrow> c \<notin> marks"
proof -
  have "c \<in> set (hex_of_nat w n) \<Longrightarrow> c \<notin> marks" for w n
    by (induction w arbitrary: n) (auto simp: digit_char_not)
  then show "c \<in> set (uuid_hex u) \<Longrightarrow> c \<notin> marks" by (simp add: uuid_hex_def)
qed

lemma strip_same: "\<forall>c \<in> set s. \<not> P c \<Longrightarrow> strip P s = s"
proof -
  assume none: "\<forall>c \<in> set s. \<not> P c"
  have "dropWhile P t = t" if "\<forall>c \<in> set t. \<not> P c" for t using that by (cases t) auto
  from this [OF none] this [of "rev s"] none show ?thesis by (simp add: strip_def)
qed

lemma remove_all_same:
  assumes "pat = c # p" and "c \<notin> set s"
  shows "remove_all pat s = s"
proof -
  have "remove_all_fuel n pat s = s" for n
    using assms(2) by (induction n arbitrary: s) (auto simp: assms(1) split: list.splits)
  then show ?thesis by (simp add: remove_all_def)
qed

lemma int_of_uuid_hex: "int_of_hex (uuid_hex u) = Some (int (unat u))"
proof -
  let ?h = "uuid_hex u"
  have h: "?h = hex_of_nat 32 (unat u)" by (simp add: uuid_hex_def)
  have hex: "is_hex_lower c" if "c \<in> set ?h" for c using that uuid_hex_chars [of u] by (simp add: list_all_iff)
  have space: "\<not> is_py_space c" if "c \<in> set ?h" for c
    using hex [OF that] by (auto simp: is_py_space_def char_class_defs)
  have strip: "strip is_py_space ?h = ?h" by (rule strip_same) (use space in blast)
  obtain c d cs where cs: "?h = c # d # cs"
    using length_uuid_hex [of u] by (cases ?h; cases "tl ?h") auto
  have first: "take 1 ?h \<noteq> ''-''" "take 1 ?h \<noteq> ''+''" "hd ?h \<noteq> CHR ''_''" "?h \<noteq> []"
    "take 2 ?h \<noteq> ''0x''" "take 2 ?h \<noteq> ''0X''"
    using hex_chars_not [of c u] hex_chars_not [of d u] by (auto simp: cs marks_def)
  have "read_digits 16 True 0 (hex_of_nat 32 (unat u) @ []) = Some (unat u mod 16 ^ 32)"
    unfolding read_hex by simp
  moreover have "unat u < 16 ^ 32" using unsigned_less [of u, where ?'a = nat] by simp
  ultimately have "read_digits 16 False 0 ?h = Some (unat u)"
    using read_digits_start [OF first(4,3)] by (simp add: h)
  then show ?thesis
    unfolding int_of_hex_def Let_def strip using first by (simp add: drop_hex_prefix_def)
qed

lemma uuid_of_plain:
  assumes none: "CHR ''{'' \<notin> set s" "CHR ''}'' \<notin> set s" "CHR ''u'' \<notin> set s"
    and "filter (\<lambda>c. c \<noteq> CHR ''-'') s = uuid_hex u"
  shows "uuid_of_str s = Some u"
proof -
  have r1: "remove_all ''urn:'' s = s" by (rule remove_all_same [OF refl none(3)])
  have r2: "remove_all ''uuid:'' s = s" by (rule remove_all_same [OF refl none(3)])
  have strip: "strip (\<lambda>c. c = CHR ''{'' \<or> c = CHR ''}'') s = s"
    by (rule strip_same) (use none(1,2) in metis)
  have "int (unat u) < 2 ^ 128" using unsigned_less [of u, where ?'a = int] by simp
  then show ?thesis
    unfolding uuid_of_str_def r1 r2 Let_def strip assms(4) int_of_uuid_hex by simp
qed

lemma drop_split: "drop a h = take b (drop a h) @ drop (a + b) h"
  by (metis add.commute append_take_drop_id drop_drop)

lemma uuid_str_parts: "set (uuid_str u) \<subseteq> insert (CHR ''-'') (set (uuid_hex u))"
  "filter (\<lambda>c. c \<noteq> CHR ''-'') (uuid_str u) = uuid_hex u"
proof -
  let ?h = "uuid_hex u"
  have parts: "set (take i (drop j ?h)) \<subseteq> set ?h" "set (drop j ?h) \<subseteq> set ?h" "set (take i ?h) \<subseteq> set ?h" for i j
    by (meson set_drop_subset set_take_subset subset_trans)+
  show "set (uuid_str u) \<subseteq> insert (CHR ''-'') (set ?h)"
    unfolding uuid_str_def Let_def set_append using parts [THEN subsetD] by auto
  have dash: "CHR ''-'' \<notin> set ?h" using hex_chars_not [of "CHR ''-''" u] by (auto simp: marks_def)
  have keep: "filter (\<lambda>c. c \<noteq> CHR ''-'') t = t" if "set t \<subseteq> set ?h" for t
    by (rule filter_True) (use that dash in blast)
  have "?h = take 8 ?h @ take 4 (drop 8 ?h) @ take 4 (drop 12 ?h) @ take 4 (drop 16 ?h) @ drop 20 ?h"
    using drop_split [of 0 ?h 8] drop_split [of 8 ?h 4] drop_split [of 12 ?h 4] drop_split [of 16 ?h 4] by simp
  then show "filter (\<lambda>c. c \<noteq> CHR ''-'') (uuid_str u) = ?h"
    unfolding uuid_str_def Let_def by (simp add: keep [OF parts(1)] keep [OF parts(2)] keep [OF parts(3)])
qed

text \<open>\<open>UUID(str(u))\<close> and \<open>UUID(u.hex)\<close> give back \<open>u\<close>.\<close>

lemma uuid_roundtrip: "uuid_of_str (uuid_str u) = Some u" "uuid_of_str (uuid_hex u) = Some u"
proof -
  have no: "c \<notin> set (uuid_hex u)" if "c \<in> marks" for c using that hex_chars_not by blast
  have "c \<notin> set (uuid_str u)" if "c \<in> marks" "c \<noteq> CHR ''-''" for c
    using no [OF that(1)] that(2) uuid_str_parts(1) [of u] by blast
  then show "uuid_of_str (uuid_str u) = Some u"
    by (intro uuid_of_plain uuid_str_parts(2)) (simp_all add: marks_def)
  have "filter (\<lambda>c. c \<noteq> CHR ''-'') (uuid_hex u) = uuid_hex u"
    by (rule filter_True) (use no [of "CHR ''-''"] in \<open>auto simp: marks_def\<close>)
  then show "uuid_of_str (uuid_hex u) = Some u"
    by (intro uuid_of_plain) (simp_all add: no marks_def)
qed

lemma uuid_str_inject [simp]: "uuid_str u = uuid_str v \<longleftrightarrow> u = v"
  by (metis option.inject uuid_roundtrip(1))

lemma narrow_ascii: "list_all (\<lambda>c. (of_char c :: nat) < 128) s \<Longrightarrow> map narrow (ustring_of s) = s"
  by (induction s) (auto simp: ustring_of_def narrow_def)

end
