(* ===== verification/Valkey.thy ===== *)
theory Valkey
  imports MemoryRepository Json
begin

text \<open>
  \<open>repositories/valkey.py\<close>: the repository over a Valkey server, with optimistic updates by
  \<open>WATCH\<close>, \<open>MULTI\<close> and \<open>EXEC\<close> and records that expire.

  The client library is the record \<open>valkey_client\<close>, one field per command of the protocols
  \<open>ValkeyClient\<close> and \<open>Pipeline\<close>; the locale \<open>valkey_server\<close> states what the commands do when only expiry
  changes the data behind the client's back. The text of a session is the parameter pair
  \<open>vr_encode\<close> and \<open>vr_decode\<close> (\<open>model_dump_json\<close> and \<open>model_validate_json\<close>); the locale
  \<open>session_codec\<close> states that decoding an encoded session gives that session or fails.
\<close>

section \<open>The client\<close>

record ('v, 's) valkey_client =
  vk_set :: "string \<Rightarrow> 'v \<Rightarrow> int \<Rightarrow> bool \<Rightarrow> (exn, 's, bool) prog"
  vk_get :: "string \<Rightarrow> (exn, 's, 'v option) prog"
  vk_smembers :: "string \<Rightarrow> (exn, 's, string list) prog"
  vk_sadd :: "string \<Rightarrow> string \<Rightarrow> (exn, 's, unit) prog"
  vk_srem :: "string \<Rightarrow> string \<Rightarrow> (exn, 's, unit) prog"
  vk_ping :: "(exn, 's, bool) prog"
  vk_pipeline :: "(exn, 's, unit) prog"
  pl_watch :: "string \<Rightarrow> (exn, 's, unit) prog"
  pl_get :: "string \<Rightarrow> (exn, 's, 'v option) prog"
  pl_multi :: "(exn, 's, unit) prog"
  pl_set :: "string \<Rightarrow> 'v \<Rightarrow> int \<Rightarrow> (exn, 's, unit) prog"
  pl_sadd :: "string \<Rightarrow> string \<Rightarrow> (exn, 's, unit) prog"
  pl_execute :: "(exn, 's, unit) prog"
  pl_reset :: "(exn, 's, unit) prog"

record ('v, 's) valkey_repository =
  vr_client :: "('v, 's) valkey_client"
  vr_namespace :: string
  vr_closed_retention :: int
  vr_encode :: "session \<Rightarrow> 'v"
  vr_decode :: "'v \<Rightarrow> exn + session"
  vr_now :: "'s \<Rightarrow> int \<times> 's"

definition watch_error :: exn where
  "watch_error = OtherException ''WatchError''"

text \<open>\<open>try: f finally: g\<close>: an exception of \<open>g\<close> replaces that of \<open>f\<close>.\<close>

definition finallyE :: "('e, 's, 'a) prog \<Rightarrow> ('e, 's, unit) prog \<Rightarrow> ('e, 's, 'a) prog" where
  "finallyE f g = (\<lambda>s. case f s of (r, t) \<Rightarrow> (case g t of (Inl e, u) \<Rightarrow> (Inl e, u) | (Inr _, u) \<Rightarrow> (r, u)))"

lemma wp_finallyE: "wp (finallyE f g) Q E = wp f (\<lambda>a. wp g (\<lambda>_. Q a) E) (\<lambda>e. wp g (\<lambda>_. E e) E)"
  by (auto simp: fun_eq_iff wp_def finallyE_def split: prod.splits sum.splits)

section \<open>The repository\<close>

definition index_key :: "('v, 's) valkey_repository \<Rightarrow> string" where
  "index_key R = vr_namespace R @ '':index''"

definition session_key :: "('v, 's) valkey_repository \<Rightarrow> uuid \<Rightarrow> string" where
  "session_key R u = vr_namespace R @ '':'' @ uuid_str u"

text \<open>\<open>ceil(delta.total_seconds())\<close> of a time in microseconds.\<close>

definition ceil_seconds :: "int \<Rightarrow> int" where
  "ceil_seconds us = - ((- us) div 1000000)"

definition valkey_ttl :: "('v, 's) valkey_repository \<Rightarrow> session \<Rightarrow> (exn, 's, int) prog" where
  "valkey_ttl R x =
     (if s_state x = CLOSED then returnE (vr_closed_retention R)
      else bindE (liftE (vr_now R)) (\<lambda>now.
           let remaining = s_expires_at x - now in
           returnE (max (vr_closed_retention R) (ceil_seconds remaining + vr_closed_retention R))))"

definition valkey_add :: "('v, 's) valkey_repository \<Rightarrow> session \<Rightarrow> (exn, 's, unit) prog" where
  "valkey_add R x =
     (let K = vr_client R; key = session_key R (s_session_id x) in
      bindE (valkey_ttl R x) (\<lambda>ex.
      bindE (vk_set K key (vr_encode R x) ex True) (\<lambda>created.
      if \<not> created then raiseE (ConflictError ''session already exists'')
      else vk_sadd K (index_key R) key)))"

definition valkey_get :: "('v, 's) valkey_repository \<Rightarrow> uuid \<Rightarrow> (exn, 's, session option) prog" where
  "valkey_get R u =
     bindE (vk_get (vr_client R) (session_key R u)) (\<lambda>v.
     case v of
       None \<Rightarrow> returnE None
     | Some raw \<Rightarrow> bindE (resultE (vr_decode R raw)) (\<lambda>x. returnE (Some x)))"

definition valkey_list :: "('v, 's) valkey_repository \<Rightarrow> (exn, 's, session list) prog" where
  "valkey_list R =
     (let K = vr_client R in
      bindE (vk_smembers K (index_key R)) (\<lambda>keys.
      bindE (foldE (\<lambda>key found.
               bindE (vk_get K key) (\<lambda>v.
               case v of
                 None \<Rightarrow> bindE (vk_srem K (index_key R) key) (\<lambda>_. returnE found)
               | Some raw \<Rightarrow> bindE (resultE (vr_decode R raw)) (\<lambda>x. returnE (found @ [x])))) keys []) (\<lambda>found.
      returnE (sort_key s_created_at found))))"

definition save_commit :: "('v, 's) valkey_repository \<Rightarrow> session \<Rightarrow> (exn, 's, unit) prog" where
  "save_commit R x =
     (let K = vr_client R; key = session_key R (s_session_id x) in
      bindE (pl_multi K) (\<lambda>_.
      bindE (valkey_ttl R x) (\<lambda>ex.
      bindE (pl_set K key (vr_encode R x) ex) (\<lambda>_.
      bindE (pl_sadd K (index_key R) key) (\<lambda>_.
      pl_execute K)))))"

definition save_body :: "('v, 's) valkey_repository \<Rightarrow> session \<Rightarrow> int \<Rightarrow> (exn, 's, unit) prog" where
  "save_body R x expected =
     (let K = vr_client R; key = session_key R (s_session_id x) in
      bindE (pl_watch K key) (\<lambda>_.
      bindE (pl_get K key) (\<lambda>v.
      case v of
        None \<Rightarrow> raiseE (RepositoryConflict ''session disappeared during update'')
      | Some raw \<Rightarrow>
          bindE (resultE (vr_decode R raw)) (\<lambda>current.
          if s_revision current \<noteq> expected \<or> s_revision x \<noteq> expected + 1
          then raiseE (RepositoryConflict ''session revision changed during update'')
          else save_commit R x))))"

definition valkey_save :: "('v, 's) valkey_repository \<Rightarrow> session \<Rightarrow> int \<Rightarrow> (exn, 's, unit) prog" where
  "valkey_save R x expected =
     bindE (vk_pipeline (vr_client R)) (\<lambda>_.
     finallyE (catchE (save_body R x expected)
                 (\<lambda>e. if e = watch_error
                      then raiseE (RepositoryConflict ''session revision changed during update'') else raiseE e))
       (pl_reset (vr_client R)))"

definition valkey_health :: "('v, 's) valkey_repository \<Rightarrow> (exn, 's, bool) prog" where
  "valkey_health R = vk_ping (vr_client R)"

text \<open>
  A record outlives its lease: for a session that is not closed, the expiry the repository sets is at least
  the time left until the lease ends plus the retention period, rounded up to seconds, and is
  never below the retention period, so a positive retention gives the server a valid expiry.
\<close>

theorem ttl_covers_lease:
  assumes "valkey_ttl R x s = (Inr ex, t)" and "s_state x \<noteq> CLOSED" and "vr_now R s = (now, u)"
  shows "s_expires_at x - now + 1000000 * vr_closed_retention R \<le> 1000000 * ex \<and> vr_closed_retention R \<le> ex"
proof -
  have ex: "ex = max (vr_closed_retention R) (ceil_seconds (s_expires_at x - now) + vr_closed_retention R)"
    using assms by (simp add: valkey_ttl_def bindE_def liftE_def returnE_def Let_def)
  have "s_expires_at x - now \<le> 1000000 * ceil_seconds (s_expires_at x - now)"
    unfolding ceil_seconds_def using div_mult_mod_eq [of "- (s_expires_at x - now)" 1000000]
      pos_mod_sign [of 1000000 "- (s_expires_at x - now)"] by linarith
  then show ?thesis unfolding ex by (auto simp: max_def)
qed

definition idle_repository :: "(unit, int) valkey_repository" where
  "idle_repository =
     \<lparr>vr_client = \<lparr>vk_set = (\<lambda>_ _ _ _. returnE True), vk_get = (\<lambda>_. returnE None), vk_smembers = (\<lambda>_. returnE []),
        vk_sadd = (\<lambda>_ _. returnE ()), vk_srem = (\<lambda>_ _. returnE ()), vk_ping = returnE True, vk_pipeline = returnE (),
        pl_watch = (\<lambda>_. returnE ()), pl_get = (\<lambda>_. returnE None), pl_multi = returnE (), pl_set = (\<lambda>_ _ _. returnE ()),
        pl_sadd = (\<lambda>_ _. returnE ()), pl_execute = returnE (), pl_reset = returnE ()\<rparr>,
      vr_namespace = ''s'', vr_closed_retention = 300, vr_encode = (\<lambda>_. ()), vr_decode = (\<lambda>_. Inl KeyError),
      vr_now = (\<lambda>t. (t, t))\<rparr>"

definition leased_session :: session where
  "leased_session = \<lparr>s_session_id = 1, s_display_name = ustring_of ''Lobby'', s_owner_user_id = ''alice'',
     s_romm_rom_id = 7, s_platform = ''snes'', s_rom_sha256 = replicate 64 (CHR ''a''), s_core_profile_id = ''snes9x'',
     s_max_players = 2, s_state = OPEN, s_participants = [], s_created_at = 0, s_updated_at = 0,
     s_expires_at = 120000001, s_closed_reason = None, s_revision = 4\<rparr>"

theorem ttl_covers_lease_witness:
  "valkey_ttl idle_repository leased_session 0 = (Inr 421, 0) \<and> 120000001 + 1000000 * 300 \<le> (1000000 * 421 :: int)"
proof -
  have run: "valkey_ttl idle_repository leased_session 0 = (Inr 421, 0)" by code_simp
  have "s_expires_at leased_session - 0 + 1000000 * vr_closed_retention idle_repository \<le> 1000000 * 421 \<and>
      vr_closed_retention idle_repository \<le> 421"
    by (rule ttl_covers_lease [OF run]) (simp_all add: leased_session_def idle_repository_def)
  with run show ?thesis by (simp add: leased_session_def idle_repository_def)
qed

section \<open>The server's contract\<close>

definition calm :: "('s \<Rightarrow> string \<rightharpoonup> 'v) \<Rightarrow> ('s \<Rightarrow> 'r \<times> 's) \<Rightarrow> bool" where
  "calm held f \<longleftrightarrow> (\<forall>s. held (snd (f s)) \<subseteq>\<^sub>m held s)"

locale session_codec =
  fixes enc :: "session \<Rightarrow> 'v" and dec :: "'v \<Rightarrow> exn + session"
  assumes decode_encode: "dec (enc x) = Inr y \<Longrightarrow> y = x"

locale valkey_server =
  fixes K :: "('v, 's) valkey_client" and held :: "'s \<Rightarrow> string \<rightharpoonup> 'v" and queued :: "'s \<Rightarrow> (string \<times> 'v) list"
    and legit :: "string \<Rightarrow> string \<Rightarrow> bool"
  assumes set_new_law:
    "wp (vk_set K k v ex True)
       (\<lambda>ok t. if ok then \<exists>m. m \<subseteq>\<^sub>m held s \<and> m k = None \<and> held t \<subseteq>\<^sub>m m(k \<mapsto> v) else held t \<subseteq>\<^sub>m held s)
       (\<lambda>_ t. held t \<subseteq>\<^sub>m held s \<or> (\<exists>m. m \<subseteq>\<^sub>m held s \<and> m k = None \<and> held t \<subseteq>\<^sub>m m(k \<mapsto> v))) s"
    and get_value_law:
    "wp (vk_get K k) (\<lambda>r t. held t \<subseteq>\<^sub>m held s \<and> r = held t k) (\<lambda>_ t. held t \<subseteq>\<^sub>m held s) s"
    and smembers_law:
    "wp (vk_smembers K k) (\<lambda>ms t. held t \<subseteq>\<^sub>m held s \<and> distinct ms \<and> (\<forall>m \<in> set ms. legit k m))
       (\<lambda>_ t. held t \<subseteq>\<^sub>m held s) s"
    and calm_sadd: "legit k m \<Longrightarrow> calm held (vk_sadd K k m)"
    and calm_srem: "calm held (vk_srem K k m)"
    and calm_ping: "calm held (vk_ping K)"
    and calm_reset: "calm held (pl_reset K)"
    and pipeline_law: "wp (vk_pipeline K) (\<lambda>_ t. held t \<subseteq>\<^sub>m held s \<and> queued t = []) (\<lambda>_ t. held t \<subseteq>\<^sub>m held s) s"
    and watch_law:
    "wp (pl_watch K k) (\<lambda>_ t. held t \<subseteq>\<^sub>m held s \<and> queued t = queued s) (\<lambda>_ t. held t \<subseteq>\<^sub>m held s) s"
    and read_law:
    "wp (pl_get K k) (\<lambda>r t. held t \<subseteq>\<^sub>m held s \<and> queued t = queued s \<and> r = held t k) (\<lambda>_ t. held t \<subseteq>\<^sub>m held s) s"
    and multi_law:
    "wp (pl_multi K) (\<lambda>_ t. held t \<subseteq>\<^sub>m held s \<and> queued t = queued s) (\<lambda>_ t. held t \<subseteq>\<^sub>m held s) s"
    and queue_law:
    "wp (pl_set K k v ex) (\<lambda>_ t. held t \<subseteq>\<^sub>m held s \<and> queued t = queued s @ [(k, v)]) (\<lambda>_ t. held t \<subseteq>\<^sub>m held s) s"
    and queue_member_law:
    "legit k m \<Longrightarrow> wp (pl_sadd K k m) (\<lambda>_ t. held t \<subseteq>\<^sub>m held s \<and> queued t = queued s) (\<lambda>_ t. held t \<subseteq>\<^sub>m held s) s"
    and execute_law:
    "wp (pl_execute K) (\<lambda>_ t. held t \<subseteq>\<^sub>m held s ++ map_of (rev (queued s)))
       (\<lambda>_ t. \<exists>qs. set qs \<subseteq> set (queued s) \<and> held t \<subseteq>\<^sub>m held s ++ map_of (rev qs)) s"

text \<open>The sessions a key space holds: what decodes under the key of a session.\<close>

definition store_view :: "('v, 's) valkey_repository \<Rightarrow> (string \<rightharpoonup> 'v) \<Rightarrow> store" where
  "store_view R m u =
     (case m (session_key R u) of
        None \<Rightarrow> None
      | Some v \<Rightarrow> (case vr_decode R v of Inl _ \<Rightarrow> None | Inr x \<Rightarrow> Some x))"

lemma session_key_inject [simp]: "session_key R u = session_key R v \<longleftrightarrow> u = v"
  by (simp add: session_key_def)

lemma store_view_mono: "m' \<subseteq>\<^sub>m m \<Longrightarrow> store_view R m' \<subseteq>\<^sub>m store_view R m"
  unfolding map_le_def store_view_def dom_def by (auto split: option.splits)

lemma map_of_single:
  assumes "set qs \<subseteq> {(k, v)}"
  shows "map_of (rev qs) = Map.empty \<or> map_of (rev qs) = [k \<mapsto> v]"
proof -
  have "map_of qs = Map.empty \<or> map_of qs = [k \<mapsto> v]" if "set qs \<subseteq> {(k, v)}" for qs
    using that by (induction qs) auto
  from this [of "rev qs"] show ?thesis using assms by simp
qed

lemma calmI:
  assumes "\<And>s. wp f (\<lambda>_ t. held t \<subseteq>\<^sub>m held s) (\<lambda>_ t. held t \<subseteq>\<^sub>m held s) s"
  shows "calm held f"
  unfolding calm_def
proof
  fix s
  show "held (snd (f s)) \<subseteq>\<^sub>m held s" using assms [of s] by (cases "f s") (auto simp: wp_def split: sum.splits)
qed

lemma wp_calm:
  assumes "calm held f"
    and "\<And>a t. held t \<subseteq>\<^sub>m held s \<Longrightarrow> Q a t"
    and "\<And>e t. held t \<subseteq>\<^sub>m held s \<Longrightarrow> E e t"
  shows "wp f Q E s"
  using assms(1) unfolding calm_def by (metis assms(2,3) snd_conv wp_I)

lemma wp_calm_liftE:
  assumes "calm held f" and "\<And>a t. held t \<subseteq>\<^sub>m held s \<Longrightarrow> Q a t"
  shows "wp (liftE f) Q E s"
  using assms(1) unfolding calm_def wp_liftE by (metis assms(2) case_prod_beta)

locale valkey_store =
  valkey_server "vr_client R" held queued legit + session_codec "vr_encode R" "vr_decode R"
  for R :: "('v, 's) valkey_repository" and held :: "'s \<Rightarrow> string \<rightharpoonup> 'v" and queued :: "'s \<Rightarrow> (string \<times> 'v) list"
    and legit :: "string \<Rightarrow> string \<Rightarrow> bool" +
  assumes now_calm: "calm held (vr_now R)"
    and now_queued: "queued (snd (vr_now R s)) = queued s"
    and index_law: "legit (index_key R) m \<longleftrightarrow> m \<in> range (session_key R)"
begin

abbreviation view :: "'s \<Rightarrow> store" where
  "view s \<equiv> store_view R (held s)"

lemma view_write: "store_view R (m(session_key R u \<mapsto> vr_encode R x)) \<subseteq>\<^sub>m (store_view R m)(u \<mapsto> x)"
  unfolding map_le_def store_view_def dom_def
  by (auto split: option.splits sum.splits if_splits dest: decode_encode)

lemma wp_ttl:
  assumes "\<And>a t. held t \<subseteq>\<^sub>m held s \<Longrightarrow> queued t = queued s \<Longrightarrow> Q a t"
  shows "wp (valkey_ttl R x) Q E s"
proof -
  have "held (snd (vr_now R s)) \<subseteq>\<^sub>m held s" using now_calm by (simp add: calm_def)
  then show ?thesis
    unfolding valkey_ttl_def wp_simps Let_def wp_liftE
    using now_queued [of s] by (cases "vr_now R s") (auto intro!: assms)
qed

lemma add_contract:
  "wp (valkey_add R x)
     (\<lambda>_ t. \<exists>m. m \<subseteq>\<^sub>m view s \<and> m (s_session_id x) = None \<and> view t \<subseteq>\<^sub>m m(s_session_id x \<mapsto> x))
     (\<lambda>_ t. view t \<subseteq>\<^sub>m view s \<or>
        (\<exists>m. m \<subseteq>\<^sub>m view s \<and> m (s_session_id x) = None \<and> view t \<subseteq>\<^sub>m m(s_session_id x \<mapsto> x))) s"
proof -
  let ?k = "session_key R (s_session_id x)" and ?v = "vr_encode R x"
  have new: "\<exists>m. m \<subseteq>\<^sub>m view s \<and> m (s_session_id x) = None \<and> view t \<subseteq>\<^sub>m m(s_session_id x \<mapsto> x)"
    if "m \<subseteq>\<^sub>m held u" "held u \<subseteq>\<^sub>m held s" "m ?k = None" "held w \<subseteq>\<^sub>m m(?k \<mapsto> ?v)" "held t \<subseteq>\<^sub>m held w" for m u w t
  proof (intro exI conjI)
    show "store_view R m \<subseteq>\<^sub>m view s" using that by (blast intro: store_view_mono map_le_trans)
    show "store_view R m (s_session_id x) = None" using that(3) by (simp add: store_view_def)
    have "held t \<subseteq>\<^sub>m m(?k \<mapsto> ?v)" using that(5,4) by (rule map_le_trans)
    from store_view_mono [OF this] view_write show "view t \<subseteq>\<^sub>m (store_view R m)(s_session_id x \<mapsto> x)"
      by (rule map_le_trans)
  qed
  have old: "view t \<subseteq>\<^sub>m view s" if "held t \<subseteq>\<^sub>m held u" "held u \<subseteq>\<^sub>m held s" for t u
    using that by (blast intro: store_view_mono map_le_trans)
  show ?thesis
    unfolding valkey_add_def wp_simps Let_def
  proof (rule wp_ttl, rule wp_mono [OF set_new_law], goal_cases)
    case (1 a u ok w)
    then show ?case
      by (cases ok) (auto intro!: wp_calm [OF calm_sadd] simp: index_law dest: new old)
  next
    case (2 a u e w)
    then show ?case using new [of _ u w w, OF _ _ _ _ map_le_refl] old [of w u] by blast
  qed
qed

lemma get_contract:
  "wp (valkey_get R k) (\<lambda>r t. view t \<subseteq>\<^sub>m view s \<and> r = view t k) (\<lambda>_ t. view t \<subseteq>\<^sub>m view s) s"
  unfolding valkey_get_def wp_simps
  by (rule wp_mono [OF get_value_law]) (auto simp: store_view_def store_view_mono split: option.splits sum.splits)

lemma health_contract: "keeps (\<lambda>s. view s) (valkey_health R)"
  using calm_ping by (simp add: keeps_def calm_def valkey_health_def store_view_mono)

lemma list_contract:
  "wp (valkey_list R) (\<lambda>xs t. view t \<subseteq>\<^sub>m view s \<and> lists_store (view s) xs) (\<lambda>_ t. view t \<subseteq>\<^sub>m view s) s"
proof -
  define I where "I ks xs t \<longleftrightarrow> held t \<subseteq>\<^sub>m held s \<and> (\<exists>us vs. distinct (map (session_key R) us @ ks) \<and>
     ks = map (session_key R) vs \<and> map (view s) us = map Some xs)" for ks xs t
  have skip: "I ks xs u" if "I (k # ks) xs t" "held u \<subseteq>\<^sub>m held t" for k ks xs t u
    using that map_le_trans unfolding I_def by fastforce
  have found: "I ks (xs @ [x]) u"
    if i: "I (k # ks) xs t" and le: "held u \<subseteq>\<^sub>m held t" and v: "held u k = Some v" "vr_decode R v = Inr x"
    for k ks xs t u v x
  proof -
    obtain us w vs where us: "distinct (map (session_key R) us @ k # ks)" "k = session_key R w"
        "ks = map (session_key R) vs" "map (view s) us = map Some xs" "held t \<subseteq>\<^sub>m held s"
      using i unfolding I_def by auto
    have "held s k = Some v" using v(1) le us(5) by (meson map_le_apply)
    then have "view s w = Some x" by (simp add: store_view_def us(2) [symmetric] v(2))
    then show ?thesis
      unfolding I_def using us le
      by (intro conjI exI [of _ "us @ [w]"] exI [of _ vs]) (auto intro: map_le_trans)
  qed
  have start: "I ms [] t" if h: "held t \<subseteq>\<^sub>m held s" "distinct ms" "\<forall>m \<in> set ms. legit (index_key R) m" for ms t
  proof -
    obtain vs where "ms = map (session_key R) vs"
      using h(3) unfolding index_law image_iff by (metis ex_map_conv)
    with h show ?thesis unfolding I_def by (intro conjI exI [of _ "[]"] exI [of _ vs]) simp_all
  qed
  have done_: "view t \<subseteq>\<^sub>m view s \<and> lists_store (view s) (sort_key s_created_at xs)" if "I [] xs t" for xs t
  proof (intro conjI lists_store_sort)
    show "view t \<subseteq>\<^sub>m view s" using that store_view_mono unfolding I_def by blast
    show "lists_store (view s) xs" using that unfolding I_def lists_store_def by (auto simp: distinct_map)
  qed
  have old: "I ks xs t \<Longrightarrow> held u \<subseteq>\<^sub>m held t \<Longrightarrow> view u \<subseteq>\<^sub>m view s" for ks xs t u
    unfolding I_def by (blast intro: store_view_mono map_le_trans)
  show ?thesis
    unfolding valkey_list_def wp_bindE wp_returnE Let_def
  proof (rule wp_mono [OF smembers_law], rule wp_foldE [where I = I], goal_cases)
    case (2 ms t k ks xs u)
    show ?case
      unfolding wp_simps
    proof (rule wp_mono [OF get_value_law], goal_cases)
      case (1 v w)
      then show ?case
        using 2(2)
        by (auto split: option.splits sum.splits intro!: wp_calm [OF calm_srem] intro: found skip old map_le_trans)
    qed (use 2 old in blast)
  qed (use start done_ store_view_mono in auto)
qed

lemma wp_commit:
  assumes "queued s = []"
  shows "wp (save_commit R x)
    (\<lambda>_ t. held t \<subseteq>\<^sub>m (held s)(session_key R (s_session_id x) \<mapsto> vr_encode R x))
    (\<lambda>_ t. held t \<subseteq>\<^sub>m held s \<or> held t \<subseteq>\<^sub>m (held s)(session_key R (s_session_id x) \<mapsto> vr_encode R x)) s"
proof -
  let ?k = "session_key R (s_session_id x)" and ?v = "vr_encode R x"
  have le: "held t \<subseteq>\<^sub>m (held s)(?k \<mapsto> ?v)"
    if "held u \<subseteq>\<^sub>m held s" "queued u = [(?k, ?v)]" "held t \<subseteq>\<^sub>m held u ++ map_of (rev (queued u))" for t u
  proof -
    have "held u ++ map_of (rev (queued u)) \<subseteq>\<^sub>m (held s)(?k \<mapsto> ?v)"
      unfolding that(2) using that(1) by (simp add: map_le_def)
    with that(3) show ?thesis by (rule map_le_trans)
  qed
  have legit: "legit (index_key R) ?k" by (simp add: index_law)
  show ?thesis
    unfolding save_commit_def wp_simps Let_def
  proof (rule wp_mono [OF multi_law], rule wp_ttl, rule wp_mono [OF queue_law], rule wp_mono [OF queue_member_law [OF legit]],
      rule wp_mono [OF execute_law], goal_cases)
    case (1 a t ex u b v c w d z)
    then have "held w \<subseteq>\<^sub>m held s" "queued w = [(?k, ?v)]" using assms by (auto intro: map_le_trans)
    with 1 show ?case by (intro le)
  next
    case (2 a t ex u b v c w e z)
    then have "held w \<subseteq>\<^sub>m held s" "queued w = [(?k, ?v)]" using assms by (auto intro: map_le_trans)
    with 2 obtain qs where "set qs \<subseteq> {(?k, ?v)}" "held z \<subseteq>\<^sub>m held w ++ map_of (rev qs)" by auto
    then show ?case
      using map_of_single [of qs ?k ?v] \<open>held w \<subseteq>\<^sub>m held s\<close> le [of w z] \<open>queued w = [(?k, ?v)]\<close>
      by (auto intro: map_le_trans)
  qed (auto intro: map_le_trans)
qed

lemma save_contract:
  "wp (valkey_save R x n)
     (\<lambda>_ t. \<exists>old. view s (s_session_id x) = Some old \<and> s_revision old = n \<and>
        s_revision x = n + 1 \<and> view t \<subseteq>\<^sub>m (view s)(s_session_id x \<mapsto> x))
     (\<lambda>_ t. view t \<subseteq>\<^sub>m view s \<or>
        (\<exists>old. view s (s_session_id x) = Some old \<and> s_revision old = n \<and>
           s_revision x = n + 1 \<and> view t \<subseteq>\<^sub>m (view s)(s_session_id x \<mapsto> x))) s"
proof -
  let ?k = "session_key R (s_session_id x)" and ?v = "vr_encode R x"
  define good where "good t \<longleftrightarrow> (\<exists>raw old. held s ?k = Some raw \<and> vr_decode R raw = Inr old \<and> s_revision old = n \<and>
     s_revision x = n + 1 \<and> held t \<subseteq>\<^sub>m (held s)(?k \<mapsto> ?v))" for t
  define same where "same t \<longleftrightarrow> held t \<subseteq>\<^sub>m held s" for t
  have still: "same t \<Longrightarrow> held u \<subseteq>\<^sub>m held t \<Longrightarrow> same u" "good t \<Longrightarrow> held u \<subseteq>\<^sub>m held t \<Longrightarrow> good u" for t u
    unfolding same_def good_def by (blast intro: map_le_trans)+
  have body: "wp (save_body R x n) (\<lambda>_. good) (\<lambda>_ t. same t \<or> good t) u" if u: "same u" "queued u = []" for u
    unfolding save_body_def wp_simps Let_def
  proof (rule wp_mono [OF watch_law], rule wp_mono [OF read_law], goal_cases)
    case (1 a t v w)
    then have w: "same w" "queued w = []" "v = held w ?k" using u still(1) by (auto intro: still(1))
    have mono: "(held w)(?k \<mapsto> ?v) \<subseteq>\<^sub>m (held s)(?k \<mapsto> ?v)" using w(1) by (auto simp: same_def map_le_def)
    have "wp (save_commit R x) (\<lambda>_. good) (\<lambda>_ t. same t \<or> good t) w"
      if "held s ?k = Some raw" "vr_decode R raw = Inr old" "s_revision old = n" "s_revision x = n + 1" for raw old
      using wp_commit [OF w(2)]
      by (rule wp_mono) (use that w(1) mono still(1) in \<open>auto simp: good_def intro: map_le_trans\<close>)
    moreover have "held s ?k = Some raw" if "v = Some raw" for raw
      using that w map_le_apply unfolding same_def by metis
    ultimately show ?case using w(1) by (auto split: option.splits sum.splits)
  qed (use u still(1) in auto)
  have result: "view t \<subseteq>\<^sub>m view s" if "same t" for t using that unfolding same_def by (rule store_view_mono)
  have written: "\<exists>old. view s (s_session_id x) = Some old \<and> s_revision old = n \<and> s_revision x = n + 1 \<and>
      view t \<subseteq>\<^sub>m (view s)(s_session_id x \<mapsto> x)" if "good t" for t
    using that map_le_trans [OF store_view_mono [of "held t" "(held s)(?k \<mapsto> ?v)"] view_write]
    unfolding good_def by (auto simp: store_view_def [of R "held s" "s_session_id x"])
  show ?thesis
    unfolding valkey_save_def wp_bindE wp_finallyE wp_catchE
  proof (rule wp_mono [OF pipeline_law], goal_cases)
    case (1 a u)
    then have "same u" "queued u = []" by (simp_all add: same_def)
    from body [OF this] show ?case
      by (rule wp_mono)
        (auto simp: wp_simps intro!: wp_calm [OF calm_reset] dest: still written result)
  qed (use result in \<open>simp add: same_def\<close>)
qed

end

end
