(* ===== verification/ValkeyServer.thy ===== *)
theory ValkeyServer
  imports Valkey ServiceBehaviour
begin

text \<open>
  The Valkey repository at work: a key space with string values and sets, optimistic
  transactions over watched keys, other clients that write between any two commands, records
  that expire, and connections that fail before a command is sent or after it has run.

  On it the repository's \<open>save\<close> is a compare-and-set whatever the other clients do. A deployment
  whose other clients leave the values alone meets the contract \<open>valkey_server\<close>, and through it
  the repository contract the session service relies on.
\<close>

section \<open>The key space\<close>

datatype 'v change =
    Wrote string 'v
  | Vanished string
  | Joined string string
  | Departed string string

fun changed_key :: "'v change \<Rightarrow> string" where
  "changed_key (Wrote k v) = k"
| "changed_key (Vanished k) = k"
| "changed_key (Joined k m) = k"
| "changed_key (Departed k m) = k"

datatype fault = NoFault | Unsent | Unanswered

datatype 'v queued = QSet string 'v int | QAdd string string

text \<open>
  \<open>ks_log\<close> records every change, newest first, with whether this client made it; \<open>ks_script\<close>
  says what the other clients do and what fails before each command that is still to come.
\<close>

record ('v, 'w) key_space =
  ks_values :: "string \<rightharpoonup> 'v"
  ks_sets :: "string \<Rightarrow> string list"
  ks_watched :: "string list"
  ks_touched :: bool
  ks_queue :: "'v queued list"
  ks_log :: "(bool \<times> 'v change) list"
  ks_script :: "('v change list \<times> fault) list"
  ks_world :: 'w

fun change_values :: "'v change \<Rightarrow> (string \<rightharpoonup> 'v) \<Rightarrow> (string \<rightharpoonup> 'v)" where
  "change_values (Wrote k v) m = m(k \<mapsto> v)"
| "change_values (Vanished k) m = m(k := None)"
| "change_values _ m = m"

fun change_sets :: "'v change \<Rightarrow> (string \<Rightarrow> string list) \<Rightarrow> string \<Rightarrow> string list" where
  "change_sets (Joined k m) f = f(k := List.insert m (f k))"
| "change_sets (Departed k m) f = f(k := removeAll m (f k))"
| "change_sets _ f = f"

definition alter :: "bool \<Rightarrow> 'v change \<Rightarrow> ('v, 'w) key_space \<Rightarrow> ('v, 'w) key_space" where
  "alter own c s =
     s\<lparr>ks_values := change_values c (ks_values s), ks_sets := change_sets c (ks_sets s),
       ks_touched := (ks_touched s \<or> changed_key c \<in> set (ks_watched s)), ks_log := (own, c) # ks_log s\<rparr>"

definition connection_error :: exn where
  "connection_error = OtherException ''ConnectionError''"

definition response_error :: exn where
  "response_error = OtherException ''ResponseError''"

definition request :: "(exn, ('v, 'w) key_space, 'r) prog \<Rightarrow> (exn, ('v, 'w) key_space, 'r) prog" where
  "request f s =
     (case ks_script s of
        [] \<Rightarrow> f s
      | (cs, fault) # rest \<Rightarrow>
          let t = fold (alter False) cs (s\<lparr>ks_script := rest\<rparr>) in
          (case fault of
             NoFault \<Rightarrow> f t
           | Unsent \<Rightarrow> (Inl connection_error, t)
           | Unanswered \<Rightarrow> (Inl connection_error, snd (f t))))"

fun run_queued :: "'v queued \<Rightarrow> ('v, 'w) key_space \<Rightarrow> ('v, 'w) key_space" where
  "run_queued (QSet k v ex) s = (if ex \<le> 0 then s else alter True (Wrote k v) s)"
| "run_queued (QAdd k m) s = alter True (Joined k m) s"

fun bad_expiry :: "'v queued \<Rightarrow> bool" where
  "bad_expiry (QSet k v ex) = (ex \<le> 0)"
| "bad_expiry (QAdd k m) = False"

definition forget :: "('v, 'w) key_space \<Rightarrow> ('v, 'w) key_space" where
  "forget s = s\<lparr>ks_watched := [], ks_touched := False, ks_queue := []\<rparr>"

definition run_exec :: "(exn, ('v, 'w) key_space, unit) prog" where
  "run_exec s =
     (if ks_touched s then (Inl watch_error, forget s)
      else (if list_ex bad_expiry (ks_queue s) then Inl response_error else Inr (),
            fold run_queued (ks_queue s) (forget s)))"

definition server_client :: "('v, ('v, 'w) key_space) valkey_client" where
  "server_client =
     \<lparr>vk_set = (\<lambda>k v ex nx. request (\<lambda>s.
        if ex \<le> 0 then (Inl response_error, s)
        else if nx \<and> ks_values s k \<noteq> None then (Inr False, s)
        else (Inr True, alter True (Wrote k v) s))),
      vk_get = (\<lambda>k. request (\<lambda>s. (Inr (ks_values s k), s))),
      vk_smembers = (\<lambda>k. request (\<lambda>s. (Inr (remdups (ks_sets s k)), s))),
      vk_sadd = (\<lambda>k m. request (\<lambda>s. (Inr (), alter True (Joined k m) s))),
      vk_srem = (\<lambda>k m. request (\<lambda>s. (Inr (), alter True (Departed k m) s))),
      vk_ping = request (\<lambda>s. (Inr True, s)),
      vk_pipeline = (\<lambda>s. (Inr (), forget s)),
      pl_watch = (\<lambda>k. request (\<lambda>s. (Inr (), s\<lparr>ks_watched := k # ks_watched s\<rparr>))),
      pl_get = (\<lambda>k. request (\<lambda>s. (Inr (ks_values s k), s))),
      pl_multi = (\<lambda>s. (Inr (), s)),
      pl_set = (\<lambda>k v ex s. (Inr (), s\<lparr>ks_queue := ks_queue s @ [QSet k v ex]\<rparr>)),
      pl_sadd = (\<lambda>k m s. (Inr (), s\<lparr>ks_queue := ks_queue s @ [QAdd k m]\<rparr>)),
      pl_execute = request run_exec,
      pl_reset = (\<lambda>s. (Inr (), forget s))\<rparr>"

definition on_space :: "('w \<Rightarrow> 'r \<times> 'w) \<Rightarrow> ('v, 'w) key_space \<Rightarrow> 'r \<times> ('v, 'w) key_space" where
  "on_space f s = (case f (ks_world s) of (r, w) \<Rightarrow> (r, s\<lparr>ks_world := w\<rparr>))"

definition valkey_on ::
  "string \<Rightarrow> int \<Rightarrow> (session \<Rightarrow> 'v) \<Rightarrow> ('v \<Rightarrow> exn + session) \<Rightarrow> ('w \<Rightarrow> int \<times> 'w) \<Rightarrow>
   ('v, ('v, 'w) key_space) valkey_repository" where
  "valkey_on ns ret enc dec now =
     \<lparr>vr_client = server_client, vr_namespace = ns, vr_closed_retention = ret, vr_encode = enc,
      vr_decode = dec, vr_now = on_space now\<rparr>"

section \<open>Saving is a compare-and-set\<close>

text \<open>The value under a key after a list of changes, newest first.\<close>

fun latest :: "string \<Rightarrow> 'v change list \<Rightarrow> 'v option \<Rightarrow> 'v option" where
  "latest k [] v = v"
| "latest k (Wrote j w # cs) v = (if j = k then Some w else latest k cs v)"
| "latest k (Vanished j # cs) v = (if j = k then None else latest k cs v)"
| "latest k (_ # cs) v = latest k cs v"

text \<open>What happened between two states when this client changed nothing.\<close>

definition since :: "'v change list \<Rightarrow> ('v, 'w) key_space \<Rightarrow> ('v, 'w) key_space \<Rightarrow> bool" where
  "since cs s t \<longleftrightarrow> ks_log t = map (Pair False) cs @ ks_log s \<and>
     (\<forall>k. ks_values t k = latest k cs (ks_values s k))"

definition unwritten :: "('v, 'w) key_space \<Rightarrow> ('v, 'w) key_space \<Rightarrow> bool" where
  "unwritten s t \<longleftrightarrow> (\<exists>cs. since cs s t)"

definition committed ::
  "('v, ('v, 'w) key_space) valkey_repository \<Rightarrow> session \<Rightarrow> int \<Rightarrow> ('v, 'w) key_space \<Rightarrow> ('v, 'w) key_space \<Rightarrow> bool" where
  "committed R x n s t \<longleftrightarrow>
     (let k = session_key R (s_session_id x) in
      \<exists>cs v old. ks_log t = (True, Joined (index_key R) k) # (True, Wrote k (vr_encode R x)) #
          map (Pair False) cs @ ks_log s \<and>
        ks_values t k = Some (vr_encode R x) \<and>
        latest k cs (ks_values s k) = Some v \<and> vr_decode R v = Inr old \<and>
        s_revision old = n \<and> s_revision x = n + 1)"

lemma latest_append: "latest k (cs @ ds) v = latest k cs (latest k ds v)"
proof (induction cs)
  case (Cons c cs)
  then show ?case by (cases c) simp_all
qed simp

lemma latest_other: "\<forall>c \<in> set cs. changed_key c \<noteq> k \<Longrightarrow> latest k cs v = v"
proof (induction cs)
  case (Cons c cs)
  then show ?case by (cases c) simp_all
qed simp

lemma change_values_latest: "change_values c m k = latest k [c] (m k)"
  by (cases c) simp_all

lemma since_refl [simp]: "since [] s s"
  by (simp add: since_def)

lemma since_trans: "since cs s t \<Longrightarrow> since ds t u \<Longrightarrow> since (ds @ cs) s u"
  by (simp add: since_def latest_append)

lemma alter_simps [simp]:
  "ks_watched (alter own c s) = ks_watched s" "ks_queue (alter own c s) = ks_queue s"
  "ks_script (alter own c s) = ks_script s" "ks_world (alter own c s) = ks_world s"
  "ks_log (alter own c s) = (own, c) # ks_log s" "ks_values (alter own c s) = change_values c (ks_values s)"
  "ks_sets (alter own c s) = change_sets c (ks_sets s)"
  "ks_touched (alter own c s) \<longleftrightarrow> ks_touched s \<or> changed_key c \<in> set (ks_watched s)"
  by (simp_all add: alter_def)

lemma forget_simps [simp]:
  "ks_values (forget s) = ks_values s" "ks_sets (forget s) = ks_sets s" "ks_log (forget s) = ks_log s"
  "ks_script (forget s) = ks_script s" "ks_world (forget s) = ks_world s"
  "ks_watched (forget s) = []" "ks_queue (forget s) = []" "\<not> ks_touched (forget s)"
  by (simp_all add: forget_def)

text \<open>The state in which a command that was sent reaches the server.\<close>

definition arrival :: "('v, 'w) key_space \<Rightarrow> ('v, 'w) key_space \<Rightarrow> bool" where
  "arrival s t \<longleftrightarrow> ks_script s = [] \<and> t = s \<or>
     (\<exists>cs f rest. ks_script s = (cs, f) # rest \<and> t = fold (alter False) cs (s\<lparr>ks_script := rest\<rparr>))"

lemma wp_request:
  assumes "\<And>t. arrival s t \<Longrightarrow> E connection_error t \<and>
      wp f (\<lambda>a u. Q a u \<and> E connection_error u) (\<lambda>e u. E e u \<and> E connection_error u) t"
  shows "wp (request f) Q E s"
proof (cases "ks_script s")
  case Nil
  then have "arrival s s" by (simp add: arrival_def)
  from conjunct2 [OF assms [OF this]] have "wp f Q E s" by (rule wp_mono) simp_all
  with Nil show ?thesis by (simp add: wp_def request_def)
next
  case (Cons e rest)
  obtain cs f' where e: "e = (cs, f')" by (cases e)
  let ?t = "fold (alter False) cs (s\<lparr>ks_script := rest\<rparr>)"
  have "arrival s ?t" using Cons e by (auto simp: arrival_def)
  note t = assms [OF this]
  show ?thesis
    using Cons e t by (cases f') (auto simp: wp_def request_def Let_def split: prod.splits sum.splits)
qed

definition drift :: "'v change list \<Rightarrow> ('v, 'w) key_space \<Rightarrow> ('v, 'w) key_space \<Rightarrow> bool" where
  "drift cs s t \<longleftrightarrow> since cs s t \<and> ks_watched t = ks_watched s \<and> ks_queue t = ks_queue s \<and>
     (ks_touched t \<longleftrightarrow> ks_touched s \<or> (\<exists>c \<in> set cs. changed_key c \<in> set (ks_watched s)))"

lemma drift_fold: "drift (rev cs) s (fold (alter False) cs s)"
proof (induction cs arbitrary: s)
  case (Cons c cs)
  show ?case
    using Cons.IH [of "alter False c s"]
    by (auto simp: drift_def since_def latest_append change_values_latest)
qed (simp add: drift_def)

lemma arrival_drift: "arrival s t \<Longrightarrow> \<exists>cs. drift cs s t"
proof -
  assume "arrival s t"
  then consider "t = s" | cs rest where "t = fold (alter False) cs (s\<lparr>ks_script := rest\<rparr>)"
    unfolding arrival_def by blast
  then show ?thesis
  proof cases
    case 1
    have "drift [] s s" by (simp add: drift_def)
    with 1 show ?thesis by blast
  next
    case 2
    have "drift (rev cs) s t"
      using drift_fold [of cs "s\<lparr>ks_script := rest\<rparr>"] by (simp add: 2 drift_def since_def)
    then show ?thesis by blast
  qed
qed

lemma wp_on_space: "wp (liftE (on_space f)) Q E s \<longleftrightarrow> (\<forall>a w. f (ks_world s) = (a, w) \<longrightarrow> Q a (s\<lparr>ks_world := w\<rparr>))"
  by (simp add: wp_liftE on_space_def split: prod.splits)

lemma since_forget [simp]: "since cs s (forget t) = since cs s t"
  by (simp add: since_def)

lemma unwritten_world [simp]: "unwritten s (t\<lparr>ks_world := w\<rparr>) = unwritten s t"
  by (simp add: unwritten_def since_def)

text \<open>What a failed save leaves: a conflict has written nothing, another failure all or nothing.\<close>

definition save_conflict :: "exn \<Rightarrow> bool" where
  "save_conflict e \<longleftrightarrow> e = watch_error \<or> (\<exists>m. e = RepositoryConflict m)"

definition undone ::
  "('v, ('v, 'w) key_space) valkey_repository \<Rightarrow> session \<Rightarrow> int \<Rightarrow> ('v, 'w) key_space \<Rightarrow>
   exn \<Rightarrow> ('v, 'w) key_space \<Rightarrow> bool" where
  "undone R x n s e t \<longleftrightarrow> unwritten s t \<or> \<not> save_conflict e \<and> committed R x n s t"

text \<open>The second half of a save, from a state in which the key is watched and has been read.\<close>

lemma wp_commit_server:
  fixes R :: "('v, ('v, 'w) key_space) valkey_repository"
  assumes R_def: "R = valkey_on ns ret enc dec now" and k_def: "k = session_key R (s_session_id x)"
    and ret: "0 < ret" and s: "since cs s0 s" "ks_watched s = [k]" "ks_queue s = []"
    and read: "\<not> ks_touched s \<Longrightarrow> ks_values s k = Some v" "dec v = Inr old"
    and revisions: "s_revision old = n" "s_revision x = n + 1"
  shows "wp (save_commit R x) (\<lambda>_. committed R x n s0)
    (undone R x n s0) s"
proof -
  have run: "undone R x n s0 connection_error w \<and> wp run_exec
      (\<lambda>_ t. committed R x n s0 t \<and> undone R x n s0 connection_error t)
      (\<lambda>e t. undone R x n s0 e t \<and> undone R x n s0 connection_error t) w"
    if u: "ks_log u = ks_log s" "ks_values u = ks_values s" "ks_watched u = [k]" "ks_touched u = ks_touched s"
      "ks_queue u = [QSet k (enc x) ex, QAdd (index_key R) k]" "0 < ex" and d: "drift ds u w" for u w ds ex
  proof -
    have w: "since (ds @ cs) s0 w"
      using s(1) d u by (simp add: drift_def since_def latest_append)
    have q: "ks_queue w = [QSet k (enc x) ex, QAdd (index_key R) k]"
      and t: "ks_touched w \<longleftrightarrow> ks_touched s \<or> (\<exists>c \<in> set ds. changed_key c = k)"
      using d u by (auto simp: drift_def)
    have "committed R x n s0 (alter True (Joined (index_key R) k) (alter True (Wrote k (enc x)) (forget w)))"
      if "\<not> ks_touched w"
    proof -
      have "ks_values w k = ks_values u k"
        using d that t latest_other [of ds k] by (auto simp: drift_def since_def)
      then have "latest k (ds @ cs) (ks_values s0 k) = Some v"
        using that t read(1) u(2) w by (simp add: since_def)
      then show ?thesis
        using w read(2) revisions unfolding committed_def k_def [symmetric] Let_def
        by (intro exI [of _ "ds @ cs"] exI [of _ v] exI [of _ old])
          (simp add: since_def R_def valkey_on_def)
    qed
    moreover have "unwritten s0 w" "unwritten s0 (forget w)" using w unfolding unwritten_def by auto
    ultimately show ?thesis using u(6) by (auto simp: wp_def run_exec_def q undone_def save_conflict_def watch_error_def connection_error_def)
  qed
  have exec: "wp (request run_exec) (\<lambda>_. committed R x n s0)
      (undone R x n s0) u"
    if u: "ks_log u = ks_log s" "ks_values u = ks_values s" "ks_watched u = [k]" "ks_touched u = ks_touched s"
      "ks_queue u = [QSet k (enc x) ex, QAdd (index_key R) k]" "0 < ex" for u ex
  proof (rule wp_request)
    fix t assume "arrival u t"
    then obtain ds where "drift ds u t" using arrival_drift by blast
    from run [OF u this] show "undone R x n s0 connection_error t \<and>
      wp run_exec (\<lambda>_ u. committed R x n s0 u \<and> undone R x n s0 connection_error u)
        (\<lambda>e u. undone R x n s0 e u \<and> undone R x n s0 connection_error u) t" .
  qed
  have pos: "0 < max ret (i + ret)" for i using ret by simp
  have "vr_closed_retention R = ret" "vr_now R = on_space now" "vr_encode R = enc"
    "vr_client R = server_client" by (simp_all add: R_def valkey_on_def)
  note R = this
  show ?thesis
    unfolding save_commit_def valkey_ttl_def Let_def k_def [symmetric] R
    by (auto simp: wp_simps wp_on_space server_client_def s pos ret wp_def [of "\<lambda>s. (Inr (), _ s)"] intro!: exec)
qed

lemma committed_forget [simp]: "committed R x n s (forget t) = committed R x n s t"
  by (simp add: committed_def Let_def)

lemma undone_conflict: "undone R x n s watch_error t \<Longrightarrow> undone R x n s (RepositoryConflict m) t"
  by (simp add: undone_def save_conflict_def)

lemma undone_forget: "undone R x n s e t \<Longrightarrow> undone R x n s e (forget t)"
  by (auto simp: undone_def unwritten_def committed_def Let_def)

lemma wp_save_server:
  fixes R :: "('v, ('v, 'w) key_space) valkey_repository"
  assumes R: "R = valkey_on ns ret enc dec now" and ret: "0 < ret"
  shows "wp (valkey_save R x n) (\<lambda>_. committed R x n s) (undone R x n s) s"
proof -
  define k where "k = session_key R (s_session_id x)"
  have Rs: "vr_client R = server_client" "vr_decode R = dec" by (simp_all add: R valkey_on_def)
  have un: "undone R x n s e t" if "since cs s t" for cs e t
    using that by (auto simp: undone_def unwritten_def)
  define checked where "checked v t = (case v of
        None \<Rightarrow> undone R x n s (RepositoryConflict ''session disappeared during update'') t
      | Some raw \<Rightarrow> (case dec raw of
          Inl e \<Rightarrow> undone R x n s e t
        | Inr old \<Rightarrow> if s_revision old \<noteq> n \<or> s_revision x \<noteq> n + 1
            then undone R x n s (RepositoryConflict ''session revision changed during update'') t
            else wp (save_commit R x) (\<lambda>_. committed R x n s) (undone R x n s) t))" for v t
  have check: "checked (ks_values u k) u"
    if "since cs s u" "ks_watched u = [k]" "ks_queue u = []" for cs u
    using un [OF that(1)] wp_commit_server [OF R k_def ret that]
    by (auto simp: checked_def split: option.splits sum.splits)
  have read: "wp (request (\<lambda>s. (Inr (ks_values s k), s))) checked (undone R x n s) w"
    if w: "since cs s w" "ks_watched w = [k]" "ks_queue w = []" for cs w
  proof (rule wp_request)
    fix t assume "arrival w t"
    then obtain ds where d: "drift ds w t" using arrival_drift by blast
    then have t: "since (ds @ cs) s t" "ks_watched t = [k]" "ks_queue t = []"
      using w by (auto simp: drift_def intro: since_trans)
    show "undone R x n s connection_error t \<and> wp (\<lambda>s. (Inr (ks_values s k), s))
        (\<lambda>a u. checked a u \<and> undone R x n s connection_error u)
        (\<lambda>e u. undone R x n s e u \<and> undone R x n s connection_error u) t"
      using check [OF t] un [OF t(1)] by (simp add: wp_def)
  qed
  have body: "wp (save_body R x n) (\<lambda>_. committed R x n s) (undone R x n s) (forget s)"
  proof -
    have "wp (pl_watch server_client k) (\<lambda>_. wp (pl_get server_client k) checked (undone R x n s))
        (undone R x n s) (forget s)"
      unfolding server_client_def valkey_client.simps
    proof (rule wp_request)
      fix t assume "arrival (forget s) t"
      then obtain cs where "drift cs (forget s) t" using arrival_drift by blast
      then have t: "since cs s t" "ks_watched t = []" "ks_queue t = []" by (simp_all add: drift_def since_def)
      have w: "since cs s (t\<lparr>ks_watched := [k]\<rparr>)" using t(1) by (simp add: since_def)
      show "undone R x n s connection_error t \<and> wp (\<lambda>s. (Inr (), s\<lparr>ks_watched := k # ks_watched s\<rparr>))
          (\<lambda>a u. wp (request (\<lambda>s. (Inr (ks_values s k), s))) checked (undone R x n s) u \<and>
             undone R x n s connection_error u)
          (\<lambda>e u. undone R x n s e u \<and> undone R x n s connection_error u) t"
        using read [OF w] t un [OF t(1)] un [OF w] by (simp add: wp_def [of "\<lambda>s. (Inr (), _ s)"])
    qed
    then show ?thesis
      unfolding save_body_def Let_def wp_simps k_def [symmetric] Rs
      by (rule wp_mono) (erule wp_mono; auto simp: checked_def split: option.splits sum.splits)+
  qed
  show ?thesis
    unfolding valkey_save_def wp_bindE wp_finallyE wp_catchE Rs
    using body
    by (simp add: server_client_def wp_def [of "\<lambda>s. (Inr (), _ s)"], intro wp_mono [OF body])
      (auto simp: wp_def raiseE_def undone_forget undone_conflict committed_forget)
qed

text \<open>
  C25. Saving is a compare-and-set, whatever other clients write between its commands and whichever
  commands fail. When \<open>save\<close> returns, the only changes this client made are the write of the session
  and its entry in the index, in one transaction, and the value the write replaced decoded
  to the expected revision, one below the new one: no update is lost. When it raises
  \<open>RepositoryConflict\<close> this client has changed nothing; any other failure has changed nothing or
  is such a write whose answer was lost.
\<close>

theorem save_is_compare_and_set:
  assumes "R = valkey_on ns ret enc dec now" and "0 < ret" and "valkey_save R x n s = (r, t)"
  shows "case r of
      Inr _ \<Rightarrow> committed R x n s t
    | Inl (RepositoryConflict _) \<Rightarrow> unwritten s t
    | Inl _ \<Rightarrow> unwritten s t \<or> committed R x n s t"
  using wp_save_server [OF assms(1,2), of x n s] assms(3)
  by (auto simp: wp_def undone_def save_conflict_def split: sum.splits exn.splits)

section \<open>A key space that is the repository's own\<close>

text \<open>A member of the index of a namespace is the key of a session of that namespace.\<close>

definition legit_member :: "string \<Rightarrow> string \<Rightarrow> bool" where
  "legit_member k m \<longleftrightarrow> (\<forall>ns. k = ns @ '':index'' \<longrightarrow> (\<exists>u. m = ns @ '':'' @ uuid_str u))"

fun harmless :: "'v change \<Rightarrow> bool" where
  "harmless (Wrote k v) = False"
| "harmless (Joined k m) = legit_member k m"
| "harmless _ = True"

fun legit_queued :: "'v queued \<Rightarrow> bool" where
  "legit_queued (QSet k v ex) = True"
| "legit_queued (QAdd k m) = legit_member k m"

definition own_keys :: "('v, 'w) key_space \<Rightarrow> bool" where
  "own_keys s \<longleftrightarrow> (\<forall>k. \<forall>m \<in> set (ks_sets s k). legit_member k m) \<and>
     (\<forall>(cs, f) \<in> set (ks_script s). \<forall>c \<in> set cs. harmless c) \<and> (\<forall>q \<in> set (ks_queue s). legit_queued q)"

lemma owned_empty: "own_keys \<lparr>ks_values = m, ks_sets = (\<lambda>_. []), ks_watched = [], ks_touched = False, ks_queue = [],
    ks_log = [], ks_script = [], ks_world = w\<rparr>"
  by (simp add: own_keys_def)

typedef ('v, 'w) own_space = "{s :: ('v, 'w) key_space. own_keys s}"
  morphisms space_of own_of
  using owned_empty by (intro exI CollectI)

lemma owned_space [simp]: "own_keys (space_of s)"
  using space_of [of s] by simp

lemma space_of_own [simp]: "own_keys t \<Longrightarrow> space_of (own_of t) = t"
  by (simp add: own_of_inverse)

definition on_own :: "(('v, 'w) key_space \<Rightarrow> 'r \<times> ('v, 'w) key_space) \<Rightarrow> ('v, 'w) own_space \<Rightarrow> 'r \<times> ('v, 'w) own_space" where
  "on_own f s = (case f (space_of s) of (r, t) \<Rightarrow> (r, own_of t))"

lemma wp_on_own: "wp (on_own f) Q E s = wp f (\<lambda>a t. Q a (own_of t)) (\<lambda>e t. E e (own_of t)) (space_of s)"
  by (auto simp: wp_def on_own_def split: prod.splits)

definition own_client :: "('v, ('v, 'w) own_space) valkey_client" where
  "own_client =
     \<lparr>vk_set = (\<lambda>k v ex nx. on_own (vk_set server_client k v ex nx)),
      vk_get = (\<lambda>k. on_own (vk_get server_client k)),
      vk_smembers = (\<lambda>k. on_own (vk_smembers server_client k)),
      vk_sadd = (\<lambda>k m. on_own (vk_sadd server_client k m)),
      vk_srem = (\<lambda>k m. on_own (vk_srem server_client k m)),
      vk_ping = on_own (vk_ping server_client),
      vk_pipeline = on_own (vk_pipeline server_client),
      pl_watch = (\<lambda>k. on_own (pl_watch server_client k)),
      pl_get = (\<lambda>k. on_own (pl_get server_client k)),
      pl_multi = on_own (pl_multi server_client),
      pl_set = (\<lambda>k v ex. on_own (pl_set server_client k v ex)),
      pl_sadd = (\<lambda>k m. on_own (pl_sadd server_client k m)),
      pl_execute = on_own (pl_execute server_client),
      pl_reset = on_own (pl_reset server_client)\<rparr>"

definition own_held :: "('v, 'w) own_space \<Rightarrow> string \<rightharpoonup> 'v" where
  "own_held s = ks_values (space_of s)"

fun queued_set :: "'v queued \<Rightarrow> (string \<times> 'v) list" where
  "queued_set (QSet k v ex) = [(k, v)]"
| "queued_set (QAdd k m) = []"

definition own_queued :: "('v, 'w) own_space \<Rightarrow> (string \<times> 'v) list" where
  "own_queued s = concat (map queued_set (ks_queue (space_of s)))"

lemma harmless_step:
  assumes "harmless c" and "own_keys s"
  shows "own_keys (alter own c s) \<and> ks_values (alter own c s) \<subseteq>\<^sub>m ks_values s"
  using assms by (cases c) (auto simp: own_keys_def map_le_def)

lemma owned_alter [simp]: "own_keys s \<Longrightarrow> own_keys (alter own (Wrote k v) s)"
  "own_keys s \<Longrightarrow> legit_member k m \<Longrightarrow> own_keys (alter own (Joined k m) s)"
  "own_keys s \<Longrightarrow> own_keys (alter own (Departed k m) s)"
  by (auto simp: own_keys_def)

lemma owned_forget [simp]: "own_keys s \<Longrightarrow> own_keys (forget s)"
  by (simp add: own_keys_def)

lemma owned_fold:
  assumes "\<forall>c \<in> set cs. harmless c" and "own_keys s"
  shows "own_keys (fold (alter False) cs s) \<and> ks_values (fold (alter False) cs s) \<subseteq>\<^sub>m ks_values s"
  using assms
proof (induction cs arbitrary: s)
  case (Cons c cs)
  have "own_keys (alter False c s)" and le: "ks_values (alter False c s) \<subseteq>\<^sub>m ks_values s"
    using harmless_step [of c s False] Cons.prems by auto
  with Cons.IH [of "alter False c s"] Cons.prems show ?case by (auto intro: map_le_trans [OF _ le])
qed simp

lemma owned_arrival:
  assumes "own_keys s" and "arrival s t"
  shows "own_keys t \<and> ks_values t \<subseteq>\<^sub>m ks_values s \<and> ks_queue t = ks_queue s"
proof -
  have q: "ks_queue t = ks_queue s" using arrival_drift [OF assms(2)] by (auto simp: drift_def)
  from assms(2) consider "t = s"
    | cs f rest where "ks_script s = (cs, f) # rest" "t = fold (alter False) cs (s\<lparr>ks_script := rest\<rparr>)"
    unfolding arrival_def by blast
  then show ?thesis
  proof cases
    case 1
    with assms(1) show ?thesis by simp
  next
    case 2
    then have "own_keys (s\<lparr>ks_script := rest\<rparr>)" "\<forall>c \<in> set cs. harmless c"
      using assms(1) by (auto simp: own_keys_def)
    from owned_fold [OF this(2,1)] q 2(2) show ?thesis by simp
  qed
qed

lemma wp_request_own:
  assumes "own_keys s"
    and "\<And>t. own_keys t \<Longrightarrow> ks_values t \<subseteq>\<^sub>m ks_values s \<Longrightarrow> ks_queue t = ks_queue s \<Longrightarrow>
      E connection_error t \<and> wp f (\<lambda>a u. Q a u \<and> E connection_error u) (\<lambda>e u. E e u \<and> E connection_error u) t"
  shows "wp (request f) Q E s"
  by (rule wp_request) (use owned_arrival [OF assms(1)] assms(2) in blast)

lemma run_queue_own:
  assumes "\<forall>q \<in> set qs. legit_queued q" and "own_keys s"
  shows "own_keys (fold run_queued qs s)"
  using assms
proof (induction qs arbitrary: s)
  case (Cons q qs)
  then show ?case by (cases q) auto
qed simp

lemma run_queue_values:
  "ks_values (fold run_queued qs s) = ks_values s ++ map_of (rev (concat (map queued_set (filter (Not \<circ> bad_expiry) qs))))"
proof (induction qs arbitrary: s)
  case (Cons q qs)
  then show ?case by (cases q) (auto simp: fun_eq_iff map_add_def split: option.splits)
qed simp

lemma owned_members: "own_keys s \<Longrightarrow> m \<in> set (ks_sets s k) \<Longrightarrow> legit_member k m"
  by (simp add: own_keys_def)

lemma owned_watch: "own_keys (s\<lparr>ks_watched := ks\<rparr>) = own_keys s"
  by (simp add: own_keys_def)

lemma own_laws:
  assumes "own_keys s"
  shows "wp (vk_set server_client k v ex True)
      (\<lambda>ok t. own_keys t \<and> (if ok then \<exists>m. m \<subseteq>\<^sub>m ks_values s \<and> m k = None \<and> ks_values t \<subseteq>\<^sub>m m(k \<mapsto> v)
         else ks_values t \<subseteq>\<^sub>m ks_values s))
      (\<lambda>_ t. own_keys t \<and> (ks_values t \<subseteq>\<^sub>m ks_values s \<or>
         (\<exists>m. m \<subseteq>\<^sub>m ks_values s \<and> m k = None \<and> ks_values t \<subseteq>\<^sub>m m(k \<mapsto> v)))) s"
    and "wp (vk_get server_client k) (\<lambda>r t. own_keys t \<and> ks_values t \<subseteq>\<^sub>m ks_values s \<and> r = ks_values t k)
      (\<lambda>_ t. own_keys t \<and> ks_values t \<subseteq>\<^sub>m ks_values s) s"
    and "wp (vk_smembers server_client k)
      (\<lambda>ms t. own_keys t \<and> ks_values t \<subseteq>\<^sub>m ks_values s \<and> distinct ms \<and> (\<forall>m \<in> set ms. legit_member k m))
      (\<lambda>_ t. own_keys t \<and> ks_values t \<subseteq>\<^sub>m ks_values s) s"
    and "legit_member k m \<Longrightarrow> wp (vk_sadd server_client k m) (\<lambda>_ t. own_keys t \<and> ks_values t \<subseteq>\<^sub>m ks_values s)
      (\<lambda>_ t. own_keys t \<and> ks_values t \<subseteq>\<^sub>m ks_values s) s"
    and "wp (vk_srem server_client k m) (\<lambda>_ t. own_keys t \<and> ks_values t \<subseteq>\<^sub>m ks_values s)
      (\<lambda>_ t. own_keys t \<and> ks_values t \<subseteq>\<^sub>m ks_values s) s"
    and "wp (vk_ping server_client) (\<lambda>_ t. own_keys t \<and> ks_values t \<subseteq>\<^sub>m ks_values s)
      (\<lambda>_ t. own_keys t \<and> ks_values t \<subseteq>\<^sub>m ks_values s) s"
    and "wp (pl_watch server_client k) (\<lambda>_ t. own_keys t \<and> ks_values t \<subseteq>\<^sub>m ks_values s \<and> ks_queue t = ks_queue s)
      (\<lambda>_ t. own_keys t \<and> ks_values t \<subseteq>\<^sub>m ks_values s) s"
    and "wp (pl_get server_client k)
      (\<lambda>r t. own_keys t \<and> ks_values t \<subseteq>\<^sub>m ks_values s \<and> ks_queue t = ks_queue s \<and> r = ks_values t k)
      (\<lambda>_ t. own_keys t \<and> ks_values t \<subseteq>\<^sub>m ks_values s) s"
  unfolding server_client_def valkey_client.simps
  by (rule wp_request_own [OF assms], force simp: wp_def owned_members owned_watch)+

lemma own_pipeline_laws:
  assumes "own_keys s"
  shows "legit_member k m \<Longrightarrow> wp (pl_sadd server_client k m)
      (\<lambda>_ t. own_keys t \<and> ks_values t = ks_values s \<and> ks_queue t = ks_queue s @ [QAdd k m]) (\<lambda>_ _. False) s"
    and "wp (pl_set server_client k v ex)
      (\<lambda>_ t. own_keys t \<and> ks_values t = ks_values s \<and> ks_queue t = ks_queue s @ [QSet k v ex]) (\<lambda>_ _. False) s"
    and "wp (pl_multi server_client) (\<lambda>_ t. t = s) (\<lambda>_ _. False) s"
    and "wp (vk_pipeline server_client) (\<lambda>_ t. own_keys t \<and> ks_values t = ks_values s \<and> ks_queue t = []) (\<lambda>_ _. False) s"
    and "wp (pl_reset server_client) (\<lambda>_ t. own_keys t \<and> ks_values t = ks_values s) (\<lambda>_ _. False) s"
  using assms by (auto simp: server_client_def wp_def own_keys_def)

lemma own_execute_law:
  assumes "own_keys s"
  shows "wp (pl_execute server_client)
      (\<lambda>_ t. own_keys t \<and> ks_values t \<subseteq>\<^sub>m ks_values s ++ map_of (rev (concat (map queued_set (ks_queue s)))))
      (\<lambda>_ t. own_keys t \<and> (\<exists>qs. set qs \<subseteq> set (concat (map queued_set (ks_queue s))) \<and>
         ks_values t \<subseteq>\<^sub>m ks_values s ++ map_of (rev qs))) s"
proof -
  have mono: "m ++ f \<subseteq>\<^sub>m m' ++ f" if "m \<subseteq>\<^sub>m m'" for m m' f :: "string \<rightharpoonup> 'v"
    using that by (auto simp: map_le_def map_add_def split: option.splits)
  have run: "own_keys (fold run_queued (ks_queue t) (forget t))" if "own_keys t" for t :: "('v, 'w) key_space"
    by (rule run_queue_own) (use that in \<open>auto simp: own_keys_def\<close>)
  have some: "\<exists>qs. set qs \<subseteq> set (concat (map queued_set (ks_queue s))) \<and> ks_values u \<subseteq>\<^sub>m ks_values s ++ map_of (rev qs)"
    if "ks_values u = ks_values t ++ map_of (rev (concat (map queued_set (filter P (ks_queue s)))))"
      "ks_values t \<subseteq>\<^sub>m ks_values s" for u t P
    by (rule exI [of _ "concat (map queued_set (filter P (ks_queue s)))"]) (use that mono in auto)
  have none: "\<exists>qs. set qs \<subseteq> set (concat (map queued_set (ks_queue s))) \<and> ks_values u \<subseteq>\<^sub>m ks_values s ++ map_of (rev qs)"
    if "ks_values u \<subseteq>\<^sub>m ks_values s" for u
    by (rule exI [of _ "[]"]) (use that in simp)
  have all: "filter (Not \<circ> bad_expiry) (ks_queue s) = ks_queue s" if "\<not> list_ex bad_expiry (ks_queue s)"
    using that by (simp add: list_ex_iff)
  show ?thesis
    unfolding server_client_def valkey_client.simps
  proof (rule wp_request_own [OF assms])
    fix t assume t: "own_keys t" "ks_values t \<subseteq>\<^sub>m ks_values s" "ks_queue t = ks_queue s"
    let ?u = "fold run_queued (ks_queue s) (forget t)"
    have u: "ks_values ?u = ks_values t ++ map_of (rev (concat (map queued_set (filter (Not \<circ> bad_expiry) (ks_queue s)))))"
      by (simp add: run_queue_values)
    note facts = t run [OF t(1), unfolded t(3)] some [OF u t(2)] none [OF t(2)] none [of "forget t"]
      mono [OF t(2)]
    show "(own_keys t \<and> (\<exists>qs. set qs \<subseteq> set (concat (map queued_set (ks_queue s))) \<and>
          ks_values t \<subseteq>\<^sub>m ks_values s ++ map_of (rev qs))) \<and>
      wp run_exec
        (\<lambda>a u. (own_keys u \<and> ks_values u \<subseteq>\<^sub>m ks_values s ++ map_of (rev (concat (map queued_set (ks_queue s))))) \<and>
          own_keys u \<and> (\<exists>qs. set qs \<subseteq> set (concat (map queued_set (ks_queue s))) \<and>
          ks_values u \<subseteq>\<^sub>m ks_values s ++ map_of (rev qs)))
        (\<lambda>e u. (own_keys u \<and> (\<exists>qs. set qs \<subseteq> set (concat (map queued_set (ks_queue s))) \<and>
          ks_values u \<subseteq>\<^sub>m ks_values s ++ map_of (rev qs))) \<and> own_keys u \<and>
          (\<exists>qs. set qs \<subseteq> set (concat (map queued_set (ks_queue s))) \<and>
          ks_values u \<subseteq>\<^sub>m ks_values s ++ map_of (rev qs))) t"
      unfolding wp_def run_exec_def t(3) using facts all u
      by (cases "list_ex bad_expiry (ks_queue s)") (simp_all del: set_concat)
  qed
qed

interpretation own: valkey_server own_client own_held own_queued legit_member
proof (unfold_locales, goal_cases)
  case (1 k v ex s)
  show ?case by (simp add: own_client_def wp_on_own, rule wp_mono [OF own_laws(1)]) (simp_all add: own_held_def)
next
  case (2 k s)
  show ?case by (simp add: own_client_def wp_on_own, rule wp_mono [OF own_laws(2)]) (simp_all add: own_held_def)
next
  case (3 k s)
  show ?case by (simp add: own_client_def wp_on_own, rule wp_mono [OF own_laws(3)]) (simp_all add: own_held_def)
next
  case (4 k m)
  then show ?case
    by (intro calmI, simp add: own_client_def wp_on_own, intro wp_mono [OF own_laws(4)]) (simp_all add: own_held_def)
next
  case (5 k m)
  show ?case
    by (rule calmI, simp add: own_client_def wp_on_own, rule wp_mono [OF own_laws(5)]) (simp_all add: own_held_def)
next
  case 6
  show ?case
    by (rule calmI, simp add: own_client_def wp_on_own, rule wp_mono [OF own_laws(6)]) (simp_all add: own_held_def)
next
  case 7
  show ?case
    by (rule calmI, simp add: own_client_def wp_on_own, rule wp_mono [OF own_pipeline_laws(5)]) (simp_all add: own_held_def)
next
  case (8 s)
  show ?case
    by (simp add: own_client_def wp_on_own, rule wp_mono [OF own_pipeline_laws(4)]) (simp_all add: own_held_def own_queued_def)
next
  case (9 k s)
  show ?case
    by (simp add: own_client_def wp_on_own, rule wp_mono [OF own_laws(7)]) (simp_all add: own_held_def own_queued_def)
next
  case (10 k s)
  show ?case
    by (simp add: own_client_def wp_on_own, rule wp_mono [OF own_laws(8)]) (simp_all add: own_held_def own_queued_def)
next
  case (11 s)
  show ?case
    by (simp add: own_client_def wp_on_own, rule wp_mono [OF own_pipeline_laws(3)]) (simp_all add: own_held_def own_queued_def)
next
  case (12 k v ex s)
  show ?case
    by (simp add: own_client_def wp_on_own, rule wp_mono [OF own_pipeline_laws(2)]) (simp_all add: own_held_def own_queued_def)
next
  case (13 k m s)
  then show ?case
    by (simp add: own_client_def wp_on_own, intro wp_mono [OF own_pipeline_laws(1)]) (simp_all add: own_held_def own_queued_def)
next
  case (14 s)
  show ?case
    unfolding own_client_def valkey_client.simps wp_on_own own_held_def own_queued_def
    by (rule wp_mono [OF own_execute_law]) simp_all
qed

section \<open>The Session Manager over Valkey\<close>

definition on_own_world :: "('w \<Rightarrow> 'r \<times> 'w) \<Rightarrow> ('v, 'w) own_space \<Rightarrow> 'r \<times> ('v, 'w) own_space" where
  "on_own_world f = on_own (on_space f)"

definition own_repository ::
  "string \<Rightarrow> int \<Rightarrow> (session \<Rightarrow> 'v) \<Rightarrow> ('v \<Rightarrow> exn + session) \<Rightarrow> ('w \<Rightarrow> int \<times> 'w) \<Rightarrow>
   ('v, ('v, 'w) own_space) valkey_repository" where
  "own_repository ns ret enc dec now =
     \<lparr>vr_client = own_client, vr_namespace = ns, vr_closed_retention = ret, vr_encode = enc,
      vr_decode = dec, vr_now = on_own_world now\<rparr>"

definition valkey_services ::
  "('v, ('v, 'w) own_space) valkey_repository \<Rightarrow> 'w services \<Rightarrow>
   (('v, 'w) own_space \<Rightarrow> (exn + uuid) \<times> 'w) \<Rightarrow> ('v, 'w) own_space services" where
  "valkey_services R X U =
     \<lparr>repo_add = valkey_add R, repo_get = valkey_get R, repo_list = valkey_list R,
      repo_save = valkey_save R, repo_health = valkey_health R,
      romm_resolve_game = (\<lambda>i. on_own_world (romm_resolve_game X i)),
      romm_health = on_own_world (romm_health X),
      cores_resolve = (\<lambda>p. on_own_world (cores_resolve X p)),
      cores_health = on_own_world (cores_health X),
      execution_create = (\<lambda>r. on_own_world (execution_create X r)),
      execution_inspect = (\<lambda>u. on_own_world (execution_inspect X u)),
      execution_list = on_own_world (execution_list X),
      execution_remove = (\<lambda>u. on_own_world (execution_remove X u)),
      execution_health = on_own_world (execution_health X),
      stream_provision = (\<lambda>u g. on_own_world (stream_provision X u g)),
      stream_revoke = (\<lambda>u. on_own_world (stream_revoke X u)),
      stream_health = on_own_world (stream_health X),
      clock = on_own_world (clock X),
      monotonic = on_own_world (monotonic X),
      sleep = (\<lambda>d. on_own_world (sleep X d)),
      uuid4 = (\<lambda>s. case U s of (r, w) \<Rightarrow> (r, own_of ((space_of s)\<lparr>ks_world := w\<rparr>)))\<rparr>"

definition valkey_view :: "('v, ('v, 'w) own_space) valkey_repository \<Rightarrow> ('v, 'w) own_space \<Rightarrow> store" where
  "valkey_view R s = store_view R (own_held s)"

lemma owned_world [simp]: "own_keys (s\<lparr>ks_world := w\<rparr>) = own_keys s"
  by (simp add: own_keys_def)

lemma on_own_world_same:
  "own_held (snd (on_own_world f s)) = own_held s" "own_queued (snd (on_own_world f s)) = own_queued s"
  by (simp_all add: on_own_world_def on_own_def on_space_def own_held_def own_queued_def split: prod.splits)

lemma index_legit: "legit_member (index_key R) m \<longleftrightarrow> m \<in> range (session_key R)"
  by (auto simp: legit_member_def index_key_def session_key_def)

lemma own_repository_simps [simp]:
  "vr_client (own_repository ns ret enc dec now) = own_client"
  "vr_encode (own_repository ns ret enc dec now) = enc" "vr_decode (own_repository ns ret enc dec now) = dec"
  "vr_now (own_repository ns ret enc dec now) = on_own_world now"
  by (simp_all add: own_repository_def)

locale valkey_deployment = session_codec enc dec
  for enc :: "session \<Rightarrow> 'v" and dec :: "'v \<Rightarrow> exn + session" +
  fixes ns :: string and ret :: int and now :: "'w \<Rightarrow> int \<times> 'w"

sublocale valkey_deployment \<subseteq> stored: valkey_store "own_repository ns ret enc dec now" own_held own_queued legit_member
proof (rule valkey_store.intro, unfold own_repository_simps)
  show "valkey_server own_client own_held own_queued legit_member" by (rule own.valkey_server_axioms)
  show "session_codec enc dec" by (rule session_codec_axioms)
  show "valkey_store_axioms (own_repository ns ret enc dec now) own_held own_queued legit_member"
    by (rule valkey_store_axioms.intro) (simp_all add: calm_def on_own_world_same index_legit)
qed

lemma keeps_own_world: "keeps (valkey_view R) (on_own_world f)"
  by (simp add: keeps_def valkey_view_def on_own_world_same)

lemma keeps_own_source:
  "keeps (valkey_view R) (\<lambda>s. case U s of (r, w) \<Rightarrow> (r, own_of ((space_of s)\<lparr>ks_world := w\<rparr>)))"
  by (simp add: keeps_def valkey_view_def own_held_def split: prod.splits)

sublocale valkey_deployment \<subseteq> managed: session_env
    "valkey_services (own_repository ns ret enc dec now) X U" "valkey_view (own_repository ns ret enc dec now)"
  for X :: "'w services" and U :: "('v, 'w) own_space \<Rightarrow> (exn + uuid) \<times> 'w"
proof (unfold_locales, goal_cases)
  case (1 x s)
  show ?case using stored.add_contract by (simp add: valkey_services_def valkey_view_def)
next
  case (2 k s)
  show ?case using stored.get_contract by (simp add: valkey_services_def valkey_view_def)
next
  case (3 s)
  show ?case using stored.list_contract by (simp add: valkey_services_def valkey_view_def)
next
  case (4 x n s)
  show ?case using stored.save_contract by (simp add: valkey_services_def valkey_view_def)
next
  case 17
  show ?case using stored.health_contract by (simp add: valkey_services_def valkey_view_def keeps_def)
qed (simp_all add: valkey_services_def keeps_own_world keeps_own_source)

context valkey_deployment
begin

lemma deployed_store_inv:
  assumes "uuid4_fresh (valkey_services (own_repository ns ret enc dec now) X U) (valkey_view (own_repository ns ret enc dec now))"
    and "store_inv (session_ttl cfg) (valkey_view (own_repository ns ret enc dec now) s)"
  shows "store_inv (session_ttl cfg) (valkey_view (own_repository ns ret enc dec now)
    (serve cfg (valkey_services (own_repository ns ret enc dec now) X U) cs s))"
  using assms(2,1) by (rule managed.serve_store_inv)

end

text \<open>
  A stored document is the record of its fields; reading it runs the validators of \<open>Participant\<close>
  and \<open>Session\<close>.
\<close>

definition document_decode :: "session \<Rightarrow> exn + session" where
  "document_decode x =
     (if list_all participant_ok (s_participants x) then make_session x
      else Inl (ValidationError ''participants''))"

interpretation document: valkey_deployment "\<lambda>x. x" document_decode ns ret now for ns ret now
  by unfold_locales
    (auto simp: document_decode_def make_session_def consistent_participants_def Let_def split: if_splits)

text \<open>
  C26. The lobby invariant on a Valkey deployment: with a codec that gives back the session it
  encoded or fails, records that expire at any moment, connections that fail before or after any command
  and other clients that leave the stored values alone, every sequence of requests keeps each session
  the repository can read in the lobby invariant.
\<close>

theorem requests_keep_stored_lobbies:
  fixes U :: "('v, 'w) own_space \<Rightarrow> (exn + uuid) \<times> 'w"
  assumes "session_codec enc dec" and "R = own_repository ns ret enc dec now"
    and "uuid4_fresh (valkey_services R X U) (valkey_view R)"
    and "store_inv (session_ttl cfg) (valkey_view R s)"
  shows "store_inv (session_ttl cfg) (valkey_view R (serve cfg (valkey_services R X U) cs s))"
  using valkey_deployment.deployed_store_inv [OF valkey_deployment.intro [OF assms(1)]] assms(2-4) by blast

definition stored_next_uuid ::
  "('v, ('v, 'w) own_space) valkey_repository \<Rightarrow> ('v, 'w) own_space \<Rightarrow> (exn + uuid) \<times> 'w" where
  "stored_next_uuid R s =
     (case first_match (\<lambda>u. \<forall>k. case valkey_view R s k of None \<Rightarrow> True
         | Some x \<Rightarrow> u \<noteq> k \<and> u \<notin> set (map p_participant_id (s_participants x))) (map word_of_nat [1..<16]) of
        None \<Rightarrow> Inl (OtherException ''no identifier left'') | Some u \<Rightarrow> Inr u, ks_world (space_of s))"

definition stored_start :: "(session, sample_world) own_space" where
  "stored_start = own_of \<lparr>ks_values = Map.empty, ks_sets = (\<lambda>_. []), ks_watched = [], ks_touched = False,
     ks_queue = [], ks_log = [], ks_script = [([], NoFault), ([Vanished ''retrobrowser:sessions:x''], Unanswered)],
     ks_world = \<lparr>ticks = 100, runtimes = []\<rparr>\<rparr>"

definition stored_repository :: "(session, (session, sample_world) own_space) valkey_repository" where
  "stored_repository = own_repository ''retrobrowser:sessions'' 300 (\<lambda>x. x) document_decode (\<lambda>w. (ticks w, w))"

lemma stored_fresh: "uuid4_fresh (valkey_services R X (stored_next_uuid R)) (valkey_view R)"
  unfolding uuid4_fresh_def valkey_services_def stored_next_uuid_def
  by (auto dest!: first_match_SomeD split: option.splits)

theorem requests_keep_stored_lobbies_witness:
  "session_codec (\<lambda>x. x) document_decode \<and>
   store_inv (session_ttl sample_config) (valkey_view stored_repository stored_start) \<and>
   store_inv (session_ttl sample_config) (valkey_view stored_repository
     (serve sample_config (valkey_services stored_repository sample_services (stored_next_uuid stored_repository))
       [Create alice sample_request, Join 1 bob] stored_start))"
proof -
  have c: "session_codec (\<lambda>x. x) document_decode" by (rule document.session_codec_axioms)
  have "valkey_view stored_repository stored_start = Map.empty"
    by (simp add: valkey_view_def store_view_def own_held_def stored_start_def fun_eq_iff own_keys_def)
  then have i: "store_inv (session_ttl sample_config) (valkey_view stored_repository stored_start)" by simp
  from c i requests_keep_stored_lobbies [OF c stored_repository_def stored_fresh i] show ?thesis by blast
qed

text \<open>Another client's update of the same session arrives between the read and the transaction.\<close>

definition contended_repository :: "(session, (session, int) key_space) valkey_repository" where
  "contended_repository = valkey_on ''s'' 300 (\<lambda>x. x) document_decode (\<lambda>w. (w, w))"

definition contended_space :: "(session change list \<times> fault) list \<Rightarrow> (session, int) key_space" where
  "contended_space script = \<lparr>ks_values = [session_key contended_repository 1 \<mapsto> leased_session], ks_sets = (\<lambda>_. []),
     ks_watched = [], ks_touched = False, ks_queue = [], ks_log = [], ks_script = script, ks_world = 0\<rparr>"

theorem save_is_compare_and_set_witness:
  "(let run = \<lambda>script. valkey_save contended_repository (leased_session\<lparr>s_revision := 5\<rparr>) 4 (contended_space script);
        k = session_key contended_repository 1 in
    fst (run []) = Inr () \<and>
    fst (run [([], NoFault), ([], NoFault), ([Wrote k (leased_session\<lparr>s_revision := 5\<rparr>)], NoFault)]) =
      Inl (RepositoryConflict ''session revision changed during update'')) \<and>
   committed contended_repository (leased_session\<lparr>s_revision := 5\<rparr>) 4 (contended_space [])
     (snd (valkey_save contended_repository (leased_session\<lparr>s_revision := 5\<rparr>) 4 (contended_space [])))"
proof -
  let ?save = "valkey_save contended_repository (leased_session\<lparr>s_revision := 5\<rparr>) 4 (contended_space [])"
  have run: "fst ?save = Inr ()" by code_simp
  have conflict: "fst (valkey_save contended_repository (leased_session\<lparr>s_revision := 5\<rparr>) 4
      (contended_space [([], NoFault), ([], NoFault),
        ([Wrote (session_key contended_repository 1) (leased_session\<lparr>s_revision := 5\<rparr>)], NoFault)])) =
      Inl (RepositoryConflict ''session revision changed during update'')" by code_simp
  have eq: "?save = (Inr (), snd ?save)" using run by (metis prod.collapse)
  have "committed contended_repository (leased_session\<lparr>s_revision := 5\<rparr>) 4 (contended_space []) (snd ?save)"
    using save_is_compare_and_set [OF contended_repository_def _ eq] by simp
  with run conflict show ?thesis by (simp add: Let_def)
qed

end
