(* ===== verification/Paths.thy ===== *)
theory Paths
  imports PyText
begin

text \<open>
  The part of Python's \<open>pathlib\<close> the services use. File names are code points, so a path is
  the list of its components; \<open>pure_path\<close> is what \<open>Path(text)\<close> holds before it is
  resolved, \<open>path\<close> an absolute path.
\<close>

type_synonym path = "ustring list"

record pure_path =
  pp_absolute :: bool
  pp_parts :: path

fun split_at :: "'a \<Rightarrow> 'a list \<Rightarrow> 'a list list" where
  "split_at sep [] = [[]]"
| "split_at sep (c # cs) =
     (if c = sep then [] # split_at sep cs
      else case split_at sep cs of [] \<Rightarrow> [[c]] | w # ws \<Rightarrow> (c # w) # ws)"

text \<open>The components of a text: empty ones and single dots are dropped.\<close>

definition text_parts :: "nat \<Rightarrow> ustring \<Rightarrow> path" where
  "text_parts sep t = filter (\<lambda>w. w \<noteq> [] \<and> w \<noteq> [46]) (split_at sep t)"

text \<open>\<open>Path(text)\<close>.\<close>

definition pure_path_of :: "ustring \<Rightarrow> pure_path" where
  "pure_path_of t = \<lparr>pp_absolute = (take 1 t = [47]), pp_parts = text_parts 47 t\<rparr>"

definition at_root :: "path \<Rightarrow> pure_path" where
  "at_root p = \<lparr>pp_absolute = True, pp_parts = p\<rparr>"

text \<open>\<open>str(path)\<close> of an absolute path.\<close>

definition path_text :: "path \<Rightarrow> ustring" where
  "path_text p = (if p = [] then [47] else concat (map (\<lambda>w. 47 # w) p))"

definition is_relative_to :: "path \<Rightarrow> path \<Rightarrow> bool" where
  "is_relative_to p root \<longleftrightarrow> take (length root) p = root"

text \<open>\<open>path.relative_to(root)\<close>, which raises when the path is elsewhere.\<close>

definition relative_to :: "path \<Rightarrow> path \<Rightarrow> path option" where
  "relative_to p root = (if is_relative_to p root then Some (drop (length root) p) else None)"

text \<open>
  \<open>path.suffix\<close>: from the last dot of the name on, if anything but dots stands before it.
\<close>

definition name_suffix :: "ustring \<Rightarrow> ustring" where
  "name_suffix n =
     (let tail = takeWhile (\<lambda>c. c \<noteq> 46) (rev n); head = dropWhile (\<lambda>c. c \<noteq> 46) (rev n) in
      if list_ex (\<lambda>c. c \<noteq> 46) head then 46 # rev tail else [])"

definition path_suffix :: "path \<Rightarrow> ustring" where
  "path_suffix p = (if p = [] then [] else name_suffix (last p))"

section \<open>Windows paths\<close>

definition is_separator :: "nat \<Rightarrow> bool" where
  "is_separator c \<longleftrightarrow> c = 47 \<or> c = 92"

text \<open>\<open>PureWindowsPath(text).is_absolute()\<close>: two separators, or a drive letter and a separator.\<close>

definition windows_absolute :: "ustring \<Rightarrow> bool" where
  "windows_absolute s \<longleftrightarrow>
     (case s of
        a # b # cs \<Rightarrow> is_separator a \<and> is_separator b \<or> b = 58 \<and> cs \<noteq> [] \<and> is_separator (hd cs)
      | _ \<Rightarrow> False)"

text \<open>The index of a code point at or after a position.\<close>

definition find_from :: "nat \<Rightarrow> nat \<Rightarrow> ustring \<Rightarrow> nat option" where
  "find_from c i t =
     (let n = i + length (takeWhile (\<lambda>d. d \<noteq> c) (drop i t)) in if n < length t then Some n else None)"

definition unc_prefix :: "ustring \<Rightarrow> bool" where
  "unc_prefix t \<longleftrightarrow>
     map (\<lambda>c. if 97 \<le> c \<and> c \<le> 122 then c - 32 else c) (take 8 t) = [92, 92, 63, 92, 85, 78, 67, 92]"

text \<open>\<open>ntpath.splitroot\<close> of a text whose separators are backslashes: drive, root and rest.\<close>

definition windows_splitroot :: "ustring \<Rightarrow> ustring \<times> ustring \<times> ustring" where
  "windows_splitroot t =
     (if take 2 t = [92, 92]
      then (case find_from 92 (if unc_prefix t then 8 else 2) t of
              None \<Rightarrow> (t, [], [])
            | Some i \<Rightarrow> (case find_from 92 (i + 1) t of
                None \<Rightarrow> (t, [], [])
              | Some j \<Rightarrow> (take j t, [92], drop (j + 1) t)))
      else if take 1 t = [92] then ([], [92], drop 1 t)
      else if take 1 (drop 1 t) = [58]
      then (if take 1 (drop 2 t) = [92] then (take 2 t, [92], drop 3 t) else (take 2 t, [], drop 2 t))
      else ([], [], t))"

definition windows_parse :: "ustring \<Rightarrow> ustring \<times> ustring \<times> path" where
  "windows_parse t =
     (let (drive, root, rest) = windows_splitroot (map (\<lambda>c. if c = 47 then 92 else c) t);
          share = split_at 92 drive;
          rooted = (root = [] \<and> take 1 drive = [92] \<and> last drive \<noteq> 92 \<and>
            (length share = 4 \<and> share ! 2 \<notin> {[], [63], [46], [63, 46]} \<or> length share = 6))
      in (drive, if rooted then [92] else root, text_parts 92 rest))"

fun join_parts :: "nat \<Rightarrow> path \<Rightarrow> ustring" where
  "join_parts sep [] = []"
| "join_parts sep [w] = w"
| "join_parts sep (w # v # ws) = w @ sep # join_parts sep (v # ws)"

definition windows_text :: "ustring \<times> ustring \<times> path \<Rightarrow> ustring" where
  "windows_text d =
     (case d of (drive, root, tail) \<Rightarrow>
        if drive \<noteq> [] \<or> root \<noteq> [] then drive @ root @ join_parts 92 tail
        else let tail = (if tail \<noteq> [] \<and> take 1 (drop 1 (hd tail)) = [58] then [46] # tail else tail) in
             if tail = [] then [46] else join_parts 92 tail)"

text \<open>
  \<open>str(PureWindowsPath(root).joinpath(*parts))\<close> for plain components, which hold no separator and
  no colon.
\<close>

definition windows_join :: "ustring \<Rightarrow> path \<Rightarrow> ustring" where
  "windows_join root ps = (case windows_parse root of (drive, r, tail) \<Rightarrow> windows_text (drive, r, tail @ ps))"

definition posix_join :: "ustring \<Rightarrow> path \<Rightarrow> ustring" where
  "posix_join root ps =
     (if pp_absolute (pure_path_of root) then path_text (text_parts 47 root @ ps)
      else if text_parts 47 root @ ps = [] then [46] else join_parts 47 (text_parts 47 root @ ps))"

section \<open>Facts about paths\<close>

lemma relative_to_SomeD: "relative_to p root = Some r \<Longrightarrow> p = root @ r"
  unfolding relative_to_def is_relative_to_def by (metis append_take_drop_id option.inject option.distinct(1))

lemma relative_to_append [simp]: "relative_to (root @ r) root = Some r"
  by (simp add: relative_to_def is_relative_to_def)

lemma split_at_nonempty: "split_at sep t \<noteq> []"
  by (induction t) (auto split: list.splits)

lemma split_at_plain: "sep \<notin> set w \<Longrightarrow> split_at sep w = [w]"
  by (induction w) auto

lemma split_at_append: "sep \<notin> set w \<Longrightarrow> split_at sep (w @ sep # t) = w # split_at sep t"
  by (induction w) auto

end
