(* ===== verification/Providers.thy ===== *)
theory Providers
  imports Json Interfaces Paths
begin

text \<open>
  The adapters through which the Session Manager reaches other processes:
  \<open>security/tokens.py\<close>, \<open>providers/execution/runtime_agent.py\<close>,
  \<open>providers/streaming/selkies.py\<close> and \<open>providers/romm/http.py\<close>. The transport, the hash,
  the JSON reader and the file system are parameters; what the adapters send, which
  answers they accept and which exceptions they raise is modelled.
\<close>

section \<open>Derived credentials\<close>

text \<open>\<open>text.encode()\<close> and \<open>uuid.bytes\<close>.\<close>

definition utf8_bytes :: "nat \<Rightarrow> nat list" where
  "utf8_bytes c =
     (if c < 128 then [c]
      else if c < 2048 then [192 + c div 64, 128 + c mod 64]
      else if c < 65536 then [224 + c div 4096, 128 + c div 64 mod 64, 128 + c mod 64]
      else [240 + c div 262144, 128 + c div 4096 mod 64, 128 + c div 64 mod 64, 128 + c mod 64])"

definition encode_utf8 :: "ustring \<Rightarrow> nat list" where
  "encode_utf8 t = concat (map utf8_bytes t)"

definition uuid_bytes :: "uuid \<Rightarrow> nat list" where
  "uuid_bytes u = map (\<lambda>i. unat u div 256 ^ (15 - i) mod 256) [0..<16]"

type_synonym hmac = "nat list \<Rightarrow> nat list \<Rightarrow> string"

definition derive_master_token :: "hmac \<Rightarrow> ustring \<Rightarrow> uuid \<Rightarrow> string" where
  "derive_master_token H secret u = H (encode_utf8 secret) (uuid_bytes u)"

definition controller_label :: "nat list" where
  "controller_label = map of_char ''selkies-controller-v1'' @ [0]"

definition derive_controller_token :: "hmac \<Rightarrow> ustring \<Rightarrow> uuid \<Rightarrow> string" where
  "derive_controller_token H secret u = H (encode_utf8 secret) (controller_label @ uuid_bytes u)"

section \<open>The Runtime Agent adapter\<close>

datatype gpu_profile = Gpu_cpu | Gpu_nvidia

fun gpu_profile_text :: "gpu_profile \<Rightarrow> string" where
  "gpu_profile_text Gpu_cpu = ''cpu''"
| "gpu_profile_text Gpu_nvidia = ''nvidia''"

record agent_config =
  ag_image :: string
  ag_stream_network :: string
  ag_netplay_network :: string
  ag_gpu_profile :: gpu_profile
  ag_netplay_port :: int
  ag_orchestration_secret :: ustring

text \<open>The class \<open>[:space:]\<close> of the patterns of pydantic fields.\<close>

definition is_white_space :: "char \<Rightarrow> bool" where
  "is_white_space c \<longleftrightarrow> (of_char c :: nat) \<in> {9, 10, 11, 12, 13, 32, 133, 160}"

definition image_pattern :: "string \<Rightarrow> bool" where
  "image_pattern s \<longleftrightarrow>
     (let digest = drop (length s - 71) s; name = take (length s - 71) s in
      71 \<le> length s \<and> take 7 digest = ''sha256:'' \<and> list_all is_hex_lower (drop 7 digest) \<and>
      (name = [] \<or> 2 \<le> length name \<and> last name = CHR ''@'' \<and>
         list_all (\<lambda>c. \<not> is_white_space c \<and> c \<noteq> CHR ''@'') (butlast name)))"

definition network_pattern :: "string \<Rightarrow> bool" where
  "network_pattern s \<longleftrightarrow> head_tail_pattern is_alnum_ascii (\<lambda>c. is_alnum_ascii c \<or> c \<in> set ''_.-'') s"

definition agent_config_ok :: "agent_config \<Rightarrow> bool" where
  "agent_config_ok c \<longleftrightarrow> image_pattern (ag_image c) \<and> network_pattern (ag_stream_network c) \<and>
     network_pattern (ag_netplay_network c) \<and> 1024 \<le> ag_netplay_port c \<and> ag_netplay_port c \<le> 65535 \<and>
     32 \<le> length (ag_orchestration_secret c) \<and> length (ag_orchestration_secret c) \<le> 512"

definition make_agent_provider :: "agent_config \<Rightarrow> exn + agent_config" where
  "make_agent_provider c =
     (if ag_stream_network c = ag_netplay_network c
      then Inl (ValueError ''stream and Netplay networks must differ'') else Inr c)"

definition container_name :: "uuid \<Rightarrow> string" where
  "container_name u = ''retrobrowser-runtime-'' @ uuid_hex u"

type_synonym 's agent_requester = "string \<Rightarrow> string \<Rightarrow> json option \<Rightarrow> (exn, 's, int \<times> json) prog"

text \<open>
  \<open>_request\<close> over a transport that answers with a status and a body; the transport's own
  failures are \<open>OSError\<close> and \<open>HTTPException\<close>.
\<close>

definition is_transport_error :: "exn \<Rightarrow> bool" where
  "is_transport_error e \<longleftrightarrow> e = OtherException ''OSError'' \<or> e = OtherException ''HTTPException''"

definition agent_max_response :: nat where
  "agent_max_response = 1024 * 1024"

definition agent_request ::
  "(string \<Rightarrow> string \<Rightarrow> json option \<Rightarrow> (exn, 's, int \<times> string) prog) \<Rightarrow> reader \<Rightarrow>
   's agent_requester" where
  "agent_request exchange loads verb path payload =
     bindE (catchE (exchange verb path payload)
              (\<lambda>e. if is_transport_error e
                   then raiseE (OrchestrationError ''Runtime Agent is unavailable'') else raiseE e))
       (\<lambda>(status, body).
     let raw = take (agent_max_response + 1) body in
     if length raw > agent_max_response
     then raiseE (OrchestrationError ''Runtime Agent response is too large'')
     else case loads raw of
            Inl e \<Rightarrow> raiseE (if is_decode_error e
                             then OrchestrationError ''Runtime Agent returned invalid JSON'' else e)
          | Inr document \<Rightarrow> returnE (status, document))"

definition health_of_json :: "json \<Rightarrow> health_status option" where
  "health_of_json v =
     (case json_text v of
        None \<Rightarrow> None
      | Some s \<Rightarrow>
          if s = ''none'' then Some HS_none
          else if s = ''starting'' then Some HS_starting
          else if s = ''healthy'' then Some HS_healthy
          else if s = ''unhealthy'' then Some HS_unhealthy else None)"

definition invalid_record :: exn where
  "invalid_record = OrchestrationError ''Runtime Agent returned an invalid runtime record''"

definition handle :: "int \<Rightarrow> json \<Rightarrow> exn + runtime_handle" where
  "handle status document =
     (if status < 200 \<or> status \<ge> 300
      then Inl (OrchestrationError (''Runtime Agent rejected the operation with HTTP '' @ str_of_int status))
      else if \<not> is_object document then Inl invalid_record
      else case json_get document ''participant_id'' of
        None \<Rightarrow> Inl invalid_record
      | Some pid \<Rightarrow> (case uuid_of_str (py_str pid) of
          None \<Rightarrow> Inl invalid_record
        | Some u \<Rightarrow> (case json_get document ''state'' of
            None \<Rightarrow> Inl invalid_record
          | Some st \<Rightarrow> (case json_get document ''health_status'' of
              None \<Rightarrow> Inl invalid_record
            | Some h \<Rightarrow> (case health_of_json h of
                None \<Rightarrow> Inl invalid_record
              | Some hs \<Rightarrow> Inr \<lparr>h_runtime_id = u, h_state = py_str st, h_health_status = hs\<rparr>)))))"

definition create_payload :: "hmac \<Rightarrow> agent_config \<Rightarrow> runtime_request \<Rightarrow> json" where
  "create_payload H c r =
     JObj [(''schema_version'', JInt 1),
       (''session_id'', JStr (uuid_str (rr_session_id r))),
       (''participant_id'', JStr (uuid_str (rr_participant_id r))),
       (''user_id'', JStr (rr_user_id r)),
       (''player_name'', JText (rr_player_name r)),
       (''image'', JStr (ag_image c)),
       (''rom_path'', JText (rr_rom_path r)),
       (''rom_sha256'', JStr (rr_rom_sha256 r)),
       (''core_profile'', JStr (rr_core_profile r)),
       (''netplay'', JObj [(''role'', JStr (case rr_role r of Host \<Rightarrow> ''host'' | Client \<Rightarrow> ''client'')),
          (''host'', case rr_host_participant_id r of None \<Rightarrow> JNull | Some u \<Rightarrow> JStr (container_name u)),
          (''port'', JInt (ag_netplay_port c))]),
       (''stream_subfolder'', JStr (''/stream/'' @ uuid_hex (rr_participant_id r))),
       (''stream_network'', JStr (ag_stream_network c)),
       (''netplay_network'', JStr (ag_netplay_network c)),
       (''gpu_profile'', JStr (gpu_profile_text (ag_gpu_profile c))),
       (''selkies_master_token'',
          JStr (derive_master_token H (ag_orchestration_secret c) (rr_participant_id r)))]"

definition provider_create ::
  "hmac \<Rightarrow> agent_config \<Rightarrow> 's agent_requester \<Rightarrow> runtime_request \<Rightarrow> (exn, 's, runtime_handle) prog" where
  "provider_create H c request r =
     (if rr_role r = Host \<and> rr_host_participant_id r \<noteq> None
      then raiseE (ValueError ''host runtime cannot select a Netplay host'')
      else if rr_role r = Client \<and> rr_host_participant_id r = None
      then raiseE (ValueError ''client runtime requires a Netplay host participant'')
      else bindE (request ''POST'' ''/v1/runtimes'' (Some (create_payload H c r))) (\<lambda>(status, document).
           resultE (handle status document)))"

definition provider_inspect :: "'s agent_requester \<Rightarrow> uuid \<Rightarrow> (exn, 's, runtime_handle) prog" where
  "provider_inspect request u =
     bindE (request ''GET'' (''/v1/runtimes/'' @ uuid_str u) None) (\<lambda>(status, document).
     resultE (handle status document))"

definition provider_list :: "'s agent_requester \<Rightarrow> (exn, 's, runtime_handle list) prog" where
  "provider_list request =
     bindE (request ''GET'' ''/v1/runtimes'' None) (\<lambda>(status, document).
     if status \<noteq> 200
     then raiseE (OrchestrationError (''Runtime Agent rejected the operation with HTTP '' @ str_of_int status))
     else case json_get document ''items'' of
            Some (JList items) \<Rightarrow> mapE (\<lambda>item. resultE (handle 200 item)) items
          | _ \<Rightarrow> raiseE (OrchestrationError ''Runtime Agent returned an invalid runtime list''))"

definition provider_remove :: "'s agent_requester \<Rightarrow> uuid \<Rightarrow> (exn, 's, unit) prog" where
  "provider_remove request u =
     bindE (request ''DELETE'' (''/v1/runtimes/'' @ uuid_str u) None) (\<lambda>(status, document).
     if status \<notin> {200, 404}
     then raiseE (OrchestrationError (''Runtime Agent rejected removal with HTTP '' @ str_of_int status))
     else returnE ())"

definition provider_health :: "'s agent_requester \<Rightarrow> (exn, 's, bool) prog" where
  "provider_health request =
     catchE (bindE (request ''GET'' ''/v1/health'' None) (\<lambda>(status, document).
             returnE (status = 200 \<and> equals_flag ''ok'' document)))
       (\<lambda>e. if is_orchestration_error e then returnE False else raiseE e)"

section \<open>The Selkies adapter\<close>

record selkies_config =
  sk_orchestration_secret :: ustring
  sk_port :: int

definition selkies_config_ok :: "selkies_config \<Rightarrow> bool" where
  "selkies_config_ok c \<longleftrightarrow> 32 \<le> length (sk_orchestration_secret c) \<and>
     length (sk_orchestration_secret c) \<le> 512 \<and> 1 \<le> sk_port c \<and> sk_port c \<le> 65535"

type_synonym 's selkies_requester =
  "string \<Rightarrow> string \<Rightarrow> (string \<times> string) list \<Rightarrow> json \<Rightarrow> (exn, 's, int) prog"

definition selkies_max_response :: nat where
  "selkies_max_response = 64 * 1024"

definition selkies_request ::
  "(string \<Rightarrow> string \<Rightarrow> (string \<times> string) list \<Rightarrow> json \<Rightarrow> (exn, 's, int \<times> string) prog) \<Rightarrow>
   's selkies_requester" where
  "selkies_request exchange authority path headers payload =
     bindE (catchE (exchange authority path headers payload)
              (\<lambda>e. if is_transport_error e
                   then raiseE (OrchestrationError ''Selkies token API is unavailable'') else raiseE e))
       (\<lambda>(status, body).
     if length (take (selkies_max_response + 1) body) > selkies_max_response
     then raiseE (OrchestrationError ''Selkies token API response is too large'')
     else returnE status)"

definition token_path :: "uuid \<Rightarrow> string" where
  "token_path u = ''/stream/'' @ uuid_hex u @ ''/api/tokens''"

definition replace_tokens ::
  "hmac \<Rightarrow> selkies_config \<Rightarrow> 's selkies_requester \<Rightarrow> uuid \<Rightarrow> json \<Rightarrow> (exn, 's, unit) prog" where
  "replace_tokens H c request u tokens =
     bindE (request (container_name u @ '':'' @ str_of_int (sk_port c)) (token_path u)
              [(''Authorization'', ''Bearer '' @ derive_master_token H (sk_orchestration_secret c) u),
               (''Content-Type'', ''application/json'')] tokens) (\<lambda>status.
     if status < 200 \<or> status \<ge> 300
     then raiseE (OrchestrationError (''Selkies token API rejected the operation with HTTP '' @ str_of_int status))
     else returnE ())"

definition provision ::
  "hmac \<Rightarrow> selkies_config \<Rightarrow> 's selkies_requester \<Rightarrow> uuid \<Rightarrow> int \<Rightarrow> (exn, 's, string) prog" where
  "provision H c request u slot =
     (if slot < 1 \<or> slot > 4 then raiseE (ValueError ''Selkies gamepad slot must be between 1 and 4'')
      else let token = derive_controller_token H (sk_orchestration_secret c) u in
        bindE (replace_tokens H c request u
                 (JObj [(token, JObj [(''role'', JStr ''controller''), (''slot'', JInt slot),
                    (''mk_control'', JBool True)])])) (\<lambda>_.
        returnE token))"

definition revoke :: "hmac \<Rightarrow> selkies_config \<Rightarrow> 's selkies_requester \<Rightarrow> uuid \<Rightarrow> (exn, 's, unit) prog" where
  "revoke H c request u = replace_tokens H c request u (JObj [])"

section \<open>The RomM adapter\<close>

text \<open>
  The file system resolves a path to the real one, through symbolic links, or raises, and tells
  whether a path is a regular file.
\<close>

record file_system =
  fs_resolve :: "path \<Rightarrow> exn + path"
  fs_is_file :: "path \<Rightarrow> bool"

definition canonical_path :: "file_system \<Rightarrow> path \<Rightarrow> json \<Rightarrow> exn + path" where
  "canonical_path F rom_root relative_path =
     (case json_ustring relative_path of
        Some text \<Rightarrow>
          if take 1 text = [47] \<or> windows_absolute text \<or> [46, 46] \<in> set (text_parts 47 text)
          then Inl (OrchestrationError ''RomM returned an unsafe game path'')
          else (case fs_resolve F rom_root of
              Inl e \<Rightarrow> if e = OtherException ''OSError''
                       then Inl (OrchestrationError ''RomM game file is unavailable'') else Inl e
            | Inr root \<Rightarrow> (case fs_resolve F (root @ text_parts 47 text) of
                Inl e \<Rightarrow> if e = OtherException ''OSError''
                         then Inl (OrchestrationError ''RomM game file is unavailable'') else Inl e
              | Inr resolved \<Rightarrow>
                  if \<not> fs_is_file F resolved \<or> \<not> is_relative_to resolved root
                  then Inl (OrchestrationError ''RomM game path escaped the approved root'')
                  else Inr resolved))
      | None \<Rightarrow> Inl (OrchestrationError ''RomM returned an invalid game record''))"

type_synonym 's romm_requester = "string \<Rightarrow> (exn, 's, int \<times> json) prog"

definition romm_max_response :: nat where
  "romm_max_response = 64 * 1024"

text \<open>
  \<open>_request\<close>: an HTTP error status is an answer like any other; an empty body reads as \<open>{}\<close>;
  \<open>URLError\<close> is an \<open>OSError\<close>.
\<close>

definition romm_request ::
  "(string \<Rightarrow> (exn, 's, int \<times> string) prog) \<Rightarrow> reader \<Rightarrow> 's romm_requester" where
  "romm_request exchange loads path =
     bindE (catchE (exchange path)
              (\<lambda>e. if e = OtherException ''OSError'' then raiseE (OrchestrationError ''RomM is unavailable'')
                   else raiseE e)) (\<lambda>(status, body).
     let raw = take (romm_max_response + 1) body in
     if length raw > romm_max_response
     then raiseE (OrchestrationError ''RomM response is too large'')
     else if raw = [] then returnE (status, JObj [])
     else case loads raw of
            Inl e \<Rightarrow> raiseE (if is_decode_error e then OrchestrationError ''RomM returned invalid JSON'' else e)
          | Inr document \<Rightarrow> returnE (status, document))"

definition is_lookup_error :: "exn \<Rightarrow> bool" where
  "is_lookup_error e \<longleftrightarrow>
     (case e of KeyError \<Rightarrow> True | ValueError m \<Rightarrow> True | ValidationError m \<Rightarrow> True
      | OtherException m \<Rightarrow> m = ''TypeError'' | _ \<Rightarrow> False)"

definition field :: "json \<Rightarrow> string \<Rightarrow> exn + json" where
  "field d k = (case json_get d k of None \<Rightarrow> Inl KeyError | Some v \<Rightarrow> Inr v)"

text \<open>The body of the \<open>try\<close> statement: four fields, in the order they are read.\<close>

definition game_fields :: "file_system \<Rightarrow> path \<Rightarrow> json \<Rightarrow> exn + int \<times> string \<times> string \<times> path" where
  "game_fields F rom_root d =
     (case field d ''romm_rom_id'' of Inl e \<Rightarrow> Inl e | Inr v \<Rightarrow>
      case json_int v of Inl e \<Rightarrow> Inl e | Inr rom \<Rightarrow>
      case field d ''platform'' of Inl e \<Rightarrow> Inl e | Inr platform \<Rightarrow>
      case field d ''rom_sha256'' of Inl e \<Rightarrow> Inl e | Inr sha \<Rightarrow>
      case field d ''relative_path'' of Inl e \<Rightarrow> Inl e | Inr rel \<Rightarrow>
      case canonical_path F rom_root rel of Inl e \<Rightarrow> Inl e | Inr p \<Rightarrow>
      Inr (rom, py_str platform, py_str sha, p))"

definition resolve_game ::
  "file_system \<Rightarrow> path \<Rightarrow> 's romm_requester \<Rightarrow> int \<Rightarrow> (exn, 's, game_record) prog" where
  "resolve_game F rom_root request rom =
     bindE (request (''/multiplayer/games/'' @ str_of_int rom)) (\<lambda>(status, document).
     if status = 404 then raiseE KeyError
     else if status \<noteq> 200 \<or> \<not> is_object document
     then raiseE (OrchestrationError (''RomM rejected game resolution with HTTP '' @ str_of_int status))
     else case game_fields F rom_root document of
       Inl e \<Rightarrow> if is_lookup_error e
                then raiseE (OrchestrationError ''RomM returned an invalid game record'') else raiseE e
     | Inr (returned, platform, sha, p) \<Rightarrow>
         if returned \<noteq> rom then raiseE (OrchestrationError ''RomM returned a mismatched game record'')
         else let g = \<lparr>g_romm_rom_id = returned, g_platform = platform, g_canonical_path = path_text p,
                       g_rom_sha256 = sha\<rparr>
              in resultE (construct (game_record_ok g) g))"

definition romm_provider_health :: "'s romm_requester \<Rightarrow> (exn, 's, bool) prog" where
  "romm_provider_health request =
     catchE (bindE (request ''/multiplayer/health'') (\<lambda>(status, document).
             returnE (status = 200 \<and> equals_flag ''ready'' document)))
       (\<lambda>e. if is_orchestration_error e then returnE False else raiseE e)"

section \<open>What the adapters guarantee\<close>

lemma handle_errors: "handle status document = Inl e \<Longrightarrow> is_orchestration_error e"
  by (auto simp: handle_def invalid_record_def split: if_splits option.splits)

lemma digits_inject:
  assumes "\<forall>i < k. m div 256 ^ i mod 256 = n div 256 ^ i mod (256 :: nat)"
  shows "m mod 256 ^ k = n mod 256 ^ k"
  using assms
proof (induction k)
  case (Suc k)
  have "a mod 256 ^ Suc k = 256 ^ k * (a div 256 ^ k mod 256) + a mod 256 ^ k" for a :: nat
    by (metis mod_mult2_eq power_Suc2)
  with Suc show ?case by simp
qed simp

lemma uuid_bytes_inject:
  assumes "uuid_bytes u = uuid_bytes v"
  shows "u = v"
proof -
  have "unat u div 256 ^ i mod 256 = unat v div 256 ^ i mod 256" if "i < 16" for i
  proof -
    have "uuid_bytes u ! (15 - i) = uuid_bytes v ! (15 - i)" using assms by simp
    moreover have "[0..<16] ! (15 - i) = 15 - i" by (subst nth_upt) auto
    moreover have "15 - (15 - i) = i" using that by simp
    ultimately show ?thesis by (simp add: uuid_bytes_def)
  qed
  then have "unat u mod 256 ^ 16 = unat v mod 256 ^ 16" by (intro digits_inject) blast
  moreover have "unat u < 256 ^ 16" "unat v < 256 ^ 16"
    using unsigned_less [of u, where ?'a = nat] unsigned_less [of v, where ?'a = nat] by simp_all
  ultimately show ?thesis by (simp add: word_unat_eq_iff)
qed

lemma length_uuid_bytes [simp]: "length (uuid_bytes u) = 16"
  by (simp add: uuid_bytes_def)

lemma uuid_bytes_range: "b \<in> set (uuid_bytes u) \<Longrightarrow> b < 256"
  by (auto simp: uuid_bytes_def)

lemma controller_label_range: "b \<in> set controller_label \<Longrightarrow> b < 256"
  by (auto simp: controller_label_def)

text \<open>What the services rely on of HMAC-SHA-256: different messages, different digests.\<close>

definition collision_free :: "hmac \<Rightarrow> bool" where
  "collision_free H \<longleftrightarrow> (\<forall>k m m'. (\<forall>b \<in> set m \<union> set m'. b < 256) \<longrightarrow> H k m = H k m' \<longrightarrow> m = m')"



text \<open>
  C10. A game resolved through RomM lies inside the ROM root: whatever document the service
  returns and wherever symbolic links lead, the record's path is that of a regular file
  whose resolved location is below the resolved root, its id is the requested one, and it
  satisfies the field constraints of \<open>GameRecord\<close>.
\<close>

theorem resolved_game_is_confined:
  assumes "resolve_game F rom_root request rom s = (Inr g, t)"
  shows "\<exists>root p. fs_resolve F rom_root = Inr root \<and> is_relative_to p root \<and> fs_is_file F p \<and>
    g_canonical_path g = path_text p \<and> g_romm_rom_id g = rom \<and> game_record_ok g"
proof -
  have "wp (resolve_game F rom_root request rom) (\<lambda>g _.
      \<exists>root p. fs_resolve F rom_root = Inr root \<and> is_relative_to p root \<and> fs_is_file F p \<and>
        g_canonical_path g = path_text p \<and> g_romm_rom_id g = rom \<and> game_record_ok g) (\<lambda>_ _. True) s"
    unfolding resolve_game_def wp_simps Let_def
    by (rule wp_I)
      (auto simp: game_fields_def canonical_path_def split: prod.splits sum.splits if_splits option.splits)
  from wp_run(1) [OF this assms] show ?thesis .
qed

theorem resolved_game_is_confined_witness:
  "\<exists>F request g t. resolve_game F [ustring_of ''roms''] request 7 () = (Inr g, t) \<and>
     g_canonical_path g = ustring_of ''/roms/snes/a.sfc'' \<and> game_record_ok g"
proof -
  define F where "F = \<lparr>fs_resolve = Inr, fs_is_file = (\<lambda>p. p = map ustring_of [''roms'', ''snes'', ''a.sfc''])\<rparr>"
  define request :: "unit romm_requester" where
    "request = (\<lambda>_. returnE (200, JObj [(''romm_rom_id'', JStr ''7''), (''platform'', JStr ''snes''),
       (''rom_sha256'', JStr (replicate 64 (CHR ''a''))), (''relative_path'', JStr ''snes/a.sfc'')]))"
  define g where "g = \<lparr>g_romm_rom_id = 7, g_platform = ''snes'', g_canonical_path = ustring_of ''/roms/snes/a.sfc'',
    g_rom_sha256 = replicate 64 (CHR ''a'')\<rparr>"
  have "resolve_game F [ustring_of ''roms''] request 7 () = (Inr g, ())"
    unfolding F_def request_def g_def by code_simp
  moreover from resolved_game_is_confined [OF this] have "game_record_ok g" by blast
  moreover have "g_canonical_path g = ustring_of ''/roms/snes/a.sfc''" by (simp add: g_def)
  ultimately show ?thesis by blast
qed

text \<open>
  The sweeper can rely on one exception class: over a transport whose only failures are
  \<open>OSError\<close> and \<open>HTTPException\<close> and a JSON reader whose only failures are decode errors,
  inspecting a runtime raises nothing but \<open>OrchestrationError\<close>, whatever bytes, status or document
  the agent answers with.
\<close>

theorem inspect_raises_orchestration_errors:
  assumes "\<forall>verb path payload s e t. exchange verb path payload s = (Inl e, t) \<longrightarrow> is_transport_error e"
    and "\<forall>raw e. loads raw = Inl e \<longrightarrow> is_decode_error e"
    and "provider_inspect (agent_request exchange loads) u s = (Inl e, t)"
  shows "is_orchestration_error e"
proof -
  have transport: "exchange verb path payload s = (Inl e, t) \<Longrightarrow> is_transport_error e"
    for verb path payload s e t using assms(1) by blast
  have reader: "loads raw = Inl e \<Longrightarrow> is_decode_error e" for raw e using assms(2) by blast
  have "wp (provider_inspect (agent_request exchange loads) u) (\<lambda>_ _. True)
      (\<lambda>e _. is_orchestration_error e) s"
    unfolding provider_inspect_def agent_request_def wp_simps Let_def
    by (rule wp_I)
      (auto dest: transport reader handle_errors split: prod.splits sum.splits option.splits)
  from wp_run(2) [OF this assms(3)] show ?thesis .
qed

theorem inspect_raises_orchestration_errors_witness:
  "provider_inspect (agent_request (\<lambda>_ _ _. raiseE (OtherException ''OSError'')) (\<lambda>_. Inr JNull)) 5 () =
     (Inl (OrchestrationError ''Runtime Agent is unavailable''), ()) \<and>
   is_orchestration_error (OrchestrationError ''Runtime Agent is unavailable'')"
proof -
  let ?x = "\<lambda>_ _ _. raiseE (OtherException ''OSError'') :: (exn, unit, int \<times> string) prog"
  have run: "provider_inspect (agent_request ?x (\<lambda>_. Inr JNull)) 5 () =
      (Inl (OrchestrationError ''Runtime Agent is unavailable''), ())"
    by (simp add: provider_inspect_def agent_request_def bindE_def catchE_def raiseE_def is_transport_error_def)
  have "\<forall>verb path payload s e t. ?x verb path payload s = (Inl e, t) \<longrightarrow> is_transport_error e"
    by (simp add: raiseE_def is_transport_error_def)
  from run inspect_raises_orchestration_errors [OF this _ run] show ?thesis by simp
qed

end
