(* ===== verification/Api.thy ===== *)
theory Api
  imports ServiceBehaviour Providers
begin

text \<open>
  \<open>api/app.py\<close> of the Session Manager: the credential check, the identity headers, the routes with the
  service call each of them makes, the answers to exceptions, the audit entries and the request
  and error counters, the startup and the periodic sweep.

  FastAPI is the record \<open>framework\<close>: what it makes of a body, how it reads a UUID in a path and what
  it answers when no route fits. Header values are Latin-1 text, as the server hands them over. The
  duration histogram and the rendering of metrics are not modelled.
\<close>

section \<open>Requests and answers\<close>

record api_request =
  rq_method :: string
  rq_path :: string
  rq_authorization :: "string option"
  rq_user_id :: "string option"
  rq_display_name :: "string option"
  rq_body :: string

datatype api_value =
    Empty
  | Flag string bool
  | Metrics_text "session list" int int
  | A_capacity runtime_capacity_view
  | A_diagnostic session_diagnostic
  | A_session session
  | A_session_list "session list"
  | A_launch stream_launch
  | Error_text string
  | Detail string
  | Internal_error

record api_response =
  rs_status :: int
  rs_body :: api_value

datatype api_event =
    Request_counted string string int
  | Error_counted string string
  | Audited string string uuid "uuid option"

record framework =
  fw_body :: "string \<Rightarrow> api_response + json option"
  fw_uuid :: "string \<Rightarrow> uuid option"
  fw_unrouted :: "api_request \<Rightarrow> api_response \<times> string option"

record api_app =
  app_token :: ustring
  app_cleanup_interval :: int
  app_unicode :: unicode_data
  app_hmac :: hmac
  app_framework :: framework

definition answer :: "int \<Rightarrow> api_value \<Rightarrow> api_response" where
  "answer st b = \<lparr>rs_status = st, rs_body = b\<rparr>"

definition create_app :: "api_app \<Rightarrow> exn + api_app" where
  "create_app app =
     (if length (app_token app) < 32 then Inl (ValueError ''service token must contain at least 32 characters'')
      else if app_cleanup_interval app \<le> 0 then Inl (ValueError ''cleanup interval must be positive'')
      else Inr app)"

definition audit_actor :: "api_app \<Rightarrow> string \<Rightarrow> string" where
  "audit_actor app uid =
     take 24 (app_hmac app (encode_utf8 (app_token app))
       (map of_char ''retrobrowser-audit-user'' @ [0] @ encode_utf8 (ustring_of uid)))"

definition audit :: "api_app \<Rightarrow> string \<Rightarrow> actor \<Rightarrow> uuid \<Rightarrow> uuid option \<Rightarrow> api_event" where
  "audit app act a sid pid = Audited act (audit_actor app (a_user_id a)) sid pid"

section \<open>The credential\<close>

text \<open>\<open>str.partition\<close> at the first space.\<close>

fun partition_space :: "string \<Rightarrow> string \<times> string \<times> string" where
  "partition_space [] = ([], [], [])"
| "partition_space (c # cs) =
     (if c = CHR '' '' then ([], '' '', cs)
      else case partition_space cs of (a, sep, b) \<Rightarrow> (c # a, sep, b))"

definition lower_char :: "char \<Rightarrow> char" where
  "lower_char c = (if char_between CHR ''A'' CHR ''Z'' c then char_of (of_char c + 32 :: nat) else c)"

text \<open>\<open>secrets.compare_digest\<close> of two texts raises \<open>TypeError\<close> when either is not ASCII.\<close>

definition compare_digest :: "ustring \<Rightarrow> ustring \<Rightarrow> exn + bool" where
  "compare_digest a b =
     (if list_all (\<lambda>c. c < 128) a \<and> list_all (\<lambda>c. c < 128) b then Inr (a = b)
      else Inl (OtherException ''TypeError''))"

definition credential_valid :: "api_app \<Rightarrow> string option \<Rightarrow> exn + bool" where
  "credential_valid app auth =
     (case partition_space (case auth of None \<Rightarrow> [] | Some h \<Rightarrow> h) of
        (scheme, separator, credential) \<Rightarrow>
          if separator = '' '' \<and> map lower_char scheme = ''bearer''
          then compare_digest (ustring_of credential) (app_token app) else Inr False)"

section \<open>Routes\<close>

datatype endpoint =
    Health | Readiness | Prometheus_metrics | Runtime_capacity | Session_diagnostics | Create_session
  | List_sessions | Get_session | Join_session | Leave_session | Launch_session | Heartbeat_session
  | Kick_participant | Close_session

fun endpoint_method :: "endpoint \<Rightarrow> string" where
  "endpoint_method Health = ''GET''"
| "endpoint_method Readiness = ''GET''"
| "endpoint_method Prometheus_metrics = ''GET''"
| "endpoint_method Runtime_capacity = ''GET''"
| "endpoint_method Session_diagnostics = ''GET''"
| "endpoint_method List_sessions = ''GET''"
| "endpoint_method Get_session = ''GET''"
| "endpoint_method Close_session = ''DELETE''"
| "endpoint_method _ = ''POST''"

fun endpoint_segments :: "endpoint \<Rightarrow> string list" where
  "endpoint_segments Health = [''healthz'']"
| "endpoint_segments Readiness = [''readyz'']"
| "endpoint_segments Prometheus_metrics = [''metrics'']"
| "endpoint_segments Runtime_capacity = [''v1'', ''operations'', ''capacity'']"
| "endpoint_segments Session_diagnostics = [''v1'', ''sessions'', ''{session_id}'', ''diagnostics'']"
| "endpoint_segments Create_session = [''v1'', ''sessions'']"
| "endpoint_segments List_sessions = [''v1'', ''sessions'']"
| "endpoint_segments Get_session = [''v1'', ''sessions'', ''{session_id}'']"
| "endpoint_segments Join_session = [''v1'', ''sessions'', ''{session_id}'', ''join'']"
| "endpoint_segments Leave_session = [''v1'', ''sessions'', ''{session_id}'', ''leave'']"
| "endpoint_segments Launch_session = [''v1'', ''sessions'', ''{session_id}'', ''launch'']"
| "endpoint_segments Heartbeat_session = [''v1'', ''sessions'', ''{session_id}'', ''heartbeat'']"
| "endpoint_segments Kick_participant =
     [''v1'', ''sessions'', ''{session_id}'', ''participants'', ''{participant_id}'', ''kick'']"
| "endpoint_segments Close_session = [''v1'', ''sessions'', ''{session_id}'']"

definition endpoints :: "endpoint list" where
  "endpoints = [Health, Readiness, Prometheus_metrics, Runtime_capacity, Session_diagnostics, Create_session,
     List_sessions, Get_session, Join_session, Leave_session, Launch_session, Heartbeat_session,
     Kick_participant, Close_session]"

text \<open>A segment in braces matches any text without a slash that is not empty.\<close>

fun match_segments :: "string list \<Rightarrow> string list \<Rightarrow> string list option" where
  "match_segments [] [] = Some []"
| "match_segments (t # ts) (w # ws) =
     (if take 1 t = ''{'' then (if w = [] then None else map_option (Cons w) (match_segments ts ws))
      else if t = w then match_segments ts ws else None)"
| "match_segments _ _ = None"

definition match_path :: "endpoint \<Rightarrow> string \<Rightarrow> string list option" where
  "match_path e path = match_segments ([] # endpoint_segments e) (split_at (CHR ''/'') path)"

fun find_route :: "endpoint list \<Rightarrow> string \<Rightarrow> string \<Rightarrow> (endpoint \<times> string list) option" where
  "find_route [] m path = None"
| "find_route (e # es) m path =
     (case match_path e path of
        Some ps \<Rightarrow> if endpoint_method e = m then Some (e, ps) else find_route es m path
      | None \<Rightarrow> find_route es m path)"

text \<open>\<open>route.path\<close>, the label under which a routed request is counted.\<close>

definition route_path :: "endpoint \<Rightarrow> string" where
  "route_path e = concat (map (\<lambda>t. CHR ''/'' # t) (endpoint_segments e))"

section \<open>Parameters of an operation\<close>

definition authenticated_actor :: "api_app \<Rightarrow> string option \<Rightarrow> string option \<Rightarrow> actor option" where
  "authenticated_actor app uid name =
     (case (uid, name) of
        (Some u, Some n) \<Rightarrow>
          if safe_user_id u \<and> 1 \<le> length n \<and> length n \<le> 64
          then (case make_actor (app_unicode app) u (ustring_of n) of Inl e \<Rightarrow> None | Inr a \<Rightarrow> Some a)
          else None
      | _ \<Rightarrow> None)"

text \<open>\<open>CreateSessionRequest\<close> is strict: three fields of the right type and no other.\<close>

definition create_session_body :: "api_app \<Rightarrow> json option \<Rightarrow> create_session_request option" where
  "create_session_body app body =
     (case body of
        Some (JObj kvs) \<Rightarrow>
          if set (map fst kvs) \<noteq> {''display_name'', ''romm_rom_id'', ''max_players''} then None
          else (case (map_of kvs ''display_name'', map_of kvs ''romm_rom_id'', map_of kvs ''max_players'') of
                  (Some name, Some (JInt rom), Some (JInt players)) \<Rightarrow>
                    (case json_ustring name of
                       None \<Rightarrow> None
                     | Some n \<Rightarrow> (case make_create_session_request (app_unicode app) n rom players of
                         Inl e \<Rightarrow> None | Inr r \<Rightarrow> Some r))
                | _ \<Rightarrow> None)
      | _ \<Rightarrow> None)"

datatype operation =
    Op_capacity
  | Op_diagnostics uuid
  | Op_call call

definition uuid_at :: "api_app \<Rightarrow> string list \<Rightarrow> nat \<Rightarrow> uuid option" where
  "uuid_at app ps i = (if i < length ps then fw_uuid (app_framework app) (ps ! i) else None)"

definition session_operation :: "api_app \<Rightarrow> string list \<Rightarrow> (uuid \<Rightarrow> call) \<Rightarrow> operation option" where
  "session_operation app ps f = map_option (\<lambda>u. Op_call (f u)) (uuid_at app ps 0)"

definition actor_operation ::
  "api_app \<Rightarrow> api_request \<Rightarrow> string list \<Rightarrow> (uuid \<Rightarrow> actor \<Rightarrow> call) \<Rightarrow> operation option" where
  "actor_operation app rq ps f =
     (case authenticated_actor app (rq_user_id rq) (rq_display_name rq) of
        None \<Rightarrow> None | Some a \<Rightarrow> session_operation app ps (\<lambda>u. f u a))"

fun parse_operation :: "api_app \<Rightarrow> api_request \<Rightarrow> json option \<Rightarrow> endpoint \<Rightarrow> string list \<Rightarrow> operation option" where
  "parse_operation app rq body Runtime_capacity ps = Some Op_capacity"
| "parse_operation app rq body Session_diagnostics ps = map_option Op_diagnostics (uuid_at app ps 0)"
| "parse_operation app rq body Create_session ps =
     (case authenticated_actor app (rq_user_id rq) (rq_display_name rq) of
        None \<Rightarrow> None
      | Some a \<Rightarrow> map_option (\<lambda>r. Op_call (Create a r)) (create_session_body app body))"
| "parse_operation app rq body List_sessions ps = Some (Op_call Discover)"
| "parse_operation app rq body Get_session ps = session_operation app ps Get"
| "parse_operation app rq body Join_session ps = actor_operation app rq ps Join"
| "parse_operation app rq body Leave_session ps = actor_operation app rq ps Leave"
| "parse_operation app rq body Launch_session ps = actor_operation app rq ps Launch"
| "parse_operation app rq body Heartbeat_session ps = actor_operation app rq ps Heartbeat"
| "parse_operation app rq body Kick_participant ps =
     (case uuid_at app ps 1 of None \<Rightarrow> None | Some p \<Rightarrow> actor_operation app rq ps (\<lambda>u a. Kick u a p))"
| "parse_operation app rq body Close_session ps = actor_operation app rq ps Close"
| "parse_operation app rq body _ ps = None"

section \<open>Endpoints\<close>

fun run_call :: "api_app \<Rightarrow> service_config \<Rightarrow> 's services \<Rightarrow> call \<Rightarrow> (exn, 's, api_response \<times> api_event list) prog" where
  "run_call app cfg D (Create a r) =
     bindE (create cfg D a r) (\<lambda>x. returnE (answer 201 (A_session x),
       [audit app ''session.create'' a (s_session_id x) None]))"
| "run_call app cfg D Discover = bindE (discover cfg D) (\<lambda>xs. returnE (answer 200 (A_session_list xs), []))"
| "run_call app cfg D (Get k) = bindE (get_session D k) (\<lambda>x. returnE (answer 200 (A_session x), []))"
| "run_call app cfg D (Join k a) =
     bindE (join cfg D k a) (\<lambda>x. returnE (answer 200 (A_session x), [audit app ''participant.join'' a k None]))"
| "run_call app cfg D (Leave k a) =
     bindE (leave D k a) (\<lambda>x. returnE (answer 200 (A_session x), [audit app ''participant.leave'' a k None]))"
| "run_call app cfg D (Launch k a) =
     bindE (launch D k a) (\<lambda>l. returnE (answer 200 (A_launch l), [audit app ''stream.launch'' a k None]))"
| "run_call app cfg D (Heartbeat k a) = bindE (heartbeat cfg D k a) (\<lambda>x. returnE (answer 200 (A_session x), []))"
| "run_call app cfg D (Kick k a p) =
     bindE (kick D k a p) (\<lambda>x. returnE (answer 200 (A_session x), [audit app ''participant.kick'' a k (Some p)]))"
| "run_call app cfg D (Close k a) =
     bindE (close D k a) (\<lambda>_. returnE (answer 204 Empty, [audit app ''session.close'' a k None]))"
| "run_call app cfg D c = raiseE (OtherException ''no endpoint'')"

fun run_operation ::
  "api_app \<Rightarrow> service_config \<Rightarrow> 's services \<Rightarrow> operation \<Rightarrow> (exn, 's, api_response \<times> api_event list) prog" where
  "run_operation app cfg D Op_capacity = bindE (capacity cfg D) (\<lambda>c. returnE (answer 200 (A_capacity c), []))"
| "run_operation app cfg D (Op_diagnostics k) =
     bindE (diagnostics cfg D k) (\<lambda>d. returnE (answer 200 (A_diagnostic d), []))"
| "run_operation app cfg D (Op_call c) = run_call app cfg D c"

text \<open>The exception handlers: the status and the category of the error, or nothing for an exception that has no handler.\<close>

fun exception_handler :: "exn \<Rightarrow> (int \<times> string \<times> string) option" where
  "exception_handler (NotFoundError m) = Some (404, ''not_found'', m)"
| "exception_handler (AuthorizationError m) = Some (403, ''authorization'', m)"
| "exception_handler (ConflictError m) = Some (409, ''conflict'', m)"
| "exception_handler (CapacityError m) = Some (409, ''conflict'', m)"
| "exception_handler (RepositoryConflict m) = Some (409, ''conflict'', m)"
| "exception_handler (OrchestrationError m) = Some (502, ''orchestration'', m)"
| "exception_handler _ = None"

text \<open>
  The middleware \<open>observe_request\<close> around a handler: an answer is counted under the path of the route,
  an exception no handler takes under the path of the request, and is answered by 500.
\<close>

definition observed ::
  "api_request \<Rightarrow> string \<Rightarrow> (exn, 's, api_response \<times> api_event list) prog \<Rightarrow> 's \<Rightarrow> (api_response \<times> api_event list) \<times> 's" where
  "observed rq operation f s =
     (case f s of
        (Inr (r, evs), t) \<Rightarrow> ((r, evs @ [Request_counted (rq_method rq) operation (rs_status r)]), t)
      | (Inl e, t) \<Rightarrow>
          (case exception_handler e of
             Some (st, cat, m) \<Rightarrow>
               ((answer st (Error_text m),
                 [Error_counted cat operation, Request_counted (rq_method rq) operation st]), t)
           | None \<Rightarrow> ((answer 500 Internal_error, [Request_counted (rq_method rq) (rq_path rq) 500]), t)))"

definition v1_endpoint :: "api_app \<Rightarrow> service_config \<Rightarrow> 's services \<Rightarrow> api_request \<Rightarrow> json option \<Rightarrow>
    endpoint \<Rightarrow> string list \<Rightarrow> (exn, 's, api_response \<times> api_event list) prog" where
  "v1_endpoint app cfg D rq body e ps =
     bindE (resultE (credential_valid app (rq_authorization rq))) (\<lambda>valid.
     if \<not> valid
     then returnE (answer 401 (Detail ''invalid service credential''), [Error_counted ''authentication'' (rq_path rq)])
     else case parse_operation app rq body e ps of
       None \<Rightarrow> returnE (answer 422 (Detail ''invalid request''), [])
     | Some op \<Rightarrow> run_operation app cfg D op)"

fun run_endpoint :: "api_app \<Rightarrow> service_config \<Rightarrow> 's services \<Rightarrow> api_request \<Rightarrow> endpoint \<Rightarrow> string list \<Rightarrow>
    (exn, 's, api_response \<times> api_event list) prog" where
  "run_endpoint app cfg D rq Health ps = returnE (answer 200 (Flag ''ok'' True), [])"
| "run_endpoint app cfg D rq Readiness ps =
     bindE (ready D) (\<lambda>b. returnE (answer (if b then 200 else 503) (Flag ''ready'' b), []))"
| "run_endpoint app cfg D rq Prometheus_metrics ps =
     bindE (operational_snapshot cfg D) (\<lambda>(xs, used, cap). returnE (answer 200 (Metrics_text xs used cap), []))"
| "run_endpoint app cfg D rq Create_session ps =
     (case fw_body (app_framework app) (rq_body rq) of
        Inl r \<Rightarrow> returnE (r, [])
      | Inr body \<Rightarrow> v1_endpoint app cfg D rq body Create_session ps)"
| "run_endpoint app cfg D rq e ps = v1_endpoint app cfg D rq None e ps"

definition handle_request ::
  "api_app \<Rightarrow> service_config \<Rightarrow> 's services \<Rightarrow> api_request \<Rightarrow> 's \<Rightarrow> (api_response \<times> api_event list) \<times> 's" where
  "handle_request app cfg D rq s =
     (case find_route endpoints (rq_method rq) (rq_path rq) of
        Some (e, ps) \<Rightarrow> observed rq (route_path e) (run_endpoint app cfg D rq e ps) s
      | None \<Rightarrow>
          (case fw_unrouted (app_framework app) rq of
             (r, label) \<Rightarrow>
               ((r, [Request_counted (rq_method rq) (case label of None \<Rightarrow> rq_path rq | Some l \<Rightarrow> l) (rs_status r)]), s)))"

section \<open>The life of the process\<close>

text \<open>
  \<open>lifespan\<close>: the application starts when \<open>reconcile_startup\<close> returns; after that requests arrive and the
  cleanup loop sweeps, in any order. A failed sweep is counted and the loop goes on.
\<close>

datatype api_step = Receive api_request | Tick

fun take_step :: "api_app \<Rightarrow> service_config \<Rightarrow> 's services \<Rightarrow> api_step \<Rightarrow> 's \<Rightarrow> api_event list \<times> 's" where
  "take_step app cfg D (Receive rq) s = (case handle_request app cfg D rq s of ((r, evs), t) \<Rightarrow> (evs, t))"
| "take_step app cfg D Tick s =
     (case sweep cfg D s of
        (Inl e, t) \<Rightarrow> ([Error_counted ''internal'' ''sweep''], t)
      | (Inr n, t) \<Rightarrow> ([], t))"

fun run_steps :: "api_app \<Rightarrow> service_config \<Rightarrow> 's services \<Rightarrow> api_step list \<Rightarrow> 's \<Rightarrow> 's" where
  "run_steps app cfg D [] s = s"
| "run_steps app cfg D (x # xs) s = run_steps app cfg D xs (snd (take_step app cfg D x s))"

definition run_app :: "api_app \<Rightarrow> service_config \<Rightarrow> 's services \<Rightarrow> api_step list \<Rightarrow> (exn, 's, unit) prog" where
  "run_app app cfg D steps s =
     (case reconcile_startup D s of
        (Inl e, t) \<Rightarrow> (Inl e, t)
      | (Inr n, t) \<Rightarrow> (Inr (), run_steps app cfg D steps t))"

section \<open>Requests and the service\<close>

fun has_endpoint :: "call \<Rightarrow> bool" where
  "has_endpoint Sweep = False"
| "has_endpoint Reconcile = False"
| "has_endpoint _ = True"

lemma bindE_state: "snd (bindE f (\<lambda>a. returnE (g a)) s) = snd (f s)"
  by (simp add: bindE_def returnE_def split: prod.splits sum.splits)

lemma run_call_state: "has_endpoint c \<Longrightarrow> snd (run_call app cfg D c s) = snd (perform cfg D c s)"
  by (cases c) (simp_all add: bindE_state)

lemma run_call_result:
  assumes "has_endpoint c"
  shows "(\<exists>e. fst (run_call app cfg D c s) = Inl e \<and> fst (perform cfg D c s) = Inl e) \<or>
    (\<exists>r evs. fst (run_call app cfg D c s) = Inr (r, evs) \<and> fst (perform cfg D c s) = Inr ())"
  using assms by (cases c) (auto simp: bindE_def returnE_def split: prod.splits sum.splits)

lemma parsed_has_endpoint: "parse_operation app rq body e ps = Some (Op_call c) \<Longrightarrow> has_endpoint c"
  by (cases e)
    (auto simp: session_operation_def actor_operation_def split: option.splits)

text \<open>What a request may do to the state: nothing, one service call, or one of the reading operations.\<close>

inductive reads :: "service_config \<Rightarrow> 's services \<Rightarrow> 's \<Rightarrow> 's \<Rightarrow> bool" for cfg D where
  nothing: "reads cfg D s s"
| read_capacity: "reads cfg D s (snd (capacity cfg D s))"
| read_diagnostics: "reads cfg D s (snd (diagnostics cfg D k s))"
| read_ready: "reads cfg D s (snd (ready D s))"
| read_snapshot: "reads cfg D s (snd (operational_snapshot cfg D s))"

lemma observed_state: "snd (observed rq l f s) = snd (f s)"
  by (simp add: observed_def split: prod.splits sum.splits option.splits)

lemma v1_state:
  "reads cfg D s (snd (v1_endpoint app cfg D rq body e ps s)) \<or>
   (\<exists>c. has_endpoint c \<and> snd (v1_endpoint app cfg D rq body e ps s) = snd (perform cfg D c s))"
proof (cases "credential_valid app (rq_authorization rq) = Inr True")
  case False
  then have "snd (v1_endpoint app cfg D rq body e ps s) = s"
    by (auto simp: v1_endpoint_def bindE_def resultE_def returnE_def split: sum.splits)
  then show ?thesis by (simp add: reads.nothing)
next
  case True
  show ?thesis
  proof (cases "parse_operation app rq body e ps")
    case None
    with True have "snd (v1_endpoint app cfg D rq body e ps s) = s"
      by (simp add: v1_endpoint_def bindE_def resultE_def returnE_def)
    then show ?thesis by (simp add: reads.nothing)
  next
    case (Some op)
    with True have eq: "v1_endpoint app cfg D rq body e ps s = run_operation app cfg D op s"
      by (simp add: v1_endpoint_def bindE_def resultE_def)
    show ?thesis
    proof (cases op)
      case Op_capacity
      then show ?thesis unfolding eq by (simp add: bindE_state reads.read_capacity)
    next
      case (Op_diagnostics k)
      then show ?thesis unfolding eq by (simp add: bindE_state reads.read_diagnostics)
    next
      case (Op_call c)
      then show ?thesis
        unfolding eq using parsed_has_endpoint [of app rq body e ps c] Some
        by (auto simp: run_call_state)
    qed
  qed
qed

lemma run_endpoint_state:
  "reads cfg D s (snd (run_endpoint app cfg D rq e ps s)) \<or>
   (\<exists>c. has_endpoint c \<and> snd (run_endpoint app cfg D rq e ps s) = snd (perform cfg D c s))"
proof (cases e)
  case Create_session
  then show ?thesis
    using v1_state [of cfg D s app rq _ e ps] reads.nothing
    by (cases "fw_body (app_framework app) (rq_body rq)") (auto simp: returnE_def)
next
  case Prometheus_metrics
  have "snd (run_endpoint app cfg D rq e ps s) = snd (operational_snapshot cfg D s)"
    by (simp add: Prometheus_metrics bindE_def returnE_def split: prod.splits sum.splits)
  then show ?thesis by (simp add: reads.read_snapshot)
next
  case Readiness
  then show ?thesis by (simp add: bindE_state reads.read_ready)
next
  case Health
  then show ?thesis by (simp add: returnE_def reads.nothing)
qed (use v1_state [of cfg D s app rq None e ps] in auto)

lemma handle_state:
  "reads cfg D s (snd (handle_request app cfg D rq s)) \<or>
   (\<exists>c. has_endpoint c \<and> snd (handle_request app cfg D rq s) = snd (perform cfg D c s))"
proof (cases "find_route endpoints (rq_method rq) (rq_path rq)")
  case None
  then have "snd (handle_request app cfg D rq s) = s" by (simp add: handle_request_def split: prod.splits)
  then show ?thesis by (simp add: reads.nothing)
next
  case (Some x)
  then show ?thesis
    using run_endpoint_state [of cfg D s app rq "fst x" "snd x"]
    by (cases x) (simp add: handle_request_def observed_state)
qed

lemma step_state:
  "reads cfg D s (snd (take_step app cfg D x s)) \<or> (\<exists>c. snd (take_step app cfg D x s) = snd (perform cfg D c s))"
proof (cases x)
  case (Receive rq)
  then show ?thesis using handle_state [of cfg D s app rq] by (auto split: prod.splits)
next
  case Tick
  have "snd (take_step app cfg D x s) = snd (perform cfg D Sweep s)"
    by (simp add: Tick bindE_def returnE_def split: prod.splits sum.splits)
  then show ?thesis by blast
qed

context session_env
begin

lemma keeps_capacity: "keeps view (capacity cfg D)"
  unfolding capacity_def Let_def
  by (rule keepsI) (auto simp: wp_simps intro!: wp_keeps [OF keeps_list])

lemma keeps_ready: "keeps view (ready D)"
proof (rule keepsI)
  fix s
  let ?I = "\<lambda>m. m \<subseteq>\<^sub>m view s"
  have down: "down_closed ?I" by (auto simp: down_closed_def intro: map_le_trans)
  show "wp (ready D) (\<lambda>_ t. view t \<subseteq>\<^sub>m view s) (\<lambda>_ t. view t \<subseteq>\<^sub>m view s) s"
    unfolding ready_def wp_simps
    by (auto intro!: wp_down [OF keeps_health(1) down] wp_down [OF keeps_health(2) down]
        wp_down [OF keeps_health(3) down] wp_down [OF keeps_health(4) down] wp_down [OF keeps_health(5) down])
qed

lemma keeps_snapshot: "keeps view (operational_snapshot cfg D)"
proof (rule keepsI)
  fix s
  have down: "down_closed (\<lambda>m. m \<subseteq>\<^sub>m view s)" by (auto simp: down_closed_def intro: map_le_trans)
  show "wp (operational_snapshot cfg D) (\<lambda>_ t. view t \<subseteq>\<^sub>m view s) (\<lambda>_ t. view t \<subseteq>\<^sub>m view s) s"
    unfolding operational_snapshot_def wp_simps
    by (rule wp_mono [OF list_law]) (auto intro!: wp_down [OF keeps_list down])
qed

lemma keeps_diagnostics: "keeps view (diagnostics cfg D k)"
proof (rule keepsI)
  fix s
  have down: "down_closed (\<lambda>m. m \<subseteq>\<^sub>m view s)" by (auto simp: down_closed_def intro: map_le_trans)
  have item: "wp (participant_diagnostics D p) (\<lambda>_ t. view t \<subseteq>\<^sub>m view s) (\<lambda>_ t. view t \<subseteq>\<^sub>m view s) u"
    if "view u \<subseteq>\<^sub>m view s" for p u
    unfolding participant_diagnostics_def wp_simps
    using that by (auto split: option.splits intro!: wp_down [OF keeps_inspect down])
  show "wp (diagnostics cfg D k) (\<lambda>_ t. view t \<subseteq>\<^sub>m view s) (\<lambda>_ t. view t \<subseteq>\<^sub>m view s) s"
    unfolding diagnostics_def required_def wp_simps
    by (rule wp_mono [OF get_law])
      (auto split: option.splits intro!: wp_mapE [where I = "\<lambda>_ _ t. view t \<subseteq>\<^sub>m view s"] item
        wp_down [OF keeps_capacity down])
qed

lemma reads_keep: "reads cfg D s t \<Longrightarrow> view t \<subseteq>\<^sub>m view s"
  by (erule reads.cases) (use keeps_capacity keeps_diagnostics keeps_ready keeps_snapshot in \<open>auto simp: keeps_def\<close>)

lemma step_effect:
  assumes "store_inv (session_ttl cfg) (view s)" and "uuid4_fresh D view" and "quota_law P cfg D view"
  shows "effect (session_ttl cfg) P (view s) (view (snd (take_step app cfg D x s)))"
  using step_state [of cfg D s app x]
proof
  assume "reads cfg D s (snd (take_step app cfg D x s))"
  from down_closedD [OF base_down base_refl [OF assms(1)] reads_keep [OF this]] show ?thesis
    by (rule effect_base)
next
  assume "\<exists>c. snd (take_step app cfg D x s) = snd (perform cfg D c s)"
  then show ?thesis using perform_effect [OF assms] by metis
qed

lemma run_steps_inv:
  assumes "store_inv (session_ttl cfg) (view s)" and "uuid4_fresh D view"
  shows "store_inv (session_ttl cfg) (view (run_steps app cfg D xs s))"
  using assms(1)
proof (induction xs arbitrary: s)
  case (Cons x xs)
  show ?case
    using Cons.IH [OF effect_inv [OF step_effect [OF Cons.prems assms(2) quota_trivial]]] by simp
qed simp

end

context reliable_env
begin

lemma run_steps_quota:
  assumes "store_inv (session_ttl cfg) (view s)" and "uuid4_fresh D view" and "within_quota cfg (view s)"
  shows "within_quota cfg (view (run_steps app cfg D xs s))"
  using assms(1,3)
proof (induction xs arbitrary: s)
  case (Cons x xs)
  note eff = step_effect [OF Cons.prems(1) assms(2) quota_exact, of app x]
  show ?case
    using Cons.IH [OF effect_inv [OF eff] effect_quota [OF eff Cons.prems(2)]] by simp
qed simp

end

text \<open>
  C27. The application as a whole: from a store in the lobby invariant and within the quotas, startup and
  then any sequence of HTTP requests, with whatever credentials, headers and bodies, interleaved with the
  sweeps of the cleanup loop, keeps the stored sessions in the lobby invariant and within the quotas.
\<close>

theorem app_keeps_lobbies:
  assumes "uuid4_fresh (memory_services X U) memory_view"
    and "store_inv (session_ttl cfg) (memory_view s)" and "within_quota cfg (memory_view s)"
    and "run_app app cfg (memory_services X U) steps s = (r, t)"
  shows "store_inv (session_ttl cfg) (memory_view t) \<and> within_quota cfg (memory_view t)"
proof -
  let ?D = "memory_services X U"
  define u where "u = snd (perform cfg ?D Reconcile s)"
  have eff: "effect (session_ttl cfg) (room_for cfg) (memory_view s) (memory_view u)"
    unfolding u_def by (rule mem.perform_effect [OF assms(2,1) mem.quota_exact])
  have u: "store_inv (session_ttl cfg) (memory_view u)" "within_quota cfg (memory_view u)"
    using effect_inv [OF eff] effect_quota [OF eff assms(3)] by blast+
  have "t = u \<or> t = run_steps app cfg ?D steps u"
    using assms(4) unfolding u_def run_app_def
    by (auto simp: bindE_def returnE_def split: prod.splits sum.splits)
  then show ?thesis
    using u mem.run_steps_inv [OF u(1) assms(1)] mem.run_steps_quota [OF u(1) assms(1) u(2)] by blast
qed

definition sample_framework :: framework where
  "sample_framework =
     \<lparr>fw_body = (\<lambda>_. Inr (Some (JObj [(''display_name'', JStr ''Lobby''), (''romm_rom_id'', JInt 7), (''max_players'', JInt 2)]))),
      fw_uuid = uuid_of_str, fw_unrouted = (\<lambda>_. (answer 404 (Detail ''Not Found''), None))\<rparr>"

definition sample_app :: api_app where
  "sample_app =
     \<lparr>app_token = replicate 32 107, app_cleanup_interval = 10000000,
      app_unicode = \<lparr>normalize_nfc = (\<lambda>t. t), category = (\<lambda>_. ''Lu''), is_space = (\<lambda>c. c = 32)\<rparr>,
      app_hmac = (\<lambda>key m. replicate 64 (CHR ''0'')), app_framework = sample_framework\<rparr>"

definition sample_call :: "string \<Rightarrow> string \<Rightarrow> string \<Rightarrow> string \<Rightarrow> api_request" where
  "sample_call meth path uid name =
     \<lparr>rq_method = meth, rq_path = path, rq_authorization = Some (''Bearer '' @ replicate 32 (CHR ''k'')),
      rq_user_id = Some uid, rq_display_name = Some name, rq_body = []\<rparr>"

abbreviation create_call :: api_request where
  "create_call \<equiv> sample_call ''POST'' ''/v1/sessions'' ''alice'' ''Alice''"

theorem app_keeps_lobbies_witness:
  "let t = snd (run_app sample_app sample_config sample_manager
       [Receive create_call] sample_start) in
   memory_view t 1 \<noteq> None \<and>
   store_inv (session_ttl sample_config) (memory_view t) \<and> within_quota sample_config (memory_view t)"
proof -
  let ?run = "run_app sample_app sample_config sample_manager
    [Receive create_call] sample_start"
  have q: "within_quota sample_config (memory_view sample_start)" by (simp add: sample_config_def)
  have i: "store_inv (session_ttl sample_config) (memory_view sample_start)" by simp
  have made: "memory_view (snd ?run) 1 \<noteq> None" by code_simp
  have run: "?run = (fst ?run, snd ?run)" by simp
  from app_keeps_lobbies [OF sample_fresh i q run] made show ?thesis by (simp add: Let_def)
qed

section \<open>Who is served\<close>

fun discloses :: "api_value \<Rightarrow> bool" where
  "discloses (A_capacity c) = True"
| "discloses (A_diagnostic d) = True"
| "discloses (A_session x) = True"
| "discloses (A_session_list xs) = True"
| "discloses (A_launch l) = True"
| "discloses _ = False"

definition bears_token :: "api_app \<Rightarrow> api_request \<Rightarrow> bool" where
  "bears_token app rq \<longleftrightarrow> (\<exists>scheme tok. rq_authorization rq = Some (scheme @ '' '' @ tok) \<and>
     map lower_char scheme = ''bearer'' \<and> ustring_of tok = app_token app)"

lemma partition_space_join:
  "partition_space h = (a, sep, b) \<Longrightarrow> (sep = '' '' \<and> h = a @ '' '' @ b \<or> sep = [] \<and> h = a \<and> b = [])"
  by (induction h arbitrary: a) (auto split: if_splits prod.splits)

lemma credential_bears: "credential_valid app (rq_authorization rq) = Inr True \<Longrightarrow> bears_token app rq"
  unfolding credential_valid_def compare_digest_def bears_token_def
proof -
  assume "(case partition_space (case rq_authorization rq of None \<Rightarrow> [] | Some h \<Rightarrow> h) of
      (scheme, separator, credential) \<Rightarrow>
        if separator = '' '' \<and> map lower_char scheme = ''bearer''
        then if list_all (\<lambda>c. c < 128) (ustring_of credential) \<and> list_all (\<lambda>c. c < 128) (app_token app)
          then Inr (ustring_of credential = app_token app) else Inl (OtherException ''TypeError'')
        else Inr False) = Inr True"
  then obtain a b where p: "partition_space (case rq_authorization rq of None \<Rightarrow> [] | Some h \<Rightarrow> h) = (a, '' '', b)"
      "map lower_char a = ''bearer''" "ustring_of b = app_token app"
    by (auto split: prod.splits if_splits)
  from partition_space_join [OF p(1)]
  have "(case rq_authorization rq of None \<Rightarrow> [] | Some h \<Rightarrow> h) = a @ '' '' @ b" by simp
  then have "rq_authorization rq = Some (a @ '' '' @ b)" by (cases "rq_authorization rq") simp_all
  with p(2,3) have "rq_authorization rq = Some (a @ '' '' @ b) \<and> map lower_char a = ''bearer'' \<and>
      ustring_of b = app_token app" by simp
  then show "\<exists>scheme tok. rq_authorization rq = Some (scheme @ '' '' @ tok) \<and>
      map lower_char scheme = ''bearer'' \<and> ustring_of tok = app_token app" by (intro exI)
qed

lemma observed_denied:
  assumes "f s = (Inr (q, es), s) \<and> \<not> discloses (rs_body q) \<or> f s = (Inl x, s)"
    and "observed rq l f s = ((r, evs), t)"
  shows "t = s \<and> \<not> discloses (rs_body r)"
  using assms by (auto simp: observed_def answer_def split: option.splits)

text \<open>
  C28. The service token guards the API: a request to a route under \<open>/v1\<close> that changes the state or is
  answered with a session, a list, a launch, the capacity or a diagnostic carries the header
  \<open>Authorization: Bearer\<close> with exactly the configured token.
\<close>

theorem api_requires_token:
  assumes "find_route endpoints (rq_method rq) (rq_path rq) = Some (e, ps)"
    and "e \<notin> {Health, Readiness, Prometheus_metrics}"
    and "\<forall>b q. fw_body (app_framework app) b = Inl q \<longrightarrow> \<not> discloses (rs_body q)"
    and "handle_request app cfg D rq s = ((r, evs), t)"
    and "t \<noteq> s \<or> discloses (rs_body r)"
  shows "bears_token app rq"
proof (rule ccontr)
  assume "\<not> bears_token app rq"
  then have no: "credential_valid app (rq_authorization rq) \<noteq> Inr True" using credential_bears by blast
  have v1: "(\<exists>q es. v1_endpoint app cfg D rq body e' ps s = (Inr (q, es), s) \<and> \<not> discloses (rs_body q)) \<or>
      (\<exists>x. v1_endpoint app cfg D rq body e' ps s = (Inl x, s))" for body e'
    using no by (auto simp: v1_endpoint_def bindE_def resultE_def returnE_def answer_def split: sum.splits)
  have "(\<exists>q es. run_endpoint app cfg D rq e ps s = (Inr (q, es), s) \<and> \<not> discloses (rs_body q)) \<or>
      (\<exists>x. run_endpoint app cfg D rq e ps s = (Inl x, s))"
    using assms(2,3) v1 by (cases e) (auto simp: returnE_def split: sum.splits)
  then obtain q es x where "run_endpoint app cfg D rq e ps s = (Inr (q, es), s) \<and> \<not> discloses (rs_body q) \<or>
      run_endpoint app cfg D rq e ps s = (Inl x, s)" by blast
  note denied = observed_denied [where f = "run_endpoint app cfg D rq e ps" and l = "route_path e", OF this]
  from assms(1,4) have "observed rq (route_path e) (run_endpoint app cfg D rq e ps) s = ((r, evs), t)"
    by (simp add: handle_request_def)
  from denied [OF this] assms(5) show False by blast
qed

section \<open>What an answer tells\<close>

fun audit_action :: "call \<Rightarrow> string option" where
  "audit_action (Create a r) = Some ''session.create''"
| "audit_action (Join k a) = Some ''participant.join''"
| "audit_action (Leave k a) = Some ''participant.leave''"
| "audit_action (Launch k a) = Some ''stream.launch''"
| "audit_action (Kick k a p) = Some ''participant.kick''"
| "audit_action (Close k a) = Some ''session.close''"
| "audit_action _ = None"

fun audited_action :: "api_event \<Rightarrow> string option" where
  "audited_action (Audited act who sid pid) = Some act"
| "audited_action _ = None"

definition audited_actions :: "api_event list \<Rightarrow> string list" where
  "audited_actions evs = List.map_filter audited_action evs"

definition requests_call :: "api_app \<Rightarrow> api_request \<Rightarrow> call \<Rightarrow> bool" where
  "requests_call app rq c \<longleftrightarrow>
     (case find_route endpoints (rq_method rq) (rq_path rq) of
        None \<Rightarrow> False
      | Some (e, ps) \<Rightarrow>
          (case (if e = Create_session then fw_body (app_framework app) (rq_body rq) else Inr None) of
             Inl q \<Rightarrow> False
           | Inr body \<Rightarrow> parse_operation app rq body e ps = Some (Op_call c)))"

definition status_of :: "exn + unit \<Rightarrow> int set" where
  "status_of r =
     (case r of
        Inr _ \<Rightarrow> {200, 201, 204}
      | Inl e \<Rightarrow> {case exception_handler e of Some (st, cat, m) \<Rightarrow> st | None \<Rightarrow> 500})"

lemma case_Inr_only: "(case x of Inl _ \<Rightarrow> False | Inr b \<Rightarrow> P b) \<longleftrightarrow> (\<exists>b. x = Inr b \<and> P b)"
  by (cases x) simp_all

lemma run_call_answer:
  assumes "has_endpoint c" and "run_call app cfg D c s = (Inr (r, evs), t)"
  shows "rs_status r \<in> {200, 201, 204} \<and>
    audited_actions evs = (case audit_action c of None \<Rightarrow> [] | Some act \<Rightarrow> [act])"
  using assms
  by (cases c) (auto simp: bindE_def returnE_def answer_def audit_def audited_actions_def map_filter_simps
      split: prod.splits sum.splits)

lemma call_outcome:
  assumes "requests_call app rq c" and "credential_valid app (rq_authorization rq) = Inr True"
    and "handle_request app cfg D rq s = ((r, evs), t)" and "perform cfg D c s = (q, u)"
  shows "t = u \<and> rs_status r \<in> status_of q \<and>
    audited_actions evs = (case (q, audit_action c) of (Inr _, Some act) \<Rightarrow> [act] | _ \<Rightarrow> [])"
proof -
  obtain e ps body where route: "find_route endpoints (rq_method rq) (rq_path rq) = Some (e, ps)"
    and body: "(if e = Create_session then fw_body (app_framework app) (rq_body rq) else Inr None) = Inr body"
    and parse: "parse_operation app rq body e ps = Some (Op_call c)"
    using assms(1) unfolding requests_call_def case_Inr_only by (auto split: option.split_asm)
  have c: "has_endpoint c" using parse by (rule parsed_has_endpoint)
  have "v1_endpoint app cfg D rq body e ps s = run_call app cfg D c s"
    using assms(2) parse by (simp add: v1_endpoint_def bindE_def resultE_def)
  moreover have "run_endpoint app cfg D rq e ps s = v1_endpoint app cfg D rq body e ps s"
    using body parse by (cases e) auto
  ultimately have run: "observed rq (route_path e) (run_call app cfg D c) s = ((r, evs), t)"
    using assms(3) route by (simp add: handle_request_def observed_def)
  have st: "snd (run_call app cfg D c s) = u" using run_call_state [OF c, of app cfg D s] assms(4) by simp
  from run_call_result [OF c, of app cfg D s] show ?thesis
  proof (elim disjE exE conjE)
    fix x assume "fst (run_call app cfg D c s) = Inl x" "fst (perform cfg D c s) = Inl x"
    with st assms(4) have x: "run_call app cfg D c s = (Inl x, u)" "q = Inl x"
      by (metis prod.collapse, simp)
    from run show ?thesis
      unfolding observed_def x(1)
      by (auto simp: x(2) status_of_def answer_def audited_actions_def map_filter_simps split: option.splits)
  next
    fix r' evs' assume "fst (run_call app cfg D c s) = Inr (r', evs')" "fst (perform cfg D c s) = Inr ()"
    with st assms(4) have x: "run_call app cfg D c s = (Inr (r', evs'), u)" "q = Inr ()"
      by (metis prod.collapse, simp)
    from run run_call_answer [OF c x(1)] show ?thesis
      unfolding observed_def x(1)
      by (auto simp: x(2) status_of_def audited_actions_def map_filter_def split: option.splits)
  qed
qed


theorem api_requires_token_witness:
  "discloses (rs_body (fst (fst (handle_request sample_app sample_config sample_manager create_call sample_start)))) \<and>
   bears_token sample_app create_call"
proof -
  let ?run = "handle_request sample_app sample_config sample_manager create_call sample_start"
  have shown: "discloses (rs_body (fst (fst ?run)))" by code_simp
  have route: "find_route endpoints (rq_method create_call) (rq_path create_call) = Some (Create_session, [])"
    by code_simp
  have run: "?run = ((fst (fst ?run), snd (fst ?run)), snd ?run)" by simp
  have "bears_token sample_app create_call"
    by (rule api_requires_token [OF route _ _ run]) (use shown in \<open>simp_all add: sample_app_def sample_framework_def\<close>)
  with shown show ?thesis by blast
qed


section \<open>Labels and credentials\<close>

lemma slash_free: "CHR ''/'' \<notin> set (uuid_str u)"
proof -
  have "CHR ''/'' \<notin> set (uuid_hex u)" using uuid_hex_chars [of u] by (auto simp: list_all_iff char_class_defs)
  then show ?thesis using uuid_str_parts(1) [of u] by auto
qed

lemma split_v1: "split_at (CHR ''/'') (''/v1/sessions/'' @ uuid_str u @ CHR ''/'' # rest) =
    [[], ''v1'', ''sessions'', uuid_str u] @ split_at (CHR ''/'') rest"
  by (simp add: split_at_append [OF slash_free])

lemma uuid_str_nonempty [simp]: "uuid_str u \<noteq> []"
  using length_uuid_str [of u] by (metis list.size(3) zero_neq_numeral)

lemmas route_simps = endpoints_def match_path_def find_route.simps

lemma join_route:
  "find_route endpoints ''POST'' (''/v1/sessions/'' @ uuid_str u @ ''/join'') = Some (Join_session, [uuid_str u])"
  using split_v1 [of u "''join''"] by (simp add: route_simps)

text \<open>
  C30. Session identifiers reach the metric labels: a request to join a session that carries no
  credential is answered by 401 and counted in the error counter under the raw path of the request, which contains
  the identifier, while \<open>ServiceMetrics\<close> says that session UUIDs stay out of the labels.
\<close>

theorem failed_login_labels_session:
  assumes "rq_method rq = ''POST''" and "rq_path rq = ''/v1/sessions/'' @ uuid_str u @ ''/join''"
    and "rq_authorization rq = None"
  shows "handle_request app cfg D rq s =
    ((answer 401 (Detail ''invalid service credential''),
      [Error_counted ''authentication'' (''/v1/sessions/'' @ uuid_str u @ ''/join''),
       Request_counted ''POST'' (route_path Join_session) 401]), s)"
proof -
  have "credential_valid app None = Inr False" by (simp add: credential_valid_def)
  then show ?thesis
    unfolding handle_request_def assms(1,2) join_route
    by (simp add: observed_def v1_endpoint_def bindE_def resultE_def returnE_def assms answer_def)
qed

theorem failed_login_labels_session_witness:
  "handle_request sample_app sample_config sample_manager
     (sample_call ''POST'' (''/v1/sessions/'' @ uuid_str 1 @ ''/join'') [] [] \<lparr>rq_authorization := None\<rparr>) sample_start =
   ((answer 401 (Detail ''invalid service credential''),
     [Error_counted ''authentication'' ''/v1/sessions/00000000-0000-0000-0000-000000000001/join'',
      Request_counted ''POST'' ''/v1/sessions/{session_id}/join'' 401]), sample_start)"
proof -
  have u: "uuid_str 1 = ''00000000-0000-0000-0000-000000000001''" by code_simp
  show ?thesis
    by (subst failed_login_labels_session [where u = 1]) (simp_all add: sample_call_def u route_path_def)
qed

text \<open>
  A credential with a character outside ASCII makes \<open>compare_digest\<close> raise: the request is
  answered by 500 and no authentication error is counted.
\<close>

lemma non_ascii_credential_is_internal_error:
  assumes "find_route endpoints (rq_method rq) (rq_path rq) = Some (e, ps)"
    and "e \<notin> {Health, Readiness, Prometheus_metrics, Create_session}"
    and "rq_authorization rq = Some (''Bearer '' @ tok)" and "\<not> list_all (\<lambda>c. c < 128) (ustring_of tok)"
  shows "handle_request app cfg D rq s =
    ((answer 500 Internal_error, [Request_counted (rq_method rq) (rq_path rq) 500]), s)"
proof -
  have bearer: "map lower_char ''Bearer'' = ''bearer''" by code_simp
  have part: "partition_space (''Bearer '' @ t) = (''Bearer'', '' '', t)" for t by simp
  have "credential_valid app (rq_authorization rq) = Inl (OtherException ''TypeError'')"
    unfolding credential_valid_def assms(3) option.case part prod.case bearer
    using assms(4) by (simp add: compare_digest_def)
  then have "v1_endpoint app cfg D rq None e ps s = (Inl (OtherException ''TypeError''), s)"
    by (simp add: v1_endpoint_def bindE_def resultE_def)
  then have "run_endpoint app cfg D rq e ps s = (Inl (OtherException ''TypeError''), s)"
    using assms(2) by (cases e) auto
  then show ?thesis using assms(1) by (simp add: handle_request_def observed_def)
qed

end
