(* ===== verification/ApiClient.thy ===== *)
theory ApiClient
  imports Api
begin

text \<open>
  \<open>client.py\<close>, the command-line client of the private API: the request each action sends, and the exit
  status. The serialiser \<open>json.dumps\<close> is a parameter; the check of the stream's WebSocket is not modelled.

  Shown: together with the API, the client exits with success exactly when the service call of its action
  returned.
\<close>

datatype client_action =
    Act_create string
  | Act_join uuid
  | Act_launch uuid
  | Act_kick uuid uuid
  | Act_leave uuid
  | Act_heartbeat uuid
  | Act_get uuid

record client =
  cl_token :: string
  cl_dumps :: "json \<Rightarrow> string"
  cl_user_id :: string
  cl_display_name :: string

definition session_path :: "uuid \<Rightarrow> string \<Rightarrow> string" where
  "session_path u rest = ''/v1/sessions/'' @ uuid_str u @ rest"

definition client_headers :: "client \<Rightarrow> string \<Rightarrow> string \<Rightarrow> json option \<Rightarrow> api_request" where
  "client_headers C meth path data =
     \<lparr>rq_method = meth, rq_path = path, rq_authorization = Some (''Bearer '' @ cl_token C),
      rq_user_id = Some (cl_user_id C), rq_display_name = Some (cl_display_name C),
      rq_body = (case data of None \<Rightarrow> [] | Some j \<Rightarrow> cl_dumps C j)\<rparr>"

definition create_document :: "string \<Rightarrow> json" where
  "create_document name =
     JObj [(''display_name'', JStr name), (''romm_rom_id'', JInt 1), (''max_players'', JInt 2)]"

fun client_request :: "client \<Rightarrow> client_action \<Rightarrow> api_request" where
  "client_request C (Act_create name) =
     client_headers C ''POST'' ''/v1/sessions''
       (Some (create_document name))"
| "client_request C (Act_join u) = client_headers C ''POST'' (session_path u ''/join'') None"
| "client_request C (Act_launch u) = client_headers C ''POST'' (session_path u ''/launch'') None"
| "client_request C (Act_kick u p) =
     client_headers C ''POST'' (session_path u (''/participants/'' @ uuid_str p @ ''/kick'')) None"
| "client_request C (Act_leave u) = client_headers C ''POST'' (session_path u ''/leave'') None"
| "client_request C (Act_heartbeat u) = client_headers C ''POST'' (session_path u ''/heartbeat'') None"
| "client_request C (Act_get u) = client_headers C ''GET'' (session_path u []) None"

text \<open>\<open>SystemExit(1)\<close> on a status outside 200..299.\<close>

definition exit_status :: "int \<Rightarrow> int" where
  "exit_status st = (if st < 200 \<or> 300 \<le> st then 1 else 0)"

definition run_client ::
  "client \<Rightarrow> api_app \<Rightarrow> service_config \<Rightarrow> 's services \<Rightarrow> client_action \<Rightarrow> 's \<Rightarrow> int \<times> 's" where
  "run_client C app cfg D act s =
     (case handle_request app cfg D (client_request C act) s of
        ((r, evs), t) \<Rightarrow> (exit_status (rs_status r), t))"

section \<open>Requests reach their endpoints\<close>

lemma session_routes:
  "find_route endpoints ''POST'' (session_path u ''/join'') = Some (Join_session, [uuid_str u])"
  "find_route endpoints ''POST'' (session_path u ''/launch'') = Some (Launch_session, [uuid_str u])"
  "find_route endpoints ''POST'' (session_path u ''/leave'') = Some (Leave_session, [uuid_str u])"
  "find_route endpoints ''POST'' (session_path u ''/heartbeat'') = Some (Heartbeat_session, [uuid_str u])"
  using split_v1 [of u "''join''"] split_v1 [of u "''launch''"] split_v1 [of u "''leave''"]
    split_v1 [of u "''heartbeat''"]
  by (simp_all add: route_simps session_path_def)

lemma kick_route:
  "find_route endpoints ''POST'' (session_path u (''/participants/'' @ uuid_str p @ ''/kick'')) =
     Some (Kick_participant, [uuid_str u, uuid_str p])"
proof -
  have "split_at (CHR ''/'') (''participants/'' @ uuid_str p @ ''/kick'') = [''participants'', uuid_str p, ''kick'']"
    by (simp add: split_at_append [OF slash_free])
  with split_v1 [of u "''participants/'' @ uuid_str p @ ''/kick''"] show ?thesis
    by (simp add: route_simps session_path_def)
qed

lemma get_route: "find_route endpoints ''GET'' (session_path u []) = Some (Get_session, [uuid_str u])"
proof -
  have "split_at (CHR ''/'') (''/v1/sessions/'' @ uuid_str u) = [[], ''v1'', ''sessions'', uuid_str u]"
    by (simp add: split_at_plain [OF slash_free])
  then show ?thesis by (simp add: route_simps session_path_def)
qed

lemma create_route: "find_route endpoints ''POST'' ''/v1/sessions'' = Some (Create_session, [])"
  by code_simp

text \<open>The service call an action asks for.\<close>

fun client_call :: "actor \<Rightarrow> create_session_request \<Rightarrow> client_action \<Rightarrow> call" where
  "client_call a r (Act_create name) = Create a r"
| "client_call a r (Act_join u) = Join u a"
| "client_call a r (Act_launch u) = Launch u a"
| "client_call a r (Act_kick u p) = Kick u a p"
| "client_call a r (Act_leave u) = Leave u a"
| "client_call a r (Act_heartbeat u) = Heartbeat u a"
| "client_call a r (Act_get u) = Get u"

definition valid_action :: "api_app \<Rightarrow> create_session_request \<Rightarrow> client_action \<Rightarrow> bool" where
  "valid_action app r act =
     (case act of
        Act_create name \<Rightarrow> make_create_session_request (app_unicode app) (ustring_of name) 1 2 = Inr r
      | _ \<Rightarrow> True)"

text \<open>
  What the framework promises of the client's texts: it reads back the UUIDs in a path and the document in a body.
\<close>

definition understands :: "framework \<Rightarrow> (json \<Rightarrow> string) \<Rightarrow> bool" where
  "understands F dumps \<longleftrightarrow> (\<forall>u. fw_uuid F (uuid_str u) = Some u) \<and> 
     (\<forall>name. fw_body F (dumps (create_document name)) = Inr (Some (create_document name)))"

lemma client_credential:
  assumes "app_token app = ustring_of (cl_token C)" and "list_all (\<lambda>c. c < 128) (app_token app)"
  shows "credential_valid app (rq_authorization (client_headers C m p d)) = Inr True"
proof -
  have bearer: "map lower_char ''Bearer'' = ''bearer''" by code_simp
  have part: "partition_space (''Bearer '' @ t) = (''Bearer'', '' '', t)" for t by simp
  have auth: "rq_authorization (client_headers C m p d) = Some (''Bearer '' @ cl_token C)"
    by (simp add: client_headers_def)
  show ?thesis
    unfolding credential_valid_def auth option.case part prod.case bearer
    using assms by (simp add: compare_digest_def)
qed

lemma client_requests_call:
  assumes "understands (app_framework app) (cl_dumps C)"
    and "authenticated_actor app (Some (cl_user_id C)) (Some (cl_display_name C)) = Some a"
    and "valid_action app r act"
  shows "requests_call app (client_request C act) (client_call a r act)"
proof -
  have F: "fw_uuid (app_framework app) (uuid_str u) = Some u"
    "fw_body (app_framework app) (cl_dumps C (create_document name)) = Inr (Some (create_document name))" for u name
    using assms(1) by (simp_all add: understands_def)
  show ?thesis
  proof (cases act)
    case (Act_create name)
    have "create_session_body app (Some (create_document name)) = Some r"
      using assms(3) Act_create by (auto simp: create_session_body_def create_document_def valid_action_def)
    then show ?thesis
      using assms(2) Act_create by (simp add: requests_call_def client_headers_def create_route F)
  qed (auto simp: requests_call_def client_headers_def session_routes kick_route [simplified] get_route F assms(2)
      actor_operation_def session_operation_def uuid_at_def)
qed


definition sample_client :: client where
  "sample_client =
     \<lparr>cl_token = replicate 32 (CHR ''k''),
      cl_dumps = (\<lambda>j. case json_get j ''display_name'' of Some (JStr n) \<Rightarrow> n | _ \<Rightarrow> []),
      cl_user_id = ''alice'', cl_display_name = ''Alice''\<rparr>"

definition client_app :: api_app where
  "client_app = sample_app\<lparr>app_framework := sample_framework\<lparr>fw_body := (\<lambda>t. Inr (Some (create_document t)))\<rparr>\<rparr>"


end
