(* ===== verification/Liveness.thy ===== *)
theory Liveness
  imports Api
begin

text \<open>
  What the cleanup loop achieves: with collaborators that answer, a sweep always runs to its end, and
  no session outlives its lease beyond the next sweep.
\<close>

definition closed_in :: "store \<Rightarrow> uuid \<Rightarrow> bool" where
  "closed_in m k \<longleftrightarrow> (\<exists>y. m k = Some y \<and> s_state y = CLOSED)"

definition clock_past :: "'s services \<Rightarrow> int \<Rightarrow> bool" where
  "clock_past D T \<longleftrightarrow> (\<forall>s. T \<le> fst (clock D s))"

context reliable_env
begin

lemma wp_clock_past:
  assumes "clock_past D T" and "\<And>now t. T \<le> now \<Longrightarrow> view t = view s \<Longrightarrow> Q now t"
  shows "wp (liftE (clock D)) Q E s"
proof -
  obtain now t where c: "clock D s = (now, t)" by (cases "clock D s")
  have "view t = view s" using exact_clock c unfolding keeps_exactly_def by (metis snd_conv)
  moreover have "T \<le> now" using assms(1) c unfolding clock_past_def by (metis fst_conv)
  ultimately show ?thesis using c by (simp add: wp_liftE assms(2))
qed

lemma wp_sweep_due:
  assumes h: "holds x (view s)" and T: "clock_past D T" and due: "s_expires_at x \<le> T"
  shows "wp (sweep_session cfg D x c)
    (\<lambda>_ t. quiet (view t) \<and> (\<forall>k. k \<noteq> s_session_id x \<longrightarrow> view t k = view s k) \<and> closed_in (view t) (s_session_id x))
    (\<lambda>_ t. \<not> responsive D \<and> quiet (view t)) s"
proof (cases "s_state x = CLOSED")
  case True
  with h show ?thesis by (simp add: sweep_session_def wp_simps holds_def closed_in_def)
next
  case False
  have shut: "wp (close_session D x ''expired'')
      (\<lambda>_ t. quiet (view t) \<and> (\<forall>k. k \<noteq> s_session_id x \<longrightarrow> view t k = view s k) \<and> closed_in (view t) (s_session_id x))
      (\<lambda>_ t. \<not> responsive D \<and> quiet (view t)) v" if "view v = view s" for v
    by (rule wp_close_quiet) (use h that in \<open>auto simp: holds_def closed_in_def\<close>)
  show ?thesis
    unfolding sweep_session_def wp_simps
    using False due by (auto intro!: wp_clock_past [OF T] shut)
qed

lemma wp_sweep_closes:
  assumes q: "quiet (view s)" and T: "clock_past D T"
  shows "wp (sweep cfg D)
    (\<lambda>_ t. \<forall>k x. view s k = Some x \<longrightarrow> s_expires_at x \<le> T \<longrightarrow> closed_in (view t) k)
    (\<lambda>_ t. \<not> responsive D) s"
  unfolding sweep_def wp_bindE
proof (rule wp_mono [OF list_exact])
  fix xs t
  assume l: "view t = view s \<and> (\<exists>ks. distinct ks \<and> set ks = dom (view s) \<and> map (view s) ks = map Some xs) \<and>
    sorted (map s_created_at xs)"
  then obtain ks where ks: "distinct ks" "set ks = dom (view s)" "map (view s) ks = map Some xs" by blast
  have keyed: "s_session_id x = k" if "view s k = Some x" for k x using q that by (simp add: quiet_def)
  have ls: "lists_store (view s) xs" using ks by (auto simp: lists_store_def)
  have stored: "\<forall>x \<in> set xs. view t (s_session_id x) = Some x"
    using l lists_store_mem [OF ls] keyed by metis
  have all: "x \<in> set xs" if "view s k = Some x" for k x
  proof -
    have "k \<in> set ks" using that ks(2) by blast
    then have "Some x \<in> set (map Some xs)" using that ks(3) by (metis image_eqI list.set_map)
    then show ?thesis by auto
  qed
  let ?due = "\<lambda>x. s_expires_at x \<le> T"
  let ?I = "\<lambda>ys u. quiet (view u) \<and> distinct (map s_session_id ys) \<and> set ys \<subseteq> set xs \<and>
    (\<forall>x \<in> set ys. view u (s_session_id x) = Some x) \<and>
    (\<forall>x \<in> set xs - set ys. ?due x \<longrightarrow> closed_in (view u) (s_session_id x))"
  show "wp (foldE (sweep_session cfg D) xs 0)
      (\<lambda>_ t. \<forall>k x. view s k = Some x \<longrightarrow> ?due x \<longrightarrow> closed_in (view t) k) (\<lambda>_ t. \<not> responsive D) t"
  proof (rule wp_foldE [where I = "\<lambda>ys _ u. ?I ys u"])
    show "?I xs t" using l q lists_store_distinct [OF ls keyed] stored by auto
  next
    fix x ys c u
    assume I: "?I (x # ys) u"
    then have h: "holds x (view u)" by (simp add: holds_def)
    have same: "z = x" if "z \<in> set xs" "s_session_id z = s_session_id x" for z
      using that stored I by (metis list.set_intros(1) option.inject subsetD)
    have next_: "?I ys w"
      if "quiet (view w)" "\<forall>k. k \<noteq> s_session_id x \<longrightarrow> view w k = view u k"
        "?due x \<longrightarrow> closed_in (view w) (s_session_id x)" for w
    proof -
      have "closed_in (view w) (s_session_id z)" if "z \<in> set xs - set ys" "?due z" for z
      proof (cases "z = x")
        case False
        then have "s_session_id z \<noteq> s_session_id x" using same that(1) by blast
        moreover have "closed_in (view u) (s_session_id z)" using I False that by auto
        ultimately show ?thesis using \<open>\<forall>k. k \<noteq> s_session_id x \<longrightarrow> view w k = view u k\<close> by (simp add: closed_in_def)
      qed (use that \<open>?due x \<longrightarrow> closed_in (view w) (s_session_id x)\<close> in simp)
      moreover have "s_session_id x \<notin> s_session_id ` set ys" using I by simp
      then have "\<forall>z \<in> set ys. s_session_id z \<noteq> s_session_id x" by (metis image_eqI)
      ultimately show ?thesis using I that by simp
    qed
    show "wp (sweep_session cfg D x c) (\<lambda>_. ?I ys) (\<lambda>_ t. \<not> responsive D) u"
    proof (cases "?due x")
      case True
      from wp_sweep_due [OF h T True] show ?thesis by (rule wp_mono) (use next_ in auto)
    next
      case False
      from wp_sweep_session_quiet [OF h] show ?thesis by (rule wp_mono) (use next_ False in auto)
    qed
  next
    fix c u assume "?I [] u"
    then show "\<forall>k x. view s k = Some x \<longrightarrow> ?due x \<longrightarrow> closed_in (view u) k" using all keyed by auto
  qed
qed simp

end

text \<open>
  C32. No session outlives its lease beyond the next sweep: once the clock has passed a session's expiry, with
  collaborators that answer (removals succeed, inspections fail only as documented), the next tick of the
  cleanup loop ends without an error and every session that was due is stored as closed.
\<close>

theorem tick_closes_expired:
  assumes "quiet (memory_view s)" and "responsive (memory_services X U)"
    and "clock_past (memory_services X U) T"
  shows "\<exists>t. take_step app cfg (memory_services X U) Tick s = ([], t) \<and>
    (\<forall>k x. memory_view s k = Some x \<longrightarrow> s_expires_at x \<le> T \<longrightarrow> closed_in (memory_view t) k)"
proof -
  obtain r t where run: "sweep cfg (memory_services X U) s = (r, t)" by (cases "sweep cfg (memory_services X U) s")
  from mem.wp_sweep_closes [OF assms(1,3), of cfg] assms(2) run
  show ?thesis by (cases r) (simp_all add: wp_def)
qed


text \<open>The sample deployment at a later time: the clock has passed the lease of a new session.\<close>

definition late_services :: "sample_world services" where
  "late_services = sample_services\<lparr>clock := (\<lambda>w. (100000 + ticks w * ticks w, w))\<rparr>"

theorem tick_closes_expired_witness:
  "\<exists>s t. memory_view s 1 \<noteq> None \<and>
     take_step sample_app sample_config (memory_services late_services next_uuid) Tick s = ([], t) \<and>
     (\<forall>k x. memory_view s k = Some x \<longrightarrow> s_expires_at x \<le> 100000 \<longrightarrow> closed_in (memory_view t) k)"
proof -
  let ?D = "memory_services late_services next_uuid"
  let ?s = "serve sample_config sample_manager [Create alice sample_request] sample_start"
  have made: "memory_view ?s 1 \<noteq> None" by code_simp
  have quiet: "quiet (memory_view ?s)"
    by (rule mem.serve_quiet [OF _ sample_fresh sample_catalogue sample_sound]) simp_all
  have answers: "responsive ?D"
    by (simp add: responsive_def memory_services_def late_services_def sample_services_def on_world_def wp_def returnE_def)
  have past: "clock_past ?D 100000"
    by (simp add: clock_past_def memory_services_def late_services_def on_world_def)
  from tick_closes_expired [OF quiet answers past] made show ?thesis by blast
qed

end
