(* ===== verification/Environ.thy ===== *)
theory Environ
  imports Json
begin

text \<open>
  What the two services share when they start: the process environment, computations that may raise, and texts
  in lower case.
\<close>

type_synonym environ = "string \<rightharpoonup> ustring"

definition bindR :: "'e + 'a \<Rightarrow> ('a \<Rightarrow> 'e + 'b) \<Rightarrow> 'e + 'b" where
  "bindR r f = (case r of Inl e \<Rightarrow> Inl e | Inr a \<Rightarrow> f a)"

definition getenv :: "environ \<Rightarrow> string \<Rightarrow> ustring \<Rightarrow> ustring" where
  "getenv env name dflt = (case env name of None \<Rightarrow> dflt | Some v \<Rightarrow> v)"

text \<open>\<open>str.lower\<close> of ASCII text.\<close>

definition lower_code :: "nat \<Rightarrow> nat" where
  "lower_code c = (if 65 \<le> c \<and> c \<le> 90 then c + 32 else c)"

lemma bindR_Inr: "bindR r f = Inr b \<longleftrightarrow> (\<exists>a. r = Inr a \<and> f a = Inr b)"
  by (auto simp: bindR_def split: sum.splits)

lemma bindR_simps [simp]: "bindR (Inr a) f = f a" "bindR (Inl e) f = Inl e"
  by (simp_all add: bindR_def)

definition int_of_text :: "ustring \<Rightarrow> int option" where
  "int_of_text v = int_of_dec (map narrow v)"

end
