(* ===== verification/RomMUrl.thy ===== *)
theory RomMUrl
  imports Providers Environ
begin

text \<open>
  The configuration of the RomM adapter, \<open>HttpRomMProviderConfig\<close> of \<open>providers/romm/http.py\<close>, with the part
  of \<open>urllib.parse\<close> its URL validator uses. Two checks of the library are parameters: the address in a
  bracketed host, and the NFKC check of a network location that is not ASCII.

  Shown: every request of an accepted configuration goes to the configured scheme and host, and carries no user
  name; a URL that ends in an empty query is accepted, and then no request reaches its path.
\<close>

section \<open>Splitting a URL\<close>

record url_library =
  ul_bracketed :: "ustring \<Rightarrow> bool"
  ul_netloc :: "ustring \<Rightarrow> bool"

record split_url =
  su_scheme :: ustring
  su_netloc :: ustring
  su_path :: ustring
  su_query :: ustring
  su_fragment :: ustring

text \<open>\<open>text.partition(c)\<close> and \<open>text.rpartition(c)\<close>, with whether the separator was found.\<close>

definition partition_at :: "nat \<Rightarrow> ustring \<Rightarrow> ustring \<times> bool \<times> ustring" where
  "partition_at c t =
     (let a = takeWhile (\<lambda>x. x \<noteq> c) t; r = dropWhile (\<lambda>x. x \<noteq> c) t in (a, r \<noteq> [], drop 1 r))"

definition rpartition_at :: "nat \<Rightarrow> ustring \<Rightarrow> ustring \<times> bool \<times> ustring" where
  "rpartition_at c t =
     (case partition_at c (rev t) of (b, found, a) \<Rightarrow> if found then (rev a, True, rev b) else ([], False, t))"

definition is_alpha_code :: "nat \<Rightarrow> bool" where
  "is_alpha_code c \<longleftrightarrow> 65 \<le> c \<and> c \<le> 90 \<or> 97 \<le> c \<and> c \<le> 122"

definition scheme_code :: "nat \<Rightarrow> bool" where
  "scheme_code c \<longleftrightarrow> is_alpha_code c \<or> 48 \<le> c \<and> c \<le> 57 \<or> c \<in> {43, 45, 46}"

definition clean_url :: "ustring \<Rightarrow> ustring" where
  "clean_url t = filter (\<lambda>c. c \<notin> {9, 10, 13}) (dropWhile (\<lambda>c. c \<le> 32) t)"

definition split_scheme :: "ustring \<Rightarrow> ustring \<times> ustring" where
  "split_scheme t =
     (case partition_at 58 t of (a, found, rest) \<Rightarrow>
        if found \<and> a \<noteq> [] \<and> is_alpha_code (hd a) \<and> list_all scheme_code a
        then (map lower_code a, rest) else ([], t))"

definition ends_netloc :: "nat \<Rightarrow> bool" where
  "ends_netloc c \<longleftrightarrow> c \<in> {47, 63, 35}"

definition split_netloc :: "ustring \<Rightarrow> ustring \<times> ustring" where
  "split_netloc t =
     (if take 2 t = [47, 47]
      then (takeWhile (\<lambda>c. \<not> ends_netloc c) (drop 2 t), dropWhile (\<lambda>c. \<not> ends_netloc c) (drop 2 t))
      else ([], t))"

definition urlsplit :: "url_library \<Rightarrow> ustring \<Rightarrow> exn + split_url" where
  "urlsplit L t =
     (case split_scheme (clean_url t) of (scheme, url) \<Rightarrow>
      case split_netloc url of (netloc, rest) \<Rightarrow>
      if (91 \<in> set netloc) \<noteq> (93 \<in> set netloc) then Inl (ValueError ''Invalid IPv6 URL'')
      else if 91 \<in> set netloc \<and> \<not> ul_bracketed L netloc then Inl (ValueError ''Invalid IPv6 URL'')
      else case partition_at 35 rest of (rest, _, fragment) \<Rightarrow>
      case partition_at 63 rest of (path, _, query) \<Rightarrow>
      if \<not> list_all (\<lambda>c. c < 128) netloc \<and> \<not> ul_netloc L netloc
      then Inl (ValueError ''netloc contains invalid characters under NFKC normalization'')
      else Inr \<lparr>su_scheme = scheme, su_netloc = netloc, su_path = path, su_query = query,
                su_fragment = fragment\<rparr>)"

text \<open>The properties \<open>username\<close>, \<open>password\<close> and \<open>hostname\<close>; absent and empty are both false.\<close>

definition url_username :: "split_url \<Rightarrow> ustring" where
  "url_username u =
     (case rpartition_at 64 (su_netloc u) of (info, found, _) \<Rightarrow>
        if found then fst (partition_at 58 info) else [])"

definition url_password :: "split_url \<Rightarrow> ustring" where
  "url_password u =
     (case rpartition_at 64 (su_netloc u) of (info, found, _) \<Rightarrow>
        if found then snd (snd (partition_at 58 info)) else [])"

definition url_hostname :: "split_url \<Rightarrow> ustring" where
  "url_hostname u =
     (case rpartition_at 64 (su_netloc u) of (_, _, info) \<Rightarrow>
      case partition_at 91 info of (_, bracket, inside) \<Rightarrow>
      let host = (if bracket then fst (partition_at 93 inside) else fst (partition_at 58 info));
          (name, found, zone) = partition_at 37 host
      in map lower_code name @ (if found then 37 # zone else []))"

section \<open>The configuration\<close>

definition rstrip_slashes :: "ustring \<Rightarrow> ustring" where
  "rstrip_slashes t = rev (dropWhile (\<lambda>c. c = 47) (rev t))"

definition validate_api_url :: "url_library \<Rightarrow> ustring \<Rightarrow> exn + ustring" where
  "validate_api_url L v =
     (let normalized = rstrip_slashes v in
      case urlsplit L normalized of
        Inl e \<Rightarrow> Inl e
      | Inr u \<Rightarrow>
          if su_scheme u \<notin> {ustring_of ''http'', ustring_of ''https''} \<or> url_hostname u = [] \<or>
             url_username u \<noteq> [] \<or> url_password u \<noteq> [] \<or> su_query u \<noteq> [] \<or> su_fragment u \<noteq> []
          then Inl (ValueError ''RomM API URL must be an HTTP(S) origin or base path'')
          else Inr normalized)"

record romm_config =
  rc_api_url :: ustring
  rc_service_token :: ustring
  rc_rom_root :: pure_path

definition make_romm_config :: "url_library \<Rightarrow> romm_config \<Rightarrow> exn + romm_config" where
  "make_romm_config L c =
     (if 8 \<le> length (rc_api_url c) \<and> length (rc_api_url c) \<le> 2048 \<and>
         32 \<le> length (rc_service_token c) \<and> length (rc_service_token c) \<le> 512
      then (case validate_api_url L (rc_api_url c) of
              Inl e \<Rightarrow> Inl (ValidationError ''api_url'')
            | Inr u \<Rightarrow> Inr (c\<lparr>rc_api_url := u\<rparr>))
      else Inl (ValidationError ''HttpRomMProviderConfig''))"

text \<open>The URL of a request, from the base URL and the path the adapter appends.\<close>

definition romm_url :: "romm_config \<Rightarrow> ustring \<Rightarrow> ustring" where
  "romm_url c path = rc_api_url c @ path"

section \<open>Where requests go\<close>

lemma takeWhile_append_stop:
  "\<not> P c \<Longrightarrow> takeWhile P (xs @ c # ys) = takeWhile P xs"
  by (induction xs) auto

lemma dropWhile_append_stop:
  "\<not> P c \<Longrightarrow> dropWhile P (xs @ c # ys) = dropWhile P xs @ c # ys"
  by (induction xs) auto

lemma partition_at_append:
  "partition_at c t = (a, True, b) \<Longrightarrow> partition_at c (t @ xs) = (a, True, b @ xs)"
  unfolding partition_at_def Let_def by (induction t arbitrary: a) (auto split: if_splits)

lemma partition_at_absent: "c \<notin> set t \<Longrightarrow> partition_at c t = (t, False, [])"
proof -
  assume "c \<notin> set t"
  then have a: "takeWhile (\<lambda>x. x \<noteq> c) t = t" and b: "dropWhile (\<lambda>x. x \<noteq> c) t = []" by auto
  show ?thesis unfolding partition_at_def Let_def a b by simp
qed

lemma split_scheme_append:
  "split_scheme t = (s, r) \<Longrightarrow> s \<noteq> [] \<Longrightarrow> split_scheme (t @ xs) = (s, r @ xs)"
  unfolding split_scheme_def
  by (cases "partition_at 58 t") (auto simp: partition_at_append split: if_splits)

lemma split_netloc_append:
  assumes "split_netloc t = (n, r)" "n \<noteq> []" and "ends_netloc c"
  shows "split_netloc (t @ c # xs) = (n, r @ c # xs)"
proof -
  from assms have two: "take 2 t = [47, 47]" by (auto simp: split_netloc_def split: if_splits)
  then have "take 2 (t @ c # xs) = [47, 47]" "drop 2 (t @ c # xs) = drop 2 t @ c # xs"
    by (cases t; cases "tl t"; simp)+
  with assms two show ?thesis
    by (auto simp: split_netloc_def takeWhile_append_stop dropWhile_append_stop)
qed

lemma clean_url_append:
  assumes "list_ex (\<lambda>c. 32 < c) t"
  shows "clean_url (t @ xs) = clean_url t @ filter (\<lambda>c. c \<notin> {9, 10, 13}) xs"
proof -
  from assms have "dropWhile (\<lambda>c. c \<le> 32) (t @ xs) = dropWhile (\<lambda>c. c \<le> 32) t @ xs"
    by (induction t) auto
  then show ?thesis by (simp add: clean_url_def)
qed

lemma clean_url_visible: "clean_url t \<noteq> [] \<Longrightarrow> list_ex (\<lambda>c. 32 < c) t"
  unfolding clean_url_def by (induction t) (auto split: if_splits)

lemma urlsplit_append:
  assumes u: "urlsplit L t = Inr u" "su_scheme u \<noteq> []" "su_netloc u \<noteq> []"
    and p: "list_all (\<lambda>c. 32 < c) (47 # p)"
  shows "\<exists>w. urlsplit L (t @ 47 # p) = Inr w \<and> su_scheme w = su_scheme u \<and> su_netloc w = su_netloc u \<and>
    (63 \<notin> set (clean_url t) \<and> 35 \<notin> set (clean_url t) \<and> 63 \<notin> set p \<and> 35 \<notin> set p \<longrightarrow>
       su_path w = su_path u @ 47 # p \<and> su_query w = [] \<and> su_fragment w = [])"
proof -
  obtain s r where sr: "split_scheme (clean_url t) = (s, r)" by fastforce
  obtain n q where nq: "split_netloc r = (n, q)" by fastforce
  have su: "su_scheme u = s" "su_netloc u = n"
    using u(1) by (auto simp: urlsplit_def sr nq split: prod.splits if_splits)
  with u have s: "s \<noteq> []" and n: "n \<noteq> []" by auto
  have f: "filter (\<lambda>c. c \<notin> {9, 10, 13}) (47 # p) = 47 # p"
    using p by (intro filter_True) (auto simp: list_all_iff)
  have "clean_url t \<noteq> []" using sr s by (auto simp: split_scheme_def partition_at_def)
  then have c: "clean_url (t @ 47 # p) = clean_url t @ 47 # p"
    using clean_url_append [OF clean_url_visible] f by simp
  have sp: "split_scheme (clean_url (t @ 47 # p)) = (s, r @ 47 # p)"
    unfolding c by (rule split_scheme_append [OF sr s])
  have np: "split_netloc (r @ 47 # p) = (n, q @ 47 # p)"
    by (rule split_netloc_append [OF nq n]) (simp add: ends_netloc_def)
  have "set q \<subseteq> set r"
    using nq by (auto simp: split_netloc_def split: if_splits dest: set_dropWhileD in_set_dropD)
  moreover have "set r \<subseteq> set (clean_url t)"
    using sr by (auto simp: split_scheme_def partition_at_def Let_def split: if_splits
        dest: set_dropWhileD in_set_dropD)
  ultimately have q: "x \<notin> set q" if "x \<notin> set (clean_url t)" for x using that by blast
  show ?thesis
    using u(1) by (auto simp: urlsplit_def sr nq sp np partition_at_absent q su split: prod.splits if_splits)
qed

text \<open>The path of \<open>resolve_game\<close>.\<close>

definition game_path :: "int \<Rightarrow> ustring" where
  "game_path rom = ustring_of (''/multiplayer/games/'' @ str_of_int rom)"

lemma game_path_plain: "list_all (\<lambda>c. 32 < c \<and> c \<noteq> 63 \<and> c \<noteq> 35) (game_path rom)"
proof -
  have "list_all (\<lambda>c. 32 < (of_char c :: nat) \<and> of_char c \<noteq> (63 :: nat) \<and> of_char c \<noteq> (35 :: nat)) (dec_of_nat n)"
    for n by (rule list.pred_mono_strong [OF dec_of_nat_digits(1)]) (auto simp: char_class_defs)
  then show ?thesis by (simp add: game_path_def str_of_int_def ustring_of_def list_all_iff)
qed

lemma game_path_rooted: "\<exists>p. game_path rom = 47 # p"
  by (simp add: game_path_def ustring_of_def)

lemma url_parts_by_netloc:
  "su_netloc u = su_netloc w \<Longrightarrow> url_username u = url_username w \<and> url_password u = url_password w \<and>
     url_hostname u = url_hostname w"
  by (simp add: url_username_def url_password_def url_hostname_def)

lemma hostname_in_netloc: "url_hostname u \<noteq> [] \<Longrightarrow> su_netloc u \<noteq> []"
  by (auto simp: url_hostname_def rpartition_at_def partition_at_def)


definition sample_romm_config :: "string \<Rightarrow> romm_config" where
  "sample_romm_config url =
     \<lparr>rc_api_url = ustring_of url, rc_service_token = replicate 32 107,
      rc_rom_root = \<lparr>pp_absolute = True, pp_parts = [ustring_of ''roms'']\<rparr>\<rparr>"

definition sample_url_library :: url_library where
  "sample_url_library = \<lparr>ul_bracketed = (\<lambda>_. True), ul_netloc = (\<lambda>_. True)\<rparr>"


text \<open>
  A base URL that ends in an empty query is accepted, although the validator refuses a query: then every game
  lookup asks for the base path alone, with the path of the game as the query, so no game is ever found.
\<close>

theorem empty_query_swallows_path:
  "\<exists>d w. make_romm_config L (sample_romm_config ''http://romm/api?'') = Inr d \<and>
     urlsplit L (romm_url d (game_path rom)) = Inr w \<and>
     su_path w = ustring_of ''/api'' \<and> su_query w = game_path rom"
proof -
  let ?c = "sample_romm_config ''http://romm/api?''"
  have d: "make_romm_config L ?c = Inr ?c" by code_simp
  obtain p where p: "game_path rom = 47 # p" using game_path_rooted by blast
  have plain: "list_all (\<lambda>c. 32 < c \<and> c \<noteq> 63 \<and> c \<noteq> 35) (47 # p)" using game_path_plain [of rom] by (simp add: p)
  then have f: "filter (\<lambda>c. c \<notin> {9, 10, 13}) (47 # p) = 47 # p"
    by (intro filter_True) (auto simp: list_all_iff)
  have "clean_url (romm_url ?c (47 # p)) = ustring_of ''http://romm/api?'' @ 47 # p"
    using f by (simp add: clean_url_def romm_url_def sample_romm_config_def ustring_of_def)
  moreover have "split_scheme (ustring_of ''http://romm/api?'' @ 47 # p) =
      (ustring_of ''http'', ustring_of ''//romm/api?'' @ 47 # p)"
    by (rule split_scheme_append) code_simp+
  moreover have "split_netloc (ustring_of ''//romm/api?'' @ 47 # p) = (ustring_of ''romm'', ustring_of ''/api?'' @ 47 # p)"
    by (simp add: split_netloc_def ustring_of_def ends_netloc_def)
  moreover have "partition_at 35 (ustring_of ''/api?'' @ 47 # p) = (ustring_of ''/api?'' @ 47 # p, False, [])"
    using plain by (intro partition_at_absent) (auto simp: ustring_of_def list_all_iff)
  moreover have "partition_at 63 (ustring_of ''/api?'' @ 47 # p) = (ustring_of ''/api'', True, 47 # p)"
    by (simp add: partition_at_def ustring_of_def)
  moreover have "91 \<notin> set (ustring_of ''romm'')" "93 \<notin> set (ustring_of ''romm'')"
      "list_all (\<lambda>c. c < 128) (ustring_of ''romm'')" by code_simp+
  ultimately show ?thesis using d by (simp add: p urlsplit_def)
qed

end
