(* ===== verification/ManagerProcess.thy ===== *)
theory ManagerProcess
  imports Api RomMUrl Environ
begin

text \<open>
  \<open>__main__.py\<close> of the Session Manager: the settings from the environment, the check of the trusted ROM, and the
  construction of the service with its collaborators. The environment, the file system, the hash object, the
  Valkey client's reading of a URL and the web framework are parameters.

  Shown: without RomM the only game that can be resolved is the pinned file; a process that comes up has a
  configuration with which every other theorem about the service applies.
\<close>

section \<open>Settings\<close>

text \<open>\<open>os.environ.get(name) or os.environ.get(legacy, dflt)\<close>: an empty value counts as absent.\<close>

definition setting_or :: "environ \<Rightarrow> string \<Rightarrow> string \<Rightarrow> ustring \<Rightarrow> ustring" where
  "setting_or env name legacy dflt =
     (if getenv env name [] \<noteq> [] then getenv env name [] else getenv env legacy dflt)"

definition environ_item :: "environ \<Rightarrow> string \<Rightarrow> exn + ustring" where
  "environ_item env name = (case env name of None \<Rightarrow> Inl KeyError | Some v \<Rightarrow> Inr v)"

definition setting :: "environ \<Rightarrow> string \<Rightarrow> string \<Rightarrow> exn + ustring" where
  "setting env name legacy =
     (if getenv env name [] \<noteq> [] then Inr (getenv env name []) else environ_item env legacy)"

definition int_setting :: "ustring \<Rightarrow> exn + int" where
  "int_setting v =
     (case int_of_text v of
        None \<Rightarrow> Inl (ValueError ''invalid literal for int()'')
      | Some i \<Rightarrow> Inr i)"

text \<open>\<open>timedelta(seconds=int(value))\<close>, in microseconds; Python's durations are bounded.\<close>

definition seconds_setting :: "ustring \<Rightarrow> exn + int" where
  "seconds_setting v =
     bindR (int_setting v) (\<lambda>n.
     if \<bar>n div 86400\<bar> > 999999999 then Inl (OtherException ''OverflowError'') else Inr (n * 1000000))"

section \<open>The trusted ROM\<close>

record host_files =
  hf_cwd :: path
  hf_resolve :: "pure_path \<Rightarrow> exn + path"
  hf_is_file :: "path \<Rightarrow> bool"
  hf_content :: "path \<Rightarrow> exn + nat list"

text \<open>A hash object of \<open>hashlib\<close>.\<close>

record 'h hash_object =
  ho_new :: 'h
  ho_update :: "'h \<Rightarrow> nat list \<Rightarrow> 'h"
  ho_hexdigest :: "'h \<Rightarrow> string"

function read_blocks :: "nat list \<Rightarrow> nat list list" where
  "read_blocks content =
     (let block = take (1024 * 1024) content in
      if block = [] then [] else block # read_blocks (drop (1024 * 1024) content))"
  by pat_completeness auto
termination
  by (relation "measure length") auto

declare read_blocks.simps [simp del]

definition sha256_file :: "host_files \<Rightarrow> 'h hash_object \<Rightarrow> path \<Rightarrow> exn + string" where
  "sha256_file F H p =
     bindR (hf_content F p) (\<lambda>content.
     Inr (ho_hexdigest H (foldl (ho_update H) (ho_new H) (read_blocks content))))"

definition made_absolute :: "host_files \<Rightarrow> pure_path \<Rightarrow> path" where
  "made_absolute F p = (if pp_absolute p then pp_parts p else hf_cwd F @ pp_parts p)"

definition trusted_rom :: "environ \<Rightarrow> host_files \<Rightarrow> 'h hash_object \<Rightarrow> exn + path \<times> string" where
  "trusted_rom env F H =
     bindR (setting env ''SESSION_MANAGER_ROM_ROOT'' ''M8_ROM_ROOT'') (\<lambda>root_text.
     bindR (hf_resolve F (pure_path_of root_text)) (\<lambda>root.
     bindR (setting env ''SESSION_MANAGER_ROM_PATH'' ''M8_ROM_PATH'') (\<lambda>given.
     let path = pure_path_of given in
     bindR (hf_resolve F path) (\<lambda>resolved.
     if \<not> hf_is_file F resolved \<or> \<not> is_relative_to resolved root
     then Inl (ValueError ''Milestone 8 ROM path is outside the trusted root'')
     else if made_absolute F path \<noteq> resolved \<or> [46, 46] \<in> set (pp_parts path)
     then Inl (ValueError ''Milestone 8 ROM path is not canonical'')
     else bindR (sha256_file F H resolved) (\<lambda>digest.
          bindR (setting env ''SESSION_MANAGER_ROM_SHA256'' ''M8_ROM_SHA256'') (\<lambda>expected.
          if ustring_of digest \<noteq> expected then Inl (ValueError ''trusted ROM SHA-256 does not match'')
          else Inr (resolved, digest)))))))"

section \<open>The application\<close>

datatype romm_source = Static_romm game_record | Http_romm romm_config

record deployment =
  dp_romm :: romm_source
  dp_cores :: "(string \<times> core_profile) list"
  dp_agent_socket :: pure_path
  dp_agent :: agent_config
  dp_selkies :: selkies_config
  dp_valkey_url :: ustring
  dp_service :: service_config
  dp_app :: api_app

text \<open>What \<open>build_app\<close> uses of the libraries.\<close>

record 'h libraries =
  lb_files :: host_files
  lb_sha256 :: "'h hash_object"
  lb_urls :: url_library
  lb_valkey :: "ustring \<Rightarrow> exn + unit"
  lb_unicode :: unicode_data
  lb_hmac :: hmac
  lb_framework :: framework

definition build_romm :: "environ \<Rightarrow> 'h libraries \<Rightarrow> exn + romm_source" where
  "build_romm env L =
     (if getenv env ''SESSION_MANAGER_ROMM_API_URL'' [] \<noteq> []
      then bindR (environ_item env ''SESSION_MANAGER_ROMM_SERVICE_TOKEN'') (\<lambda>token.
           bindR (environ_item env ''SESSION_MANAGER_ROM_ROOT'') (\<lambda>root.
           bindR (make_romm_config (lb_urls L)
                    \<lparr>rc_api_url = getenv env ''SESSION_MANAGER_ROMM_API_URL'' [], rc_service_token = token,
                     rc_rom_root = pure_path_of root\<rparr>) (\<lambda>c.
           Inr (Http_romm c))))
      else bindR (trusted_rom env (lb_files L) (lb_sha256 L)) (\<lambda>(rom_path, rom_sha256).
           bindR (int_setting (setting_or env ''SESSION_MANAGER_ROMM_ROM_ID'' ''M8_ROMM_ROM_ID'' (ustring_of ''1''))) (\<lambda>rom.
           let game = \<lparr>g_romm_rom_id = rom, g_platform = ''nes'', g_canonical_path = path_text rom_path,
                       g_rom_sha256 = rom_sha256\<rparr> in
           bindR (construct (game_record_ok game) game) (\<lambda>g.
           Inr (Static_romm g)))))"

definition core_profiles :: "core_profile list" where
  "core_profiles =
     [\<lparr>c_profile_id = ''nes-milestone2'', c_platform = ''nes'', c_max_players = 2\<rparr>,
      \<lparr>c_profile_id = ''snes-bsnes'', c_platform = ''snes'', c_max_players = 4\<rparr>,
      \<lparr>c_profile_id = ''genesis-blastem'', c_platform = ''genesis'', c_max_players = 2\<rparr>]"

definition build_cores :: "exn + (string \<times> core_profile) list" where
  "build_cores =
     (if list_all core_profile_ok core_profiles then make_core_registry core_profiles
      else Inl (ValidationError ''CoreProfile''))"

definition gpu_setting :: "ustring \<Rightarrow> gpu_profile option" where
  "gpu_setting v =
     (if v = ustring_of ''cpu'' then Some Gpu_cpu else if v = ustring_of ''nvidia'' then Some Gpu_nvidia else None)"

definition build_agent :: "environ \<Rightarrow> exn + pure_path \<times> agent_config" where
  "build_agent env =
     (let socket = pure_path_of (getenv env ''M8_RUNTIME_AGENT_SOCKET'' (ustring_of ''/run/retrobrowser/runtime-agent.sock'')) in
      bindR (setting env ''SESSION_MANAGER_RUNTIME_IMAGE'' ''M8_RUNTIME_IMAGE'') (\<lambda>image.
      bindR (setting env ''SESSION_MANAGER_STREAM_NETWORK'' ''M8_STREAM_NETWORK'') (\<lambda>stream.
      bindR (setting env ''SESSION_MANAGER_NETPLAY_NETWORK'' ''M8_NETPLAY_NETWORK'') (\<lambda>netplay.
      let gpu = setting_or env ''SESSION_MANAGER_GPU_PROFILE'' ''M8_GPU_PROFILE'' (ustring_of ''cpu'') in
      bindR (setting env ''SESSION_MANAGER_ORCHESTRATION_SECRET'' ''M8_ORCHESTRATION_SECRET'') (\<lambda>secret.
      case gpu_setting gpu of
        None \<Rightarrow> Inl (ValidationError ''gpu_profile'')
      | Some profile \<Rightarrow>
          let c = \<lparr>ag_image = map narrow image, ag_stream_network = map narrow stream,
                   ag_netplay_network = map narrow netplay, ag_gpu_profile = profile, ag_netplay_port = 55435,
                   ag_orchestration_secret = secret\<rparr> in
          bindR (construct (agent_config_ok c) c) (\<lambda>c.
          bindR (make_agent_provider c) (\<lambda>c. Inr (socket, c))))))))"

definition build_selkies :: "environ \<Rightarrow> exn + selkies_config" where
  "build_selkies env =
     bindR (setting env ''SESSION_MANAGER_ORCHESTRATION_SECRET'' ''M8_ORCHESTRATION_SECRET'') (\<lambda>secret.
     let c = \<lparr>sk_orchestration_secret = secret, sk_port = 8080\<rparr> in construct (selkies_config_ok c) c)"

text \<open>The arguments of \<open>SessionService(...)\<close> after the repository, in their order.\<close>

definition build_service :: "environ \<Rightarrow> exn + service_config" where
  "build_service env =
     bindR (seconds_setting (getenv env ''SESSION_MANAGER_MAX_SESSION_SECONDS'' (ustring_of ''14400''))) (\<lambda>ttl.
     bindR (seconds_setting (getenv env ''SESSION_MANAGER_LOBBY_LEASE_SECONDS'' (ustring_of ''120''))) (\<lambda>lease.
     bindR (seconds_setting (getenv env ''SESSION_MANAGER_IDLE_TIMEOUT_SECONDS'' (ustring_of ''45''))) (\<lambda>idle.
     bindR (seconds_setting (setting_or env ''SESSION_MANAGER_STARTUP_TIMEOUT'' ''M8_STARTUP_TIMEOUT'' (ustring_of ''180''))) (\<lambda>startup.
     bindR (seconds_setting (setting_or env ''SESSION_MANAGER_NETPLAY_CONNECT_TIMEOUT'' ''M8_NETPLAY_CONNECT_TIMEOUT''
              (ustring_of ''45''))) (\<lambda>netplay.
     bindR (int_setting (getenv env ''SESSION_MANAGER_RUNTIME_CAPACITY'' (ustring_of ''8''))) (\<lambda>runtimes.
     bindR (int_setting (getenv env ''SESSION_MANAGER_SESSION_CAPACITY'' (ustring_of ''4''))) (\<lambda>sessions.
     bindR (int_setting (getenv env ''SESSION_MANAGER_PER_USER_RUNTIME_CAPACITY'' (ustring_of ''1''))) (\<lambda>per_user.
     make_service
       \<lparr>session_ttl = ttl, lobby_lease = lease, participant_idle_timeout = idle, startup_timeout = startup,
        netplay_connect_timeout = netplay, poll_interval = 2000000, runtime_capacity = runtimes,
        session_capacity = sessions, per_user_runtime_capacity = per_user\<rparr>))))))))"

definition build_app :: "environ \<Rightarrow> 'h libraries \<Rightarrow> exn + deployment" where
  "build_app env L =
     bindR (build_romm env L) (\<lambda>romm.
     bindR build_cores (\<lambda>cores.
     bindR (build_agent env) (\<lambda>(socket, agent).
     bindR (build_selkies env) (\<lambda>stream.
     bindR (environ_item env ''VALKEY_URL'') (\<lambda>url.
     bindR (lb_valkey L url) (\<lambda>_.
     bindR (build_service env) (\<lambda>service.
     bindR (environ_item env ''SESSION_MANAGER_SERVICE_TOKEN'') (\<lambda>token.
     bindR (seconds_setting (getenv env ''SESSION_MANAGER_CLEANUP_INTERVAL_SECONDS'' (ustring_of ''10''))) (\<lambda>interval.
     bindR (create_app \<lparr>app_token = token, app_cleanup_interval = interval, app_unicode = lb_unicode L,
                        app_hmac = lb_hmac L, app_framework = lb_framework L\<rparr>) (\<lambda>app.
     Inr \<lparr>dp_romm = romm, dp_cores = cores, dp_agent_socket = socket, dp_agent = agent, dp_selkies = stream,
          dp_valkey_url = url, dp_service = service, dp_app = app\<rparr>))))))))))"

text \<open>
  \<open>main\<close>: the server runs the application that was built; \<open>D\<close> gives the collaborators of a deployment. An
  exception of \<open>build_app\<close> ends the process before anything is started.
\<close>

definition manager_main ::
  "environ \<Rightarrow> 'h libraries \<Rightarrow> (deployment \<Rightarrow> 's services) \<Rightarrow> api_step list \<Rightarrow> (exn, 's, unit) prog" where
  "manager_main env L D steps s =
     (case build_app env L of
        Inl e \<Rightarrow> (Inl e, s)
      | Inr d \<Rightarrow> run_app (dp_app d) (dp_service d) (D d) steps s)"

text \<open>The game catalogue of a deployment.\<close>

definition plain_files :: "host_files \<Rightarrow> file_system" where
  "plain_files F = \<lparr>fs_resolve = (\<lambda>p. hf_resolve F (at_root p)), fs_is_file = hf_is_file F\<rparr>"

definition deployed_game ::
  "host_files \<Rightarrow> 's romm_requester \<Rightarrow> deployment \<Rightarrow> int \<Rightarrow> (exn, 's, game_record) prog" where
  "deployed_game F request d rom =
     (case dp_romm d of
        Static_romm g \<Rightarrow> static_resolve_game g rom
      | Http_romm c \<Rightarrow> resolve_game (plain_files F) (made_absolute F (rc_rom_root c)) request rom)"

section \<open>What a process that comes up has checked\<close>

lemma construct_Inr: "construct ok x = Inr y \<longleftrightarrow> ok \<and> y = x"
  by (auto simp: construct_def)

lemma make_service_Inr: "make_service c = Inr d \<Longrightarrow> make_service d = Inr d"
  by (auto simp: make_service_def split: if_splits)

lemma create_app_Inr: "create_app c = Inr d \<Longrightarrow> create_app d = Inr d"
  by (auto simp: create_app_def split: if_splits)

text \<open>Reading in blocks and hashing block by block is hashing the file.\<close>

lemma read_blocks_concat: "concat (read_blocks content) = content"
proof (induction content rule: read_blocks.induct)
  case (1 content)
  show ?case
  proof (cases "take (1024 * 1024) content = []")
    case True
    then show ?thesis by (subst read_blocks.simps) simp
  next
    case False
    with "1.IH" [OF refl] have "concat (read_blocks (drop (1024 * 1024) content)) = drop (1024 * 1024) content"
      by simp
    with False show ?thesis by (subst read_blocks.simps) (simp only: Let_def if_False concat.simps append_take_drop_id)
  qed
qed

definition incremental :: "'h hash_object \<Rightarrow> bool" where
  "incremental H \<longleftrightarrow> (\<forall>h. ho_update H h [] = h) \<and>
     (\<forall>h a b. ho_update H (ho_update H h a) b = ho_update H h (a @ b))"

lemma incremental_foldl:
  "incremental H \<Longrightarrow> foldl (ho_update H) h blocks = ho_update H h (concat blocks)"
  by (induction blocks arbitrary: h) (auto simp: incremental_def)

lemma sha256_file_whole:
  assumes "incremental H" and "sha256_file F H p = Inr digest"
  shows "\<exists>content. hf_content F p = Inr content \<and> digest = ho_hexdigest H (ho_update H (ho_new H) content)"
  using assms by (auto simp: sha256_file_def bindR_Inr incremental_foldl read_blocks_concat)

text \<open>The conditions on the trusted ROM, as a predicate on the game record.\<close>

definition pinned :: "environ \<Rightarrow> host_files \<Rightarrow> 'h hash_object \<Rightarrow> game_record \<Rightarrow> bool" where
  "pinned env F H g \<longleftrightarrow>
     (\<exists>root_text given root p content.
        setting env ''SESSION_MANAGER_ROM_ROOT'' ''M8_ROM_ROOT'' = Inr root_text \<and>
        setting env ''SESSION_MANAGER_ROM_PATH'' ''M8_ROM_PATH'' = Inr given \<and>
        hf_resolve F (pure_path_of root_text) = Inr root \<and> is_relative_to p root \<and> hf_is_file F p \<and>
        made_absolute F (pure_path_of given) = p \<and> g_canonical_path g = path_text p \<and>
        hf_content F p = Inr content \<and>
        g_rom_sha256 g = ho_hexdigest H (ho_update H (ho_new H) content) \<and>
        setting env ''SESSION_MANAGER_ROM_SHA256'' ''M8_ROM_SHA256'' = Inr (ustring_of (g_rom_sha256 g)))"

lemma trusted_rom_pinned:
  assumes "incremental H" and "trusted_rom env F H = Inr (p, digest)"
    and "g_canonical_path g = path_text p" and "g_rom_sha256 g = digest"
  shows "pinned env F H g"
proof -
  from assms(2) obtain root_text given root where r:
      "setting env ''SESSION_MANAGER_ROM_ROOT'' ''M8_ROM_ROOT'' = Inr root_text"
      "setting env ''SESSION_MANAGER_ROM_PATH'' ''M8_ROM_PATH'' = Inr given"
      "hf_resolve F (pure_path_of root_text) = Inr root" "is_relative_to p root" "hf_is_file F p"
      "made_absolute F (pure_path_of given) = p" and digest: "sha256_file F H p = Inr digest"
      and pin: "setting env ''SESSION_MANAGER_ROM_SHA256'' ''M8_ROM_SHA256'' = Inr (ustring_of digest)"
    by (auto simp: trusted_rom_def bindR_Inr Let_def split: if_splits)
  obtain content where "hf_content F p = Inr content"
      "digest = ho_hexdigest H (ho_update H (ho_new H) content)"
    using sha256_file_whole [OF assms(1) digest] by blast
  with r pin assms(3,4) show ?thesis unfolding pinned_def
    by (intro exI [of _ root_text] exI [of _ given] exI [of _ root] exI [of _ p] exI [of _ content]) simp
qed

lemma build_app_parts:
  assumes "build_app env L = Inr d"
  shows "build_romm env L = Inr (dp_romm d)" "build_cores = Inr (dp_cores d)"
    "build_agent env = Inr (dp_agent_socket d, dp_agent d)" "build_selkies env = Inr (dp_selkies d)"
    "build_service env = Inr (dp_service d)" "create_app (dp_app d) = Inr (dp_app d)"
  using assms by (auto simp: build_app_def bindR_Inr dest: create_app_Inr split: prod.splits)

lemma build_romm_static:
  assumes "build_romm env L = Inr source" and "getenv env ''SESSION_MANAGER_ROMM_API_URL'' [] = []"
  shows "\<exists>p digest g. trusted_rom env (lb_files L) (lb_sha256 L) = Inr (p, digest) \<and> source = Static_romm g \<and>
    game_record_ok g \<and> g_platform g = ''nes'' \<and> g_canonical_path g = path_text p \<and> g_rom_sha256 g = digest"
  using assms by (auto simp: build_romm_def bindR_Inr construct_Inr Let_def split: prod.splits)

lemma build_agent_Inr:
  assumes "build_agent env = Inr (socket, a)"
  shows "agent_config_ok a" "ag_stream_network a \<noteq> ag_netplay_network a"
    "setting env ''SESSION_MANAGER_ORCHESTRATION_SECRET'' ''M8_ORCHESTRATION_SECRET'' =
       Inr (ag_orchestration_secret a)"
  using assms by (auto simp: build_agent_def bindR_Inr construct_Inr make_agent_provider_def Let_def
      split: option.split_asm if_splits)


text \<open>
  C35. A Session Manager that comes up is soundly configured, whatever the environment holds: the service accepts
  its durations and capacities, the API its token and interval, the adapters their settings; the two networks
  differ; the Runtime Agent adapter and the stream adapter derive credentials from the same secret; exactly the
  three platforms have a core, with their numbers of players; and no request can run for ever when the
  collaborators' calls end and sleeping advances the clock.
\<close>

theorem started_manager_is_sound:
  assumes "build_app env L = Inr d" and "calls_end D" and "steady D now"
  shows "make_service (dp_service d) = Inr (dp_service d) \<and> create_app (dp_app d) = Inr (dp_app d) \<and>
    agent_config_ok (dp_agent d) \<and> ag_stream_network (dp_agent d) \<noteq> ag_netplay_network (dp_agent d) \<and>
    selkies_config_ok (dp_selkies d) \<and>
    ag_orchestration_secret (dp_agent d) = sk_orchestration_secret (dp_selkies d) \<and>
    map (\<lambda>(k, c). (k, c_max_players c)) (dp_cores d) = [(''nes'', 2), (''snes'', 4), (''genesis'', 2)] \<and>
    perform (dp_service d) D c s \<noteq> (Inl Diverged, t)"
proof -
  note parts = build_app_parts [OF assms(1)]
  have mk: "make_service (dp_service d) = Inr (dp_service d)"
    using parts(5) by (auto simp: build_service_def bindR_Inr dest: make_service_Inr)
  then have "sound_setup (dp_service d) D now" using assms(2,3) by (simp add: sound_setup_def)
  then have ends: "perform (dp_service d) D c s \<noteq> (Inl Diverged, t)"
    using perform_ends [of "dp_service d" D now c] by (simp add: ends_iff)
  note agent = build_agent_Inr [OF parts(3)]
  have selkies: "selkies_config_ok (dp_selkies d)"
      "setting env ''SESSION_MANAGER_ORCHESTRATION_SECRET'' ''M8_ORCHESTRATION_SECRET'' =
         Inr (sk_orchestration_secret (dp_selkies d))"
    using parts(4) by (auto simp: build_selkies_def bindR_Inr construct_Inr Let_def)
  have "build_cores = Inr (map (\<lambda>c. (c_platform c, c)) core_profiles)" by code_simp
  with parts(2) have "dp_cores d = map (\<lambda>c. (c_platform c, c)) core_profiles" by (metis sum.inject(2))
  then have "map (\<lambda>(k, c). (k, c_max_players c)) (dp_cores d) = [(''nes'', 2), (''snes'', 4), (''genesis'', 2)]"
    by (simp add: core_profiles_def)
  with mk parts(6) ends agent selkies show ?thesis by simp
qed

section \<open>A process that comes up\<close>

definition sample_hash :: "nat list hash_object" where
  "sample_hash = \<lparr>ho_new = [], ho_update = (\<lambda>h b. h @ b), ho_hexdigest = (\<lambda>h. replicate 64 (if h = [78, 69, 83] then CHR ''a'' else CHR ''b''))\<rparr>"

definition sample_files :: host_files where
  "sample_files =
     \<lparr>hf_cwd = [], hf_resolve = (\<lambda>p. Inr (pp_parts p)), hf_is_file = (\<lambda>p. p \<noteq> []),
      hf_content = (\<lambda>_. Inr [78, 69, 83])\<rparr>"

definition sample_libraries :: "nat list libraries" where
  "sample_libraries =
     \<lparr>lb_files = sample_files, lb_sha256 = sample_hash, lb_urls = sample_url_library, lb_valkey = (\<lambda>_. Inr ()),
      lb_unicode = app_unicode sample_app, lb_hmac = app_hmac sample_app, lb_framework = sample_framework\<rparr>"

definition sample_environ :: environ where
  "sample_environ = map_of
     [(''SESSION_MANAGER_ROM_ROOT'', ustring_of ''/roms''),
      (''M8_ROM_PATH'', ustring_of ''/roms/game.nes''),
      (''SESSION_MANAGER_ROM_SHA256'', ustring_of (replicate 64 (CHR ''a''))),
      (''SESSION_MANAGER_RUNTIME_IMAGE'', ustring_of (''sha256:'' @ replicate 64 (CHR ''0''))),
      (''SESSION_MANAGER_STREAM_NETWORK'', ustring_of ''stream''),
      (''SESSION_MANAGER_NETPLAY_NETWORK'', ustring_of ''netplay''),
      (''SESSION_MANAGER_ORCHESTRATION_SECRET'', ustring_of (replicate 32 (CHR ''k''))),
      (''VALKEY_URL'', ustring_of ''valkey://valkey''),
      (''SESSION_MANAGER_SERVICE_TOKEN'', ustring_of (replicate 32 (CHR ''t'')))]"

lemma read_blocks_small: "content \<noteq> [] \<Longrightarrow> length content \<le> 1024 * 1024 \<Longrightarrow> read_blocks content = [content]"
  by (subst read_blocks.simps, subst read_blocks.simps) simp

lemma sample_rom:
  "trusted_rom sample_environ sample_files sample_hash =
     Inr ([ustring_of ''roms'', ustring_of ''game.nes''], replicate 64 (CHR ''a''))"
proof -
  have sha: "sha256_file sample_files sample_hash p = Inr (replicate 64 (CHR ''a''))" for p
    by (simp add: sha256_file_def sample_files_def sample_hash_def read_blocks_small)
  have "setting sample_environ ''SESSION_MANAGER_ROM_ROOT'' ''M8_ROM_ROOT'' = Inr (ustring_of ''/roms'')"
      "setting sample_environ ''SESSION_MANAGER_ROM_PATH'' ''M8_ROM_PATH'' = Inr (ustring_of ''/roms/game.nes'')"
      "setting sample_environ ''SESSION_MANAGER_ROM_SHA256'' ''M8_ROM_SHA256'' = Inr (ustring_of (replicate 64 (CHR ''a'')))"
    by code_simp+
  moreover have "pure_path_of (ustring_of ''/roms'') = \<lparr>pp_absolute = True, pp_parts = [ustring_of ''roms'']\<rparr>"
      "pure_path_of (ustring_of ''/roms/game.nes'') =
         \<lparr>pp_absolute = True, pp_parts = [ustring_of ''roms'', ustring_of ''game.nes'']\<rparr>"
      "[46, 46] \<notin> set [ustring_of ''roms'', ustring_of ''game.nes'']" by code_simp+
  moreover have "hf_resolve sample_files q = Inr (pp_parts q)" "hf_is_file sample_files p = (p \<noteq> [])" for p q
    by (simp_all add: sample_files_def)
  ultimately show ?thesis by (simp add: trusted_rom_def sha made_absolute_def is_relative_to_def)
qed

definition sample_deployed :: deployment where
  "sample_deployed =
     \<lparr>dp_romm = Static_romm \<lparr>g_romm_rom_id = 1, g_platform = ''nes'', g_canonical_path = ustring_of ''/roms/game.nes'',
        g_rom_sha256 = replicate 64 (CHR ''a'')\<rparr>,
      dp_cores = map (\<lambda>c. (c_platform c, c)) core_profiles,
      dp_agent_socket = pure_path_of (ustring_of ''/run/retrobrowser/runtime-agent.sock''),
      dp_agent = \<lparr>ag_image = ''sha256:'' @ replicate 64 (CHR ''0''), ag_stream_network = ''stream'',
        ag_netplay_network = ''netplay'', ag_gpu_profile = Gpu_cpu, ag_netplay_port = 55435,
        ag_orchestration_secret = ustring_of (replicate 32 (CHR ''k''))\<rparr>,
      dp_selkies = \<lparr>sk_orchestration_secret = ustring_of (replicate 32 (CHR ''k'')), sk_port = 8080\<rparr>,
      dp_valkey_url = ustring_of ''valkey://valkey'',
      dp_service = \<lparr>session_ttl = 14400000000, lobby_lease = 120000000, participant_idle_timeout = 45000000,
        startup_timeout = 180000000, netplay_connect_timeout = 45000000, poll_interval = 2000000,
        runtime_capacity = 8, session_capacity = 4, per_user_runtime_capacity = 1\<rparr>,
      dp_app = sample_app\<lparr>app_token := ustring_of (replicate 32 (CHR ''t''))\<rparr>\<rparr>"

lemma sample_numbers:
  "int_setting (ustring_of ''14400'') = Inr 14400" "int_setting (ustring_of ''120'') = Inr 120"
  "int_setting (ustring_of ''45'') = Inr 45" "int_setting (ustring_of ''180'') = Inr 180"
  "int_setting (ustring_of ''8'') = Inr 8" "int_setting (ustring_of ''4'') = Inr 4"
  "int_setting (ustring_of ''1'') = Inr 1" "int_setting (ustring_of ''10'') = Inr 10"
  by (simp_all add: int_setting_def int_of_text_def narrow_ascii int_of_dec_def strip_def is_py_space_def Let_def
      digit_value_def char_class_defs)

lemma sample_unset:
  "list_all (\<lambda>k. sample_environ k = None)
     [''SESSION_MANAGER_MAX_SESSION_SECONDS'', ''SESSION_MANAGER_LOBBY_LEASE_SECONDS'',
      ''SESSION_MANAGER_IDLE_TIMEOUT_SECONDS'', ''SESSION_MANAGER_STARTUP_TIMEOUT'', ''M8_STARTUP_TIMEOUT'',
      ''SESSION_MANAGER_NETPLAY_CONNECT_TIMEOUT'', ''M8_NETPLAY_CONNECT_TIMEOUT'',
      ''SESSION_MANAGER_RUNTIME_CAPACITY'', ''SESSION_MANAGER_SESSION_CAPACITY'',
      ''SESSION_MANAGER_PER_USER_RUNTIME_CAPACITY'', ''SESSION_MANAGER_CLEANUP_INTERVAL_SECONDS'',
      ''SESSION_MANAGER_ROMM_API_URL'', ''SESSION_MANAGER_ROMM_ROM_ID'', ''M8_ROMM_ROM_ID'']"
  by code_simp

lemma sample_service: "build_service sample_environ = Inr (dp_service sample_deployed)"
  using sample_unset
  by (simp add: build_service_def seconds_setting_def getenv_def setting_or_def sample_numbers make_service_def
      sample_deployed_def)

lemma sample_interval:
  "seconds_setting (getenv sample_environ ''SESSION_MANAGER_CLEANUP_INTERVAL_SECONDS'' (ustring_of ''10'')) = Inr 10000000"
  using sample_unset by (simp add: seconds_setting_def getenv_def sample_numbers)

lemma sample_parts:
  "build_cores = Inr (dp_cores sample_deployed)"
  "build_selkies sample_environ = Inr (dp_selkies sample_deployed)"
  "environ_item sample_environ ''VALKEY_URL'' = Inr (dp_valkey_url sample_deployed)"
  "environ_item sample_environ ''SESSION_MANAGER_SERVICE_TOKEN'' = Inr (app_token (dp_app sample_deployed))"
  by code_simp+

lemma sample_agent:
  "build_agent sample_environ = Inr (dp_agent_socket sample_deployed, dp_agent sample_deployed)"
proof -
  have "setting sample_environ ''SESSION_MANAGER_RUNTIME_IMAGE'' ''M8_RUNTIME_IMAGE'' =
        Inr (ustring_of (''sha256:'' @ replicate 64 (CHR ''0'')))"
      "setting sample_environ ''SESSION_MANAGER_STREAM_NETWORK'' ''M8_STREAM_NETWORK'' = Inr (ustring_of ''stream'')"
      "setting sample_environ ''SESSION_MANAGER_NETPLAY_NETWORK'' ''M8_NETPLAY_NETWORK'' = Inr (ustring_of ''netplay'')"
      "setting sample_environ ''SESSION_MANAGER_ORCHESTRATION_SECRET'' ''M8_ORCHESTRATION_SECRET'' =
        Inr (ustring_of (replicate 32 (CHR ''k'')))"
      "gpu_setting (setting_or sample_environ ''SESSION_MANAGER_GPU_PROFILE'' ''M8_GPU_PROFILE'' (ustring_of ''cpu'')) = Some Gpu_cpu"
      "sample_environ ''M8_RUNTIME_AGENT_SOCKET'' = None"
      "agent_config_ok (dp_agent sample_deployed)"
    by code_simp+
  moreover have "map narrow (ustring_of (''sha256:'' @ replicate 64 (CHR ''0''))) = ''sha256:'' @ replicate 64 (CHR ''0'')"
    by (rule narrow_ascii) (simp add: list_all_iff)
  ultimately show ?thesis
    by (simp add: build_agent_def getenv_def narrow_ascii construct_def make_agent_provider_def
        sample_deployed_def Let_def del: append.simps)
qed

lemma sample_static:
  "build_romm sample_environ sample_libraries = Inr (dp_romm sample_deployed)"
proof -
  have "getenv sample_environ ''SESSION_MANAGER_ROMM_API_URL'' [] = []"
      "int_setting (setting_or sample_environ ''SESSION_MANAGER_ROMM_ROM_ID'' ''M8_ROMM_ROM_ID'' (ustring_of ''1'')) = Inr 1"
    using sample_unset by (simp_all add: getenv_def setting_or_def sample_numbers)
  moreover have
      "path_text [ustring_of ''roms'', ustring_of ''game.nes''] = ustring_of ''/roms/game.nes''"
      "game_record_ok \<lparr>g_romm_rom_id = 1, g_platform = ''nes'', g_canonical_path = ustring_of ''/roms/game.nes'',
        g_rom_sha256 = replicate 64 (CHR ''a'')\<rparr>"
    by code_simp+
  ultimately show ?thesis
    by (simp add: build_romm_def sample_libraries_def sample_rom construct_def sample_deployed_def)
qed

lemma sample_build: "build_app sample_environ sample_libraries = Inr sample_deployed"
proof -
  have "create_app (dp_app sample_deployed) = Inr (dp_app sample_deployed)"
    by (simp add: create_app_def sample_deployed_def sample_app_def ustring_of_def)
  moreover have "dp_app sample_deployed =
      \<lparr>app_token = app_token (dp_app sample_deployed), app_cleanup_interval = 10000000,
       app_unicode = lb_unicode sample_libraries, app_hmac = lb_hmac sample_libraries,
       app_framework = lb_framework sample_libraries\<rparr>"
    by (simp add: sample_deployed_def sample_libraries_def sample_app_def)
  moreover have "lb_valkey sample_libraries u = Inr ()" for u by (simp add: sample_libraries_def)
  ultimately show ?thesis
    by (simp add: build_app_def sample_static sample_parts sample_agent sample_service sample_interval)
qed


theorem started_manager_is_sound_witness:
  "build_app sample_environ sample_libraries = Inr sample_deployed \<and>
   perform (dp_service sample_deployed) sample_manager (Create alice sample_request) sample_start \<noteq>
     (Inl Diverged, sample_start)"
proof -
  have "calls_end sample_manager" "steady sample_manager (\<lambda>s. ticks (world s))"
    using sample_sound by (simp_all add: sound_setup_def)
  from sample_build started_manager_is_sound [OF sample_build this] show ?thesis by blast
qed

end
