(* ===== verification/AgentModels.thy ===== *)
theory AgentModels
  imports Providers "HOL-Library.Monad_Syntax"
begin

text \<open>
  The Runtime Agent's data: \<open>errors.py\<close>, \<open>models/runtime.py\<close> and \<open>models/config.py\<close> of
  \<open>services/runtime-agent/src/retro_runtime\<close>. A request document is validated in pydantic's strict
  mode: unknown keys are refused, text must be text and integers integers.
\<close>

section \<open>Exceptions\<close>

datatype agent_exn =
    AgentConflict string
  | AgentNotFound string
  | AgentOwnership string
  | AgentEngine string
  | AgentValue string
  | AgentValidation
  | AgentOS string
  | AgentOther string

text \<open>\<open>isinstance(e, RuntimeAgentError)\<close> and \<open>isinstance(e, ValueError)\<close>.\<close>

fun is_agent_error :: "agent_exn \<Rightarrow> bool" where
  "is_agent_error (AgentConflict m) = True"
| "is_agent_error (AgentNotFound m) = True"
| "is_agent_error (AgentOwnership m) = True"
| "is_agent_error (AgentEngine m) = True"
| "is_agent_error _ = False"

fun is_value_error :: "agent_exn \<Rightarrow> bool" where
  "is_value_error (AgentValue m) = True"
| "is_value_error AgentValidation = True"
| "is_value_error _ = False"

fun is_os_error :: "agent_exn \<Rightarrow> bool" where
  "is_os_error (AgentOS m) = True"
| "is_os_error _ = False"

fun is_not_found :: "agent_exn \<Rightarrow> bool" where
  "is_not_found (AgentNotFound m) = True"
| "is_not_found _ = False"

fun is_conflict :: "agent_exn \<Rightarrow> bool" where
  "is_conflict (AgentConflict m) = True"
| "is_conflict _ = False"

section \<open>Requests\<close>

datatype netplay_mode = Standalone | NetHost | NetClient

record netplay_request =
  nr_role :: netplay_mode
  nr_host :: "ustring option"
  nr_port :: int

record create_request =
  q_session_id :: uuid
  q_participant_id :: uuid
  q_user_id :: string
  q_player_name :: ustring
  q_image :: string
  q_rom_path :: ustring
  q_rom_sha256 :: string
  q_core_profile :: string
  q_netplay :: netplay_request
  q_stream_subfolder :: string
  q_stream_network :: string
  q_netplay_network :: string
  q_gpu_profile :: gpu_profile
  q_master_token :: ustring

definition network_name :: "string \<Rightarrow> bool" where
  "network_name s \<longleftrightarrow> 1 \<le> length s \<and> length s \<le> 63 \<and> network_pattern s"

text \<open>\<open>str.isalnum\<close> of one character: a letter or a number.\<close>

definition is_alnum :: "unicode_data \<Rightarrow> nat \<Rightarrow> bool" where
  "is_alnum U c \<longleftrightarrow> take 1 (category U c) = ''L'' \<or> take 1 (category U c) = ''N''"

definition host_label :: "unicode_data \<Rightarrow> ustring \<Rightarrow> bool" where
  "host_label U w \<longleftrightarrow> w \<noteq> [] \<and> length w \<le> 63 \<and> is_alnum U (hd w) \<and> is_alnum U (last w) \<and>
     list_all (\<lambda>c. is_alnum U c \<or> c = 45) w"

definition validate_host :: "unicode_data \<Rightarrow> netplay_request \<Rightarrow> bool" where
  "validate_host U n \<longleftrightarrow>
     (nr_role n = NetClient \<longleftrightarrow> nr_host n \<noteq> None) \<and>
     (case nr_host n of None \<Rightarrow> True | Some h \<Rightarrow> list_all (host_label U) (split_at 46 h))"

definition validate_player_name :: "unicode_data \<Rightarrow> ustring \<Rightarrow> bool" where
  "validate_player_name U v \<longleftrightarrow> strip (is_space U) v = v \<and> list_all (\<lambda>c. 32 \<le> c \<and> c \<noteq> 127) v"

definition subfolder_pattern :: "string \<Rightarrow> bool" where
  "subfolder_pattern s \<longleftrightarrow>
     (let w = drop 8 s; alnum = (\<lambda>c. is_lower_ascii c \<or> is_digit_ascii c) in
      take 8 s = ''/stream/'' \<and> w \<noteq> [] \<and> alnum (hd w) \<and> alnum (last w) \<and>
      list_all (\<lambda>c. alnum c \<or> c = CHR ''-'') w)"

definition create_request_ok :: "unicode_data \<Rightarrow> create_request \<Rightarrow> bool" where
  "create_request_ok U q \<longleftrightarrow> safe_user_id (q_user_id q) \<and>
     1 \<le> length (q_player_name q) \<and> length (q_player_name q) \<le> 64 \<and>
     validate_player_name U (q_player_name q) \<and>
     1 \<le> length (q_image q) \<and> length (q_image q) \<le> 512 \<and>
     1 \<le> length (q_rom_path q) \<and> length (q_rom_path q) \<le> 4096 \<and>
     sha256_text (q_rom_sha256 q) \<and> slug (q_core_profile q) \<and>
     9 \<le> length (q_stream_subfolder q) \<and> length (q_stream_subfolder q) \<le> 96 \<and>
     subfolder_pattern (q_stream_subfolder q) \<and>
     network_name (q_stream_network q) \<and> network_name (q_netplay_network q) \<and>
     32 \<le> length (q_master_token q) \<and> length (q_master_token q) \<le> 512 \<and>
     q_stream_network q \<noteq> q_netplay_network q"

definition netplay_ok :: "unicode_data \<Rightarrow> netplay_request \<Rightarrow> bool" where
  "netplay_ok U n \<longleftrightarrow> (case nr_host n of None \<Rightarrow> True | Some h \<Rightarrow> 1 \<le> length h \<and> length h \<le> 253) \<and>
     1024 \<le> nr_port n \<and> nr_port n \<le> 65535 \<and> validate_host U n"

section \<open>Reading a request\<close>

fun strict_int :: "json \<Rightarrow> int option" where
  "strict_int (JInt i) = Some i"
| "strict_int _ = None"

fun object_keys :: "json \<Rightarrow> string list option" where
  "object_keys (JObj kvs) = Some (map fst kvs)"
| "object_keys _ = None"

definition only_keys :: "string list \<Rightarrow> json \<Rightarrow> unit option" where
  "only_keys ks d = do { have \<leftarrow> object_keys d; if set have \<subseteq> set ks then Some () else None }"

text \<open>
  How pydantic reads a UUID from text: 32 digits, or the hyphenated form, which may stand in
  braces or follow \<open>urn:uuid:\<close>.
\<close>

definition hyphenated :: "string \<Rightarrow> string option" where
  "hyphenated s =
     (if length s = 36 \<and> s ! 8 = CHR ''-'' \<and> s ! 13 = CHR ''-'' \<and> s ! 18 = CHR ''-'' \<and> s ! 23 = CHR ''-''
      then Some (take 8 s @ take 4 (drop 9 s) @ take 4 (drop 14 s) @ take 4 (drop 19 s) @ drop 24 s)
      else None)"

definition uuid_digits :: "string \<Rightarrow> string option" where
  "uuid_digits s =
     (if length s = 32 then Some s
      else if length s = 38 \<and> hd s = CHR ''{'' \<and> last s = CHR ''}'' then hyphenated (take 36 (drop 1 s))
      else if length s = 45 \<and> take 9 s = ''urn:uuid:'' then hyphenated (drop 9 s)
      else hyphenated s)"

definition read_uuid :: "json \<Rightarrow> uuid option" where
  "read_uuid v = do {
     s \<leftarrow> json_text v;
     h \<leftarrow> uuid_digits s;
     if list_ex (\<lambda>c. c = CHR ''_'') h then None else do {
     n \<leftarrow> read_digits 16 False 0 h;
     Some (word_of_nat n) } }"

definition read_role :: "json \<Rightarrow> netplay_mode option" where
  "read_role v = do {
     s \<leftarrow> json_text v;
     if s = ''standalone'' then Some Standalone
     else if s = ''host'' then Some NetHost
     else if s = ''client'' then Some NetClient else None }"

definition read_gpu_profile :: "json \<Rightarrow> gpu_profile option" where
  "read_gpu_profile v = do {
     s \<leftarrow> json_text v;
     if s = ''cpu'' then Some Gpu_cpu else if s = ''nvidia'' then Some Gpu_nvidia else None }"

definition read_netplay :: "unicode_data \<Rightarrow> json \<Rightarrow> netplay_request option" where
  "read_netplay U d = do {
     only_keys [''role'', ''host'', ''port''] d;
     role \<leftarrow> Option.bind (json_get d ''role'') read_role;
     host \<leftarrow> (case json_get d ''host'' of
                None \<Rightarrow> Some None | Some JNull \<Rightarrow> Some None | Some v \<Rightarrow> map_option Some (json_ustring v));
     port \<leftarrow> Option.bind (json_get d ''port'') strict_int;
     let n = \<lparr>nr_role = role, nr_host = host, nr_port = port\<rparr>;
     if netplay_ok U n then Some n else None }"

definition create_request_keys :: "string list" where
  "create_request_keys =
     [''schema_version'', ''session_id'', ''participant_id'', ''user_id'', ''player_name'', ''image'',
      ''rom_path'', ''rom_sha256'', ''core_profile'', ''netplay'', ''stream_subfolder'',
      ''stream_network'', ''netplay_network'', ''gpu_profile'', ''selkies_master_token'']"

definition read_create_request :: "unicode_data \<Rightarrow> json \<Rightarrow> create_request option" where
  "read_create_request U d = do {
     only_keys create_request_keys d;
     version \<leftarrow> Option.bind (json_get d ''schema_version'') strict_int;
     session \<leftarrow> Option.bind (json_get d ''session_id'') read_uuid;
     participant \<leftarrow> Option.bind (json_get d ''participant_id'') read_uuid;
     user \<leftarrow> Option.bind (json_get d ''user_id'') json_text;
     player \<leftarrow> Option.bind (json_get d ''player_name'') json_ustring;
     image \<leftarrow> Option.bind (json_get d ''image'') json_text;
     rom \<leftarrow> Option.bind (json_get d ''rom_path'') json_ustring;
     sha \<leftarrow> Option.bind (json_get d ''rom_sha256'') json_text;
     core \<leftarrow> Option.bind (json_get d ''core_profile'') json_text;
     netplay \<leftarrow> Option.bind (json_get d ''netplay'') (read_netplay U);
     subfolder \<leftarrow> Option.bind (json_get d ''stream_subfolder'') json_text;
     stream \<leftarrow> Option.bind (json_get d ''stream_network'') json_text;
     net \<leftarrow> Option.bind (json_get d ''netplay_network'') json_text;
     gpu \<leftarrow> Option.bind (json_get d ''gpu_profile'') read_gpu_profile;
     token \<leftarrow> Option.bind (json_get d ''selkies_master_token'') json_ustring;
     let q = \<lparr>q_session_id = session, q_participant_id = participant, q_user_id = user,
              q_player_name = player, q_image = image, q_rom_path = rom, q_rom_sha256 = sha,
              q_core_profile = core, q_netplay = netplay, q_stream_subfolder = subfolder,
              q_stream_network = stream, q_netplay_network = net, q_gpu_profile = gpu,
              q_master_token = token\<rparr>;
     if version = 1 \<and> create_request_ok U q then Some q else None }"

definition validate_create_request :: "unicode_data \<Rightarrow> json \<Rightarrow> agent_exn + create_request" where
  "validate_create_request U d =
     (case read_create_request U d of None \<Rightarrow> Inl AgentValidation | Some q \<Rightarrow> Inr q)"

section \<open>Records\<close>

record container_record =
  cn_container_id :: string
  cn_name :: string
  cn_state :: string
  cn_health :: health_status
  cn_labels :: "(string \<times> string) list"
  cn_image :: string

record runtime_record =
  rt_participant_id :: uuid
  rt_container_id :: string
  rt_container_name :: string
  rt_state :: string
  rt_health :: health_status
  rt_stream_subfolder :: string
  rt_orphaned :: bool

record agent_capacity =
  ac_maximum :: int
  ac_used :: int
  ac_available :: int

definition make_agent_capacity :: "agent_capacity \<Rightarrow> agent_exn + agent_capacity" where
  "make_agent_capacity c =
     (if 1 \<le> ac_maximum c \<and> 0 \<le> ac_used c \<and> 0 \<le> ac_available c then Inr c else Inl AgentValidation)"

fun health_text :: "health_status \<Rightarrow> string" where
  "health_text HS_none = ''none''"
| "health_text HS_starting = ''starting''"
| "health_text HS_healthy = ''healthy''"
| "health_text HS_unhealthy = ''unhealthy''"

text \<open>\<open>record.model_dump(mode="json")\<close>.\<close>

definition record_json :: "runtime_record \<Rightarrow> json" where
  "record_json r =
     JObj [(''participant_id'', JStr (uuid_str (rt_participant_id r))),
       (''container_id'', JStr (rt_container_id r)),
       (''container_name'', JStr (rt_container_name r)),
       (''state'', JStr (rt_state r)),
       (''health_status'', JStr (health_text (rt_health r))),
       (''stream_subfolder'', JStr (rt_stream_subfolder r)),
       (''orphaned'', JBool (rt_orphaned r))]"

definition capacity_json :: "agent_capacity \<Rightarrow> json" where
  "capacity_json c =
     JObj [(''maximum'', JInt (ac_maximum c)), (''used'', JInt (ac_used c)), (''available'', JInt (ac_available c))]"

section \<open>Configuration\<close>

datatype selkies_mode = Websockets | Webrtc
datatype turn_protocol = Udp | Tcp

record agent_settings =
  as_docker_socket :: pure_path
  as_listen_socket :: pure_path
  as_approved_image :: string
  as_approved_networks :: "string set"
  as_rom_root :: pure_path
  as_user_data_root :: pure_path
  as_save_data_root :: "pure_path option"
  as_docker_rom_root :: "ustring option"
  as_docker_user_data_root :: "ustring option"
  as_docker_save_data_root :: "ustring option"
  as_preprovisioned_user_data :: bool
  as_manage_user_data_permissions :: bool
  as_control_uid :: int
  as_control_gid :: int
  as_route_root :: pure_path
  as_metrics_target_root :: "pure_path option"
  as_allowed_origins :: string
  as_route_host :: "string option"
  as_selkies_mode :: selkies_mode
  as_turn_rest_uri :: "string option"
  as_turn_rest_api_key :: "string option"
  as_turn_rest_username :: string
  as_turn_protocol :: turn_protocol
  as_turn_tls :: bool
  as_stun_host :: "string option"
  as_stun_port :: int
  as_memory_bytes :: int
  as_nano_cpus :: int
  as_pids_limit :: int
  as_max_runtimes :: int
  as_gpu_profiles :: "string set"

definition optionally :: "('a \<Rightarrow> bool) \<Rightarrow> 'a option \<Rightarrow> bool" where
  "optionally P x \<longleftrightarrow> (case x of None \<Rightarrow> True | Some a \<Rightarrow> P a)"

definition within :: "int \<Rightarrow> int \<Rightarrow> int \<Rightarrow> bool" where
  "within a b i \<longleftrightarrow> a \<le> i \<and> i \<le> b"

definition host_pattern :: "string \<Rightarrow> bool" where
  "host_pattern s \<longleftrightarrow>
     (let alnum = (\<lambda>c. is_lower_ascii c \<or> is_digit_ascii c) in
      1 \<le> length s \<and> length s \<le> 253 \<and> alnum (hd s) \<and> alnum (last s) \<and>
      list_all (\<lambda>c. alnum c \<or> c \<in> set ''.-'') s)"

definition uri_pattern :: "string \<Rightarrow> bool" where
  "uri_pattern s \<longleftrightarrow>
     (let rest = (if take 7 s = ''http://'' then drop 7 s else drop 8 s) in
      (take 7 s = ''http://'' \<or> take 8 s = ''https://'') \<and>
      2 \<le> length rest \<and> last rest = CHR ''/'' \<and> list_all (\<lambda>c. \<not> is_white_space c) rest)"

definition username_pattern :: "string \<Rightarrow> bool" where
  "username_pattern s \<longleftrightarrow> 1 \<le> length s \<and> length s \<le> 64 \<and>
     list_all (\<lambda>c. is_alnum_ascii c \<or> c \<in> set ''_.-'') s"

definition agent_fields_ok :: "agent_settings \<Rightarrow> bool" where
  "agent_fields_ok c \<longleftrightarrow> image_pattern (as_approved_image c) \<and> as_approved_networks c \<noteq> {} \<and>
     within 0 65535 (as_control_uid c) \<and> within 1 65535 (as_control_gid c) \<and>
     optionally host_pattern (as_route_host c) \<and>
     optionally uri_pattern (as_turn_rest_uri c) \<and>
     optionally (\<lambda>k. 32 \<le> length k \<and> length k \<le> 512) (as_turn_rest_api_key c) \<and>
     username_pattern (as_turn_rest_username c) \<and>
     optionally host_pattern (as_stun_host c) \<and> within 1 65535 (as_stun_port c) \<and>
     within (512 * 1024 ^ 2) (16 * 1024 ^ 3) (as_memory_bytes c) \<and>
     within 500000000 8000000000 (as_nano_cpus c) \<and> within 128 4096 (as_pids_limit c) \<and>
     within 1 256 (as_max_runtimes c)"

definition safe_networks :: "agent_settings \<Rightarrow> bool" where
  "safe_networks c \<longleftrightarrow> as_approved_networks c \<inter> {''host'', ''none'', ''bridge'', ''default''} = {}"

definition valid_gpu_profiles :: "agent_settings \<Rightarrow> bool" where
  "valid_gpu_profiles c \<longleftrightarrow> as_gpu_profiles c \<noteq> {} \<and> as_gpu_profiles c \<subseteq> {''cpu'', ''nvidia''}"

definition absolute_paths :: "agent_settings \<Rightarrow> bool" where
  "absolute_paths c \<longleftrightarrow> pp_absolute (as_docker_socket c) \<and> pp_absolute (as_listen_socket c) \<and>
     pp_absolute (as_rom_root c) \<and> pp_absolute (as_user_data_root c) \<and> pp_absolute (as_route_root c) \<and>
     optionally pp_absolute (as_metrics_target_root c) \<and> optionally pp_absolute (as_save_data_root c)"

definition matching_save_roots :: "agent_settings \<Rightarrow> bool" where
  "matching_save_roots c \<longleftrightarrow> (as_docker_save_data_root c \<noteq> None \<longrightarrow> as_save_data_root c \<noteq> None)"

definition webrtc_services :: "agent_settings \<Rightarrow> bool" where
  "webrtc_services c \<longleftrightarrow>
     (if as_selkies_mode c = Webrtc
      then as_turn_rest_uri c \<noteq> None \<and> as_turn_rest_api_key c \<noteq> None \<and> as_stun_host c \<noteq> None
      else as_turn_rest_uri c = None \<and> as_turn_rest_api_key c = None \<and> as_stun_host c = None)"

definition make_agent_settings :: "agent_settings \<Rightarrow> agent_exn + agent_settings" where
  "make_agent_settings c =
     (if agent_fields_ok c \<and> safe_networks c \<and> valid_gpu_profiles c \<and> absolute_paths c \<and>
         matching_save_roots c \<and> webrtc_services c
      then Inr c else Inl AgentValidation)"

end
