(* ===== verification/AgentFiles.thy ===== *)
theory AgentFiles
  imports AgentModels
begin

text \<open>
  The Runtime Agent's use of the file system: \<open>validation/paths.py\<close>, the route files of
  \<open>routes/provider.py\<close> and the metrics targets of \<open>observability/targets.py\<close>.

  The file operations are fields of the record \<open>files\<close>; the locale \<open>file_store\<close> states what they do
  to the documents on disk, including what a failing call may leave behind.
\<close>

datatype document_format = Yaml | JsonLine

record 's files =
  f_resolve :: "pure_path \<Rightarrow> (agent_exn, 's, path) prog"
  f_is_file :: "path \<Rightarrow> (agent_exn, 's, bool) prog"
  f_is_dir :: "path \<Rightarrow> (agent_exn, 's, bool) prog"
  f_mkdir :: "path \<Rightarrow> nat \<Rightarrow> (agent_exn, 's, unit) prog"
  f_chmod :: "path \<Rightarrow> nat \<Rightarrow> (agent_exn, 's, unit) prog"
  f_chown :: "path \<Rightarrow> int \<Rightarrow> int \<Rightarrow> (agent_exn, 's, unit) prog"
  f_write :: "document_format \<Rightarrow> path \<Rightarrow> json \<Rightarrow> (agent_exn, 's, unit) prog"
  f_replace :: "path \<Rightarrow> path \<Rightarrow> (agent_exn, 's, unit) prog"
  f_unlink :: "path \<Rightarrow> (agent_exn, 's, unit) prog"
  f_listdir :: "path \<Rightarrow> (agent_exn, 's, ustring list) prog"
  f_sha256 :: "path \<Rightarrow> (agent_exn, 's, string) prog"

section \<open>ROM files\<close>

definition resolve_existing_file_beneath ::
  "'s files \<Rightarrow> ustring \<Rightarrow> pure_path \<Rightarrow> (agent_exn, 's, path) prog" where
  "resolve_existing_file_beneath F candidate root =
     bindE (f_resolve F root) (\<lambda>resolved_root.
     bindE (f_resolve F (pure_path_of candidate)) (\<lambda>resolved.
     bindE (f_is_file F resolved) (\<lambda>file.
     if \<not> file then raiseE (AgentValue ''ROM path is not a regular file'')
     else if \<not> is_relative_to resolved resolved_root
     then raiseE (AgentValue ''ROM path escapes the approved ROM root'')
     else returnE resolved)))"

section \<open>Discovery files\<close>

text \<open>
  Routes and metrics targets are files \<open>runtime-<participant>.<extension>\<close> of one directory,
  written under another name and then moved.
\<close>

definition discovery_name :: "uuid \<Rightarrow> string \<Rightarrow> ustring" where
  "discovery_name u extension = ustring_of (''runtime-'' @ uuid_str u @ extension)"

definition discovery_path :: "path \<Rightarrow> string \<Rightarrow> uuid \<Rightarrow> path" where
  "discovery_path root extension u = root @ [discovery_name u extension]"

text \<open>\<open>glob("runtime-*<extension>")\<close> and \<open>UUID(path.stem.removeprefix("runtime-"))\<close>.\<close>

definition discovery_participant :: "string \<Rightarrow> ustring \<Rightarrow> uuid option" where
  "discovery_participant extension n =
     (let e = ustring_of extension in
      if take 8 n = ustring_of ''runtime-'' \<and> 8 + length e \<le> length n \<and> drop (length n - length e) n = e
      then uuid_of_str (map narrow (drop 8 (take (length n - length e) n)))
      else None)"

definition list_discovered :: "'s files \<Rightarrow> path \<Rightarrow> string \<Rightarrow> (agent_exn, 's, uuid list) prog" where
  "list_discovered F root extension =
     bindE (f_listdir F root) (\<lambda>names.
     returnE (remdups (List.map_filter (discovery_participant extension) names)))"

section \<open>Routes\<close>

definition route_document :: "string option \<Rightarrow> uuid \<Rightarrow> string \<Rightarrow> string \<Rightarrow> json" where
  "route_document host u subfolder name =
     (let key = ''runtime-'' @ uuid_str u;
          path_rule = ''PathPrefix(`'' @ subfolder @ ''`)'';
          rule = (case host of None \<Rightarrow> path_rule
                  | Some h \<Rightarrow> if h = [] then path_rule else ''Host(`'' @ h @ ''`) && '' @ path_rule)
      in JObj [(''http'', JObj [
           (''routers'', JObj [(key, JObj [
              (''entryPoints'', JList [JStr ''web'']), (''rule'', JStr rule), (''service'', JStr key),
              (''middlewares'', JList [JStr ''runtime-response-headers''])])]),
           (''middlewares'', JObj [(''runtime-response-headers'', JObj [(''headers'', JObj [
              (''contentTypeNosniff'', JBool True),
              (''customResponseHeaders'', JObj [(''Referrer-Policy'', JStr ''no-referrer''),
                 (''X-Robots-Tag'', JStr ''noindex, nofollow'')])])])]),
           (''services'', JObj [(key, JObj [(''loadBalancer'', JObj [
              (''passHostHeader'', JBool True),
              (''healthCheck'', JObj [(''path'', JStr (subfolder @ ''/api/health'')),
                 (''interval'', JStr ''5s''), (''timeout'', JStr ''2s'')]),
              (''servers'', JList [JObj [(''url'', JStr (''http://'' @ name @ '':8080''))]])])])])])])"

definition route_publish ::
  "'s files \<Rightarrow> path \<Rightarrow> string option \<Rightarrow> uuid \<Rightarrow> string \<Rightarrow> string \<Rightarrow> (agent_exn, 's, unit) prog" where
  "route_publish F root host u subfolder name =
     (let destination = discovery_path root ''.yml'' u; temporary = discovery_path root ''.tmp'' u in
      bindE (f_write F Yaml temporary (route_document host u subfolder name)) (\<lambda>_.
      bindE (f_chmod F temporary 416) (\<lambda>_.
      f_replace F temporary destination)))"

definition route_remove :: "'s files \<Rightarrow> path \<Rightarrow> uuid \<Rightarrow> (agent_exn, 's, unit) prog" where
  "route_remove F root u = f_unlink F (discovery_path root ''.yml'' u)"

definition route_exists :: "'s files \<Rightarrow> path \<Rightarrow> uuid \<Rightarrow> (agent_exn, 's, bool) prog" where
  "route_exists F root u = f_is_file F (discovery_path root ''.yml'' u)"

definition route_participants :: "'s files \<Rightarrow> path \<Rightarrow> (agent_exn, 's, uuid list) prog" where
  "route_participants F root = list_discovered F root ''.yml''"

section \<open>Metrics targets\<close>

definition metrics_document :: "uuid \<Rightarrow> uuid \<Rightarrow> string \<Rightarrow> string \<Rightarrow> string \<Rightarrow> json" where
  "metrics_document u session core name token =
     JList [JObj [(''targets'', JList [JStr (name @ '':9091'')]),
       (''labels'', JObj [(''job'', JStr ''selkies''),
          (''session_id'', JStr (uuid_str session)),
          (''participant_id'', JStr (uuid_str u)),
          (''core_profile'', JStr core),
          (''__metrics_path__'', JStr ''/metrics''),
          (''__param_token'', JStr token)])]]"

text \<open>The agent runs on a POSIX system; a failing \<open>chown\<close> is ignored.\<close>

definition metrics_publish ::
  "'s files \<Rightarrow> path option \<Rightarrow> uuid \<Rightarrow> uuid \<Rightarrow> string \<Rightarrow> string \<Rightarrow> string \<Rightarrow> (agent_exn, 's, unit) prog" where
  "metrics_publish F root u session core name token =
     (case root of
        None \<Rightarrow> returnE ()
      | Some r \<Rightarrow>
          let destination = discovery_path r ''.json'' u; temporary = discovery_path r ''.tmp'' u in
          bindE (f_write F JsonLine temporary (metrics_document u session core name token)) (\<lambda>_.
          bindE (f_chmod F temporary 416) (\<lambda>_.
          bindE (catchE (f_chown F temporary 65534 65534)
                   (\<lambda>e. if is_os_error e then returnE () else raiseE e)) (\<lambda>_.
          f_replace F temporary destination))))"

definition metrics_remove :: "'s files \<Rightarrow> path option \<Rightarrow> uuid \<Rightarrow> (agent_exn, 's, unit) prog" where
  "metrics_remove F root u =
     (case root of None \<Rightarrow> returnE () | Some r \<Rightarrow> f_unlink F (discovery_path r ''.json'' u))"

definition metrics_participants :: "'s files \<Rightarrow> path option \<Rightarrow> (agent_exn, 's, uuid list) prog" where
  "metrics_participants F root =
     (case root of None \<Rightarrow> returnE [] | Some r \<Rightarrow> list_discovered F r ''.json'')"

section \<open>What the file operations do\<close>

definition leaves :: "('s \<Rightarrow> 'v) \<Rightarrow> ('s \<Rightarrow> 'r \<times> 's) \<Rightarrow> bool" where
  "leaves view f \<longleftrightarrow> (\<forall>s. view (snd (f s)) = view s)"

lemma wp_leaves:
  assumes "leaves view f"
    and "\<And>a t. view t = view s \<Longrightarrow> Q a t"
    and "\<And>e t. view t = view s \<Longrightarrow> E e t"
  shows "wp f Q E s"
  using assms(1) unfolding leaves_def by (metis assms(2,3) snd_conv wp_I)

locale file_store =
  fixes F :: "'s files"
    and disk :: "'s \<Rightarrow> path \<rightharpoonup> json"
  assumes write_law:
    "wp (f_write F fmt p d) (\<lambda>_ t. disk t = (disk s)(p \<mapsto> d)) (\<lambda>_ t. \<exists>c. disk t = (disk s)(p := c)) s"
    and replace_law:
    "p \<noteq> q \<Longrightarrow> wp (f_replace F p q)
       (\<lambda>_ t. \<exists>d. disk s p = Some d \<and> disk t = (disk s)(q \<mapsto> d, p := None)) (\<lambda>_ t. disk t = disk s) s"
    and unlink_law:
    "wp (f_unlink F p) (\<lambda>_ t. disk t = (disk s)(p := None)) (\<lambda>_ t. disk t = disk s) s"
    and is_file_law:
    "wp (f_is_file F p) (\<lambda>b t. disk t = disk s \<and> (b \<longleftrightarrow> disk s p \<noteq> None)) (\<lambda>_ t. disk t = disk s) s"
    and list_law:
    "wp (f_listdir F dir)
       (\<lambda>ns t. disk t = disk s \<and> set ns = {n. disk s (dir @ [n]) \<noteq> None}) (\<lambda>_ t. disk t = disk s) s"
    and resolve_keeps: "leaves disk (f_resolve F pp)"
    and is_dir_keeps: "leaves disk (f_is_dir F p)"
    and mkdir_keeps: "leaves disk (f_mkdir F p mode)"
    and chmod_keeps: "leaves disk (f_chmod F p mode)"
    and chown_keeps: "leaves disk (f_chown F p uid gid)"
    and sha256_keeps: "leaves disk (f_sha256 F p)"

section \<open>Names of discovery files\<close>

lemma ustring_of_append [simp]: "ustring_of (s @ t) = ustring_of s @ ustring_of t"
  by (simp add: ustring_of_def)

lemma length_ustring_of [simp]: "length (ustring_of s) = length s"
  by (simp add: ustring_of_def)

lemma ustring_of_eq [simp]: "ustring_of s = ustring_of t \<longleftrightarrow> s = t"
  by (auto simp: ustring_of_def inj_on_def dest: map_injective)

lemma uuid_str_ascii: "list_all (\<lambda>c. (of_char c :: nat) < 128) (uuid_str u)"
proof -
  have "(of_char c :: nat) < 128" if "c \<in> insert (CHR ''-'') (set (uuid_hex u))" for c
    using that uuid_hex_chars [of u] by (auto simp: list_all_iff char_class_defs)
  then show ?thesis using uuid_str_parts(1) [of u] by (auto simp: list_all_iff)
qed

lemma discovery_name_parts:
  "discovery_name u e = ustring_of ''runtime-'' @ ustring_of (uuid_str u) @ ustring_of e"
  unfolding discovery_name_def ustring_of_append by (rule refl)

lemma discovery_roundtrip [simp]: "discovery_participant e (discovery_name u e) = Some u"
proof -
  define r where "r = ustring_of ''runtime-''"
  have r: "length r = 8" by (simp add: r_def)
  have n: "map narrow (ustring_of (uuid_str u)) = uuid_str u" by (intro narrow_ascii uuid_str_ascii)
  show ?thesis
    unfolding discovery_participant_def discovery_name_parts r_def [symmetric] Let_def
    using r by (simp add: n uuid_roundtrip(1))
qed

lemma discovery_name_inject [simp]:
  "discovery_name u e = discovery_name v e \<longleftrightarrow> u = v"
  by (auto simp: discovery_name_def)

lemma discovery_path_inject [simp]:
  "discovery_path r e u = discovery_path r e v \<longleftrightarrow> u = v"
  by (simp add: discovery_path_def)

lemma discovery_extension:
  assumes "length e = length e'" and "e \<noteq> e'"
  shows "discovery_path r e u \<noteq> discovery_path r e' v"
  using assms by (auto simp: discovery_path_def discovery_name_def)

end
