(* ===== verification/AgentService.thy ===== *)
theory AgentService
  imports AgentFiles "HOL-Library.List_Lexorder" "HOL-Library.Char_ord"
begin

text \<open>
  \<open>service.py\<close> of the Runtime Agent: every method of \<open>RuntimeService\<close>. The container engine is the
  record \<open>engine\<close> (the protocol \<open>EngineClient\<close>); the hash functions are parameters. The
  lifecycle lock makes creations and removals run one after the other, so each is one program.
\<close>

record 's engine =
  e_ping :: "(agent_exn, 's, bool) prog"
  e_create :: "string \<Rightarrow> json \<Rightarrow> (agent_exn, 's, string) prog"
  e_start :: "string \<Rightarrow> (agent_exn, 's, unit) prog"
  e_inspect :: "string \<Rightarrow> (agent_exn, 's, container_record) prog"
  e_stop :: "string \<Rightarrow> (agent_exn, 's, unit) prog"
  e_remove :: "string \<Rightarrow> (agent_exn, 's, unit) prog"
  e_list :: "(agent_exn, 's, container_record list) prog"

text \<open>The constructor's arguments and the library functions the service computes with.\<close>

record 's agent =
  ag_settings :: agent_settings
  ag_engine :: "'s engine"
  ag_files :: "'s files"
  ag_sha256 :: "nat list \<Rightarrow> string"
  ag_hmac :: hmac
  ag_lower :: "ustring \<Rightarrow> ustring"

abbreviation route_root :: "'s agent \<Rightarrow> path" where
  "route_root A \<equiv> pp_parts (as_route_root (ag_settings A))"

abbreviation metrics_root :: "'s agent \<Rightarrow> path option" where
  "metrics_root A \<equiv> map_option pp_parts (as_metrics_target_root (ag_settings A))"

definition managed_label :: string where
  "managed_label = ''io.retrobrowser.runtime-agent.managed''"

definition participant_label :: string where
  "participant_label = ''io.retrobrowser.participant-id''"

definition session_label :: string where
  "session_label = ''io.retrobrowser.session-id''"

definition fingerprint_label :: string where
  "fingerprint_label = ''io.retrobrowser.runtime-request-sha256''"

definition subfolder_label :: string where
  "subfolder_label = ''io.retrobrowser.stream-subfolder''"

definition save_key_label :: string where
  "save_key_label = ''io.retrobrowser.save-key''"

definition runtime_name :: "uuid \<Rightarrow> string" where
  "runtime_name u = ''retrobrowser-runtime-'' @ uuid_hex u"

section \<open>Validation\<close>

definition validate_request :: "'s agent \<Rightarrow> create_request \<Rightarrow> (agent_exn, 's, path) prog" where
  "validate_request A q =
     (let c = ag_settings A; networks = {q_stream_network q, q_netplay_network q} in
      if q_image q \<noteq> as_approved_image c
      then raiseE (AgentValue ''image is not the approved digest-qualified runtime image'')
      else if \<not> networks \<subseteq> as_approved_networks c
      then raiseE (AgentValue ''runtime requested a network outside the allowlist'')
      else if ''host'' \<in> networks then raiseE (AgentValue ''host networking is forbidden'')
      else if gpu_profile_text (q_gpu_profile q) \<notin> as_gpu_profiles c
      then raiseE (AgentValue ''GPU profile is not approved'')
      else bindE (resolve_existing_file_beneath (ag_files A) (q_rom_path q) (as_rom_root c)) (\<lambda>rom.
           bindE (f_sha256 (ag_files A) rom) (\<lambda>digest.
           if digest \<noteq> q_rom_sha256 q then raiseE (AgentValue ''ROM SHA-256 does not match'')
           else returnE rom)))"

section \<open>The fingerprint of a request\<close>

text \<open>\<open>json.dumps(data, sort_keys=True, separators=(",", ":"))\<close>.\<close>

definition dumps_char :: "nat \<Rightarrow> string" where
  "dumps_char c =
     (if c = 34 \<or> c = 92 then [CHR 0x5C, char_of c]
      else if c = 10 then [CHR 0x5C, CHR ''n'']
      else if c = 13 then [CHR 0x5C, CHR ''r'']
      else if c = 9 then [CHR 0x5C, CHR ''t'']
      else if c = 8 then [CHR 0x5C, CHR ''b'']
      else if c = 12 then [CHR 0x5C, CHR ''f'']
      else if 32 \<le> c \<and> c \<le> 126 then [char_of c]
      else if c < 65536 then [CHR 0x5C, CHR ''u''] @ hex_of_nat 4 c
      else [CHR 0x5C, CHR ''u''] @ hex_of_nat 4 (55296 + (c - 65536) div 1024) @
           [CHR 0x5C, CHR ''u''] @ hex_of_nat 4 (56320 + (c - 65536) mod 1024))"

definition dumps_text :: "ustring \<Rightarrow> string" where
  "dumps_text t = [CHR 0x22] @ concat (map dumps_char t) @ [CHR 0x22]"

fun json_dumps :: "json \<Rightarrow> string" where
  "json_dumps JNull = ''null''"
| "json_dumps (JBool b) = (if b then ''true'' else ''false'')"
| "json_dumps (JInt i) = str_of_int i"
| "json_dumps (JFloat r t) = r"
| "json_dumps (JStr s) = dumps_text (ustring_of s)"
| "json_dumps (JText t) = dumps_text t"
| "json_dumps (JList xs) = ''['' @ join_with '','' (map json_dumps xs) @ '']''"
| "json_dumps (JObj kvs) =
     ''{'' @ join_with '','' (map (\<lambda>(k, v). dumps_text (ustring_of k) @ '':'' @ v)
        (sort_key fst (map (\<lambda>(k, v). (k, json_dumps v)) kvs))) @ ''}''"

fun role_text :: "netplay_mode \<Rightarrow> string" where
  "role_text Standalone = ''standalone''"
| "role_text NetHost = ''host''"
| "role_text NetClient = ''client''"

definition netplay_json :: "netplay_request \<Rightarrow> json" where
  "netplay_json n =
     JObj [(''role'', JStr (role_text (nr_role n))),
       (''host'', case nr_host n of None \<Rightarrow> JNull | Some h \<Rightarrow> JText h), (''port'', JInt (nr_port n))]"

definition fingerprint :: "'s agent \<Rightarrow> create_request \<Rightarrow> string" where
  "fingerprint A q =
     ag_sha256 A (map of_char (json_dumps (JObj
       [(''schema_version'', JInt 1),
        (''session_id'', JStr (uuid_str (q_session_id q))),
        (''participant_id'', JStr (uuid_str (q_participant_id q))),
        (''user_id'', JStr (q_user_id q)),
        (''player_name'', JText (q_player_name q)),
        (''image'', JStr (q_image q)),
        (''rom_path'', JText (q_rom_path q)),
        (''rom_sha256'', JStr (q_rom_sha256 q)),
        (''core_profile'', JStr (q_core_profile q)),
        (''netplay'', netplay_json (q_netplay q)),
        (''stream_subfolder'', JStr (q_stream_subfolder q)),
        (''stream_network'', JStr (q_stream_network q)),
        (''netplay_network'', JStr (q_netplay_network q)),
        (''gpu_profile'', JStr (gpu_profile_text (q_gpu_profile q))),
        (''selkies_master_token_sha256'', JStr (ag_sha256 A (encode_utf8 (q_master_token q))))])))"

definition metrics_token :: "'s agent \<Rightarrow> create_request \<Rightarrow> string" where
  "metrics_token A q = ag_hmac A (encode_utf8 (q_master_token q)) (map of_char ''retrobrowser-metrics-proxy-v1'')"

section \<open>Directories\<close>

text \<open>\<open>_assign_runtime_owner\<close> on a POSIX system.\<close>

definition assign_runtime_owner :: "'s agent \<Rightarrow> path \<Rightarrow> (agent_exn, 's, unit) prog" where
  "assign_runtime_owner A p = f_chown (ag_files A) p 1000 1000"

definition unlessE :: "bool \<Rightarrow> (agent_exn, 's, unit) prog \<Rightarrow> (agent_exn, 's, unit) prog" where
  "unlessE b f = (if b then returnE () else f)"

definition runtime_directory :: "'s agent \<Rightarrow> uuid \<Rightarrow> (agent_exn, 's, path) prog" where
  "runtime_directory A u =
     (let c = ag_settings A; F = ag_files A;
          preprovisioned = as_preprovisioned_user_data c; manage = as_manage_user_data_permissions c in
      bindE (f_resolve F (as_user_data_root c)) (\<lambda>root.
      let directory = root @ [ustring_of (uuid_str u)] in
      bindE (if preprovisioned then f_is_dir F directory else returnE True) (\<lambda>present.
      if \<not> present then raiseE (AgentValue ''participant user-data directory was not pre-provisioned'')
      else bindE (f_mkdir F directory (if manage then 448 else 511)) (\<lambda>_.
      bindE (f_resolve F (at_root directory)) (\<lambda>resolved.
      if \<not> is_relative_to resolved root
      then raiseE (AgentValue ''generated user-data path escaped the approved root'')
      else bindE (unlessE preprovisioned (f_chmod F resolved (if manage then 448 else 493))) (\<lambda>_.
      bindE (unlessE (preprovisioned \<or> \<not> manage) (assign_runtime_owner A resolved)) (\<lambda>_.
      returnE resolved)))))))"

text \<open>Who owns a persistent save: the host's user, for one core and one ROM.\<close>

definition persistence_key :: "'s agent \<Rightarrow> create_request \<Rightarrow> string option" where
  "persistence_key A q =
     (if nr_role (q_netplay q) \<noteq> NetHost then None
      else Some (ag_sha256 A (map of_char
        (''retrobrowser-save-v1'' @ [CHR 0x00] @ q_user_id q @ [CHR 0x00] @ q_core_profile q @ [CHR 0x00] @
         q_rom_sha256 q))))"

definition persistence_directory :: "'s agent \<Rightarrow> string \<Rightarrow> (agent_exn, 's, path) prog" where
  "persistence_directory A save_key =
     (let c = ag_settings A; F = ag_files A; manage = as_manage_user_data_permissions c in
      case as_save_data_root c of
        None \<Rightarrow> raiseE (AgentValue ''persistent saves are not configured'')
      | Some save_root \<Rightarrow>
          bindE (f_resolve F save_root) (\<lambda>root.
          bindE (f_resolve F (as_rom_root c)) (\<lambda>rom_root.
          if root = rom_root \<or> is_relative_to root rom_root \<or> is_relative_to rom_root root
          then raiseE (AgentValue ''save-data root must not overlap the read-only ROM root'')
          else let directory = root @ [ustring_of save_key] in
          bindE (f_mkdir F directory (if manage then 448 else 493)) (\<lambda>_.
          bindE (f_resolve F (at_root directory)) (\<lambda>resolved.
          if \<not> is_relative_to resolved root
          then raiseE (AgentValue ''generated save-data path escaped the approved root'')
          else bindE (if manage
                      then bindE (f_chmod F resolved 448) (\<lambda>_. assign_runtime_owner A resolved)
                      else f_chmod F resolved 511) (\<lambda>_.
          returnE resolved))))))"

definition require_available_persistence :: "'s agent \<Rightarrow> string \<Rightarrow> (agent_exn, 's, unit) prog" where
  "require_available_persistence A save_key =
     bindE (e_list (ag_engine A)) (\<lambda>summaries.
     if list_ex (\<lambda>c. map_of (cn_labels c) save_key_label = Some save_key) summaries
     then raiseE (AgentConflict ''persistent save is already mounted by another runtime'')
     else returnE ())"

definition docker_path :: "ustring \<Rightarrow> path \<Rightarrow> ustring" where
  "docker_path root relative =
     (if 92 \<in> set root \<or> fst (windows_parse root) \<noteq> [] then windows_join root relative
      else posix_join root relative)"

section \<open>The runtime specification\<close>

definition container_rom :: "'s agent \<Rightarrow> ustring \<Rightarrow> ustring" where
  "container_rom A suffix = ustring_of ''/run/roms/game'' @ ag_lower A suffix"

definition runtime_spec :: "'s agent \<Rightarrow> create_request \<Rightarrow> json" where
  "runtime_spec A q =
     JObj [(''schema_version'', JInt 1),
       (''session_id'', JStr (uuid_str (q_session_id q))),
       (''participant_id'', JStr (uuid_str (q_participant_id q))),
       (''user_id'', JStr (q_user_id q)),
       (''player_name'', JText (q_player_name q)),
       (''game'', JObj [
          (''canonical_path'', JText (container_rom A (path_suffix (pp_parts (pure_path_of (q_rom_path q)))))),
          (''expected_sha256'', JStr (q_rom_sha256 q))]),
       (''emulator'', JObj [(''core_profile'', JStr (q_core_profile q))]),
       (''netplay'', netplay_json (q_netplay q)),
       (''stream'', JObj [(''subfolder'', JStr (q_stream_subfolder q)), (''display_profile'', JStr ''hd-720p60'')]),
       (''persistence'', JObj [(''save_mode'', JStr
          (if as_save_data_root (ag_settings A) \<noteq> None \<and> nr_role (q_netplay q) = NetHost
           then ''host-authoritative'' else ''ephemeral''))])]"

definition write_runtime_spec :: "'s agent \<Rightarrow> create_request \<Rightarrow> path \<Rightarrow> (agent_exn, 's, unit) prog" where
  "write_runtime_spec A q directory =
     (let c = ag_settings A; F = ag_files A;
          preprovisioned = as_preprovisioned_user_data c; manage = as_manage_user_data_permissions c;
          destination = directory @ [ustring_of ''runtime-spec.json''];
          temporary = directory @ [ustring_of ''.runtime-spec.json.tmp''] in
      bindE (f_write F JsonLine temporary (runtime_spec A q)) (\<lambda>_.
      bindE (f_replace F temporary destination) (\<lambda>_.
      bindE (unlessE preprovisioned (f_chmod F destination (if manage then 384 else 420))) (\<lambda>_.
      unlessE (preprovisioned \<or> \<not> manage) (assign_runtime_owner A destination)))))"

section \<open>The container\<close>

definition webrtc_environment :: "'s agent \<Rightarrow> create_request \<Rightarrow> agent_exn + ustring list" where
  "webrtc_environment A q =
     (let c = ag_settings A in
      if as_selkies_mode c \<noteq> Webrtc then Inr []
      else case (as_turn_rest_uri c, as_turn_rest_api_key c, as_stun_host c) of
        (Some uri, Some key, Some stun) \<Rightarrow> Inr (map ustring_of
          [''SELKIES_TURN_REST_URI='' @ uri,
           ''SELKIES_TURN_REST_API_KEY='' @ key,
           ''SELKIES_TURN_REST_USERNAME='' @ as_turn_rest_username c @ ''-'' @ uuid_hex (q_participant_id q),
           ''SELKIES_TURN_PROTOCOL='' @ (case as_turn_protocol c of Udp \<Rightarrow> ''udp'' | Tcp \<Rightarrow> ''tcp''),
           ''SELKIES_TURN_TLS='' @ (if as_turn_tls c then ''true'' else ''false''),
           ''SELKIES_STUN_HOST='' @ stun,
           ''SELKIES_STUN_PORT='' @ str_of_int (as_stun_port c),
           ''SELKIES_ENABLE_WEBRTC_STATISTICS=true'',
           ''SELKIES_WEBRTC_STATISTICS_DIR=/tmp''])
      | _ \<Rightarrow> Inl (AgentValue ''WebRTC configuration is incomplete''))"

definition environment :: "'s agent \<Rightarrow> create_request \<Rightarrow> agent_exn + ustring list" where
  "environment A q =
     (let c = ag_settings A;
          fixed = map ustring_of
            [''START_LXQT=false'',
             ''SELKIES_ALLOWED_ORIGINS='' @ as_allowed_origins c,
             ''SELKIES_ENABLE_HTTPS=false'',
             ''SELKIES_ENABLE_BASIC_AUTH=false'',
             ''SELKIES_MODE='' @ (case as_selkies_mode c of Websockets \<Rightarrow> ''websockets'' | Webrtc \<Rightarrow> ''webrtc''),
             ''SELKIES_ENABLE_DUAL_MODE=false'',
             ''SELKIES_ENCODER=h264enc'',
             ''SELKIES_USE_CPU='' @ (case q_gpu_profile q of Gpu_cpu \<Rightarrow> ''true'' | Gpu_nvidia \<Rightarrow> ''false''),
             ''SELKIES_AUTO_GPU=false'',
             ''SELKIES_FRAMERATE=60-60'',
             ''SELKIES_MANUAL_RESOLUTION=true'',
             ''SELKIES_MANUAL_WIDTH=1280'',
             ''SELKIES_MANUAL_HEIGHT=720'',
             ''SELKIES_ENABLE_RESIZE=false'',
             ''SELKIES_USE_CSS_SCALING=true|locked'',
             ''SELKIES_SECOND_SCREEN=false'',
             ''SELKIES_AUDIO_ENABLED=true'',
             ''SELKIES_MICROPHONE_ENABLED=false'',
             ''SELKIES_GAMEPAD_ENABLED=true'',
             ''SELKIES_UINPUT_GAMEPAD=false'',
             ''SELKIES_WEBCAM_ENABLED=false'',
             ''SELKIES_WEBCAM_DEVICE=false'',
             ''SELKIES_WEBCAM_PIPEWIRE=false'',
             ''SELKIES_ENABLE_CLIPBOARD=false'',
             ''SELKIES_ENABLE_BINARY_CLIPBOARD=false'',
             ''SELKIES_COMMAND_ENABLED=false'',
             ''SELKIES_FILE_TRANSFERS=none'',
             ''SELKIES_ENABLE_SHARING=false'',
             ''SELKIES_ENABLE_COLLAB=false'',
             ''SELKIES_UI_SIDEBAR_SHOW_CLIPBOARD=false'',
             ''SELKIES_UI_SIDEBAR_SHOW_FILES=false'',
             ''SELKIES_UI_SIDEBAR_SHOW_SHARING=false'',
             ''SELKIES_UI_SIDEBAR_SHOW_WEBCAM=false'',
             ''SELKIES_ENABLE_INTERNAL_TURN=false''];
          scoped = [ustring_of ''SELKIES_MASTER_TOKEN='' @ q_master_token q,
                    ustring_of (''SELKIES_SUBFOLDER='' @ q_stream_subfolder q)];
          metrics = (if as_metrics_target_root c \<noteq> None
                     then map ustring_of [''SELKIES_ENABLE_METRICS_HTTP=true'',
                            ''RETROBROWSER_METRICS_TOKEN='' @ metrics_token A q]
                     else [])
      in case webrtc_environment A q of
           Inl e \<Rightarrow> Inl e | Inr webrtc \<Rightarrow> Inr (fixed @ scoped @ metrics @ webrtc))"

definition labels :: "create_request \<Rightarrow> string \<Rightarrow> string option \<Rightarrow> (string \<times> string) list" where
  "labels q fp save_key =
     [(managed_label, ''true''),
      (participant_label, uuid_str (q_participant_id q)),
      (session_label, uuid_str (q_session_id q)),
      (fingerprint_label, fp),
      (subfolder_label, q_stream_subfolder q)] @
     (case save_key of None \<Rightarrow> [] | Some k \<Rightarrow> [(save_key_label, k)])"

definition bind_mount :: "ustring \<Rightarrow> ustring \<Rightarrow> bool \<Rightarrow> json" where
  "bind_mount source target read_only =
     JObj [(''Type'', JStr ''bind''), (''Source'', JText source), (''Target'', JText target),
       (''ReadOnly'', JBool read_only)]"

text \<open>\<open>netplay_probe\<close> and \<open>health_command\<close>.\<close>

definition quoted :: "string \<Rightarrow> string" where
  "quoted s = [CHR 0x27] @ s @ [CHR 0x27]"

definition port_hex :: "int \<Rightarrow> string" where
  "port_hex p = map (\<lambda>c. if is_lower_ascii c then char_of ((of_char c :: nat) - 32) else c) (hex_of_nat 4 (nat p))"

definition netplay_probe :: "netplay_request \<Rightarrow> string" where
  "netplay_probe n =
     ''import pathlib,sys;'' @
     ''p='' @ quoted (port_hex (nr_port n)) @ '';s='' @ quoted (if nr_role n = NetHost then ''0A'' else ''01'') @ '';'' @
     ''rows=sum((pathlib.Path(f'' @ quoted ''/proc/net/{n}'' @ '').read_text().splitlines()[1:] '' @
     ''for n in ('' @ quoted ''tcp'' @ '','' @ quoted ''tcp6'' @ '')),[]);'' @
     ''sys.exit(0 if any((c:=r.split())['' @ (if nr_role n = NetHost then ''1'' else ''2'') @
     ''].endswith('' @ quoted '':'' @ ''+p) '' @
     ''and c[3]==s for r in rows) else 1)''"

definition health_command :: "create_request \<Rightarrow> string" where
  "health_command q =
     ''pgrep -x retroarch >/dev/null && python3 -c '' @ [CHR 0x22] @ ''import urllib.request; '' @
     ''urllib.request.urlopen('' @
     quoted (''http://127.0.0.1:8080'' @ q_stream_subfolder q @ ''/api/health'') @ '', timeout=2)'' @
     [CHR 0x22] @ '' && python3 -c '' @ [CHR 0x22] @ netplay_probe (q_netplay q) @ [CHR 0x22]"

definition host_config :: "agent_settings \<Rightarrow> create_request \<Rightarrow> json list \<Rightarrow> json" where
  "host_config c q mounts =
     JObj ([(''Mounts'', JList mounts),
        (''NetworkMode'', JStr (q_stream_network q)),
        (''Memory'', JInt (as_memory_bytes c)),
        (''NanoCpus'', JInt (as_nano_cpus c)),
        (''PidsLimit'', JInt (as_pids_limit c)),
        (''ShmSize'', JInt (2 * 1024 ^ 3)),
        (''Init'', JBool True),
        (''CapDrop'', JList [JStr ''ALL'']),
        (''SecurityOpt'', JList [JStr ''no-new-privileges:true'']),
        (''Privileged'', JBool False)] @
       (case q_gpu_profile q of
          Gpu_cpu \<Rightarrow> []
        | Gpu_nvidia \<Rightarrow> [(''DeviceRequests'', JList [JObj [(''Driver'', JStr ''nvidia''), (''Count'', JInt (-1)),
            (''Capabilities'', JList [JList [JStr ''gpu'', JStr ''utility'', JStr ''video'']]),
            (''Options'', JObj [])]])]))"

definition container_payload ::
  "agent_settings \<Rightarrow> create_request \<Rightarrow> ustring list \<Rightarrow> (string \<times> string) list \<Rightarrow> json list \<Rightarrow> json" where
  "container_payload c q env lbls mounts =
     JObj [(''Image'', JStr (q_image q)),
       (''Env'', JList (map JText env)),
       (''Labels'', JObj (map (\<lambda>(k, v). (k, JStr v)) lbls)),
       (''ExposedPorts'', JObj (if nr_port (q_netplay q) = 8080 then [(''8080/tcp'', JObj [])]
          else [(''8080/tcp'', JObj []), (str_of_int (nr_port (q_netplay q)) @ ''/tcp'', JObj [])])),
       (''Healthcheck'', JObj [(''Test'', JList [JStr ''CMD-SHELL'', JStr (health_command q)]),
          (''Interval'', JInt 5000000000), (''Timeout'', JInt 3000000000), (''Retries'', JInt 3),
          (''StartPeriod'', JInt 45000000000)]),
       (''HostConfig'', host_config c q mounts),
       (''NetworkingConfig'', JObj [(''EndpointsConfig'',
          JObj [(q_stream_network q, JObj []), (q_netplay_network q, JObj [])])])]"

text \<open>\<open>configured or str(root.resolve(strict=True))\<close>.\<close>

definition docker_root ::
  "'s agent \<Rightarrow> ustring option \<Rightarrow> pure_path \<Rightarrow> (agent_exn, 's, ustring) prog" where
  "docker_root A configured root =
     (case configured of
        Some (c # cs) \<Rightarrow> returnE (c # cs)
      | _ \<Rightarrow> bindE (f_resolve (ag_files A) root) (\<lambda>p. returnE (path_text p)))"

definition relative_below :: "'s agent \<Rightarrow> path \<Rightarrow> pure_path \<Rightarrow> (agent_exn, 's, path) prog" where
  "relative_below A p root =
     bindE (f_resolve (ag_files A) root) (\<lambda>r.
     case relative_to p r of
       None \<Rightarrow> raiseE (AgentValue ''path is not in the subpath of the root'')
     | Some rel \<Rightarrow> returnE rel)"

definition save_mount :: "'s agent \<Rightarrow> path option \<Rightarrow> (agent_exn, 's, json list) prog" where
  "save_mount A save_directory =
     (case save_directory of
        None \<Rightarrow> returnE []
      | Some directory \<Rightarrow> (case as_save_data_root (ag_settings A) of
          None \<Rightarrow> raiseE (AgentValue ''persistent saves are not configured'')
        | Some save_root \<Rightarrow>
            bindE (f_resolve (ag_files A) save_root) (\<lambda>resolved.
            case relative_to directory resolved of
              None \<Rightarrow> raiseE (AgentValue ''path is not in the subpath of the root'')
            | Some rel \<Rightarrow>
                let root = (case as_docker_save_data_root (ag_settings A) of
                              Some (c # cs) \<Rightarrow> c # cs | _ \<Rightarrow> path_text resolved)
                in returnE [bind_mount (docker_path root rel) (ustring_of ''/run/retro-saves'') False])))"

definition payload ::
  "'s agent \<Rightarrow> create_request \<Rightarrow> path \<Rightarrow> path \<Rightarrow> string \<Rightarrow> path option \<Rightarrow> string option \<Rightarrow>
   (agent_exn, 's, json) prog" where
  "payload A q rom directory fp save_directory save_key =
     (let c = ag_settings A in
      bindE (relative_below A rom (as_rom_root c)) (\<lambda>rom_relative.
      bindE (relative_below A directory (as_user_data_root c)) (\<lambda>data_relative.
      bindE (docker_root A (as_docker_rom_root c) (as_rom_root c)) (\<lambda>rom_root.
      bindE (docker_root A (as_docker_user_data_root c) (as_user_data_root c)) (\<lambda>data_root.
      bindE (save_mount A save_directory) (\<lambda>saves.
      bindE (resultE (environment A q)) (\<lambda>env.
      returnE (container_payload c q env (labels q fp save_key)
        ([bind_mount (docker_path rom_root rom_relative) (container_rom A (path_suffix rom)) True,
          bind_mount (docker_path data_root data_relative) (ustring_of ''/run/retro-session'') False] @ saves)))))))))"

section \<open>Operations\<close>

definition require_owned :: "container_record \<Rightarrow> uuid \<Rightarrow> agent_exn + unit" where
  "require_owned c u =
     (if map_of (cn_labels c) managed_label \<noteq> Some ''true''
      then Inl (AgentOwnership ''container is not owned by Runtime Agent'')
      else if map_of (cn_labels c) participant_label \<noteq> Some (uuid_str u)
      then Inl (AgentOwnership ''container ownership labels do not match the runtime ID'')
      else Inr ())"

definition record_of :: "'s agent \<Rightarrow> container_record \<Rightarrow> uuid \<Rightarrow> (agent_exn, 's, runtime_record) prog" where
  "record_of A c u =
     bindE (route_exists (ag_files A) (route_root A) u) (\<lambda>routed.
     returnE \<lparr>rt_participant_id = u, rt_container_id = cn_container_id c, rt_container_name = cn_name c,
       rt_state = cn_state c, rt_health = cn_health c,
       rt_stream_subfolder = (case map_of (cn_labels c) subfolder_label of None \<Rightarrow> [] | Some x \<Rightarrow> x),
       rt_orphaned = (\<not> routed)\<rparr>)"

definition list_managed_runtimes :: "'s agent \<Rightarrow> (agent_exn, 's, runtime_record list) prog" where
  "list_managed_runtimes A =
     bindE (e_list (ag_engine A)) (\<lambda>summaries.
     foldE (\<lambda>summary records.
        case uuid_of_str (case map_of (cn_labels summary) participant_label of None \<Rightarrow> [] | Some v \<Rightarrow> v) of
          None \<Rightarrow> returnE records
        | Some u \<Rightarrow>
            bindE (e_inspect (ag_engine A) (cn_container_id summary)) (\<lambda>c.
            bindE (resultE (require_owned c u)) (\<lambda>_.
            bindE (record_of A c u) (\<lambda>r. returnE (records @ [r]))))) summaries [])"

text \<open>A container that already exists under the runtime's name: the same request gets its record.\<close>

definition reuse_runtime ::
  "'s agent \<Rightarrow> create_request \<Rightarrow> container_record \<Rightarrow> agent_exn \<Rightarrow> (agent_exn, 's, runtime_record) prog" where
  "reuse_runtime A q existing conflict =
     bindE (resultE (require_owned existing (q_participant_id q))) (\<lambda>_.
     if map_of (cn_labels existing) fingerprint_label \<noteq> Some (fingerprint A q) then raiseE conflict
     else record_of A existing (q_participant_id q))"

text \<open>The exception handler around starting and publishing.\<close>

definition abandon_runtime :: "'s agent \<Rightarrow> uuid \<Rightarrow> string \<Rightarrow> agent_exn \<Rightarrow> (agent_exn, 's, unit) prog" where
  "abandon_runtime A u cid e =
     bindE (metrics_remove (ag_files A) (metrics_root A) u) (\<lambda>_.
     bindE (catchE (route_remove (ag_files A) (route_root A) u)
              (\<lambda>x. if is_os_error x then returnE () else raiseE x)) (\<lambda>_.
     bindE (catchE (e_stop (ag_engine A) cid) (\<lambda>x. if is_agent_error x then returnE () else raiseE x)) (\<lambda>_.
     bindE (catchE (e_remove (ag_engine A) cid) (\<lambda>x. if is_agent_error x then returnE () else raiseE x)) (\<lambda>_.
     raiseE e))))"

definition start_runtime :: "'s agent \<Rightarrow> create_request \<Rightarrow> string \<Rightarrow> (agent_exn, 's, unit) prog" where
  "start_runtime A q cid =
     (let u = q_participant_id q; name = runtime_name u in
      bindE (e_start (ag_engine A) cid) (\<lambda>_.
      bindE (route_publish (ag_files A) (route_root A) (as_route_host (ag_settings A)) u
               (q_stream_subfolder q) name) (\<lambda>_.
      metrics_publish (ag_files A) (metrics_root A) u (q_session_id q) (q_core_profile q) name
        (metrics_token A q))))"

definition prepare_saves :: "'s agent \<Rightarrow> string option \<Rightarrow> (agent_exn, 's, path option) prog" where
  "prepare_saves A save_key =
     (case save_key of
        None \<Rightarrow> returnE None
      | Some k \<Rightarrow> bindE (require_available_persistence A k) (\<lambda>_.
                  bindE (persistence_directory A k) (\<lambda>d. returnE (Some d))))"

definition start_guarded :: "'s agent \<Rightarrow> create_request \<Rightarrow> string \<Rightarrow> (agent_exn, 's, unit) prog" where
  "start_guarded A q cid = catchE (start_runtime A q cid) (abandon_runtime A (q_participant_id q) cid)"

text \<open>The tail of \<open>_create_runtime\<close>: start the new container, then report it.\<close>

definition launch_runtime :: "'s agent \<Rightarrow> create_request \<Rightarrow> string \<Rightarrow> (agent_exn, 's, runtime_record) prog" where
  "launch_runtime A q cid =
     bindE (start_guarded A q cid) (\<lambda>_.
     bindE (e_inspect (ag_engine A) cid) (\<lambda>x.
     record_of A x (q_participant_id q)))"

text \<open>The creation call; a conflict means that somebody else created the container meanwhile.\<close>

definition create_container :: "'s agent \<Rightarrow> create_request \<Rightarrow> json \<Rightarrow> (agent_exn, 's, runtime_record) prog" where
  "create_container A q doc =
     (let E = ag_engine A; name = runtime_name (q_participant_id q) in
      bindE (catchE (bindE (e_create E name doc) (\<lambda>cid. returnE (Inr cid)))
               (\<lambda>e. if is_conflict e
                    then bindE (e_inspect E name) (\<lambda>x. bindE (reuse_runtime A q x e) (\<lambda>r. returnE (Inl r)))
                    else raiseE e)) (\<lambda>outcome.
      case outcome of Inl r \<Rightarrow> returnE r | Inr cid \<Rightarrow> launch_runtime A q cid))"

definition save_key_of :: "'s agent \<Rightarrow> create_request \<Rightarrow> string option" where
  "save_key_of A q = (if as_save_data_root (ag_settings A) \<noteq> None then persistence_key A q else None)"

definition build_runtime :: "'s agent \<Rightarrow> create_request \<Rightarrow> path \<Rightarrow> (agent_exn, 's, runtime_record) prog" where
  "build_runtime A q rom =
     bindE (prepare_saves A (save_key_of A q)) (\<lambda>save_directory.
     bindE (runtime_directory A (q_participant_id q)) (\<lambda>directory.
     bindE (write_runtime_spec A q directory) (\<lambda>_.
     bindE (payload A q rom directory (fingerprint A q) save_directory (save_key_of A q)) (\<lambda>doc.
     create_container A q doc))))"

definition create_runtime :: "'s agent \<Rightarrow> create_request \<Rightarrow> (agent_exn, 's, runtime_record) prog" where
  "create_runtime A q =
     bindE (validate_request A q) (\<lambda>rom.
     bindE (catchE (bindE (e_inspect (ag_engine A) (runtime_name (q_participant_id q))) (\<lambda>x. returnE (Some x)))
              (\<lambda>e. if is_not_found e then returnE None else raiseE e)) (\<lambda>existing.
     case existing of
       Some x \<Rightarrow> reuse_runtime A q x (AgentConflict ''runtime ID already exists with a different request'')
     | None \<Rightarrow>
         bindE (list_managed_runtimes A) (\<lambda>records.
         if int (length records) \<ge> as_max_runtimes (ag_settings A)
         then raiseE (AgentConflict ''runtime capacity is exhausted'')
         else build_runtime A q rom)))"

definition inspect_runtime :: "'s agent \<Rightarrow> uuid \<Rightarrow> (agent_exn, 's, runtime_record) prog" where
  "inspect_runtime A u =
     bindE (e_inspect (ag_engine A) (runtime_name u)) (\<lambda>c.
     bindE (resultE (require_owned c u)) (\<lambda>_.
     record_of A c u))"

definition stop_runtime :: "'s agent \<Rightarrow> uuid \<Rightarrow> (agent_exn, 's, runtime_record) prog" where
  "stop_runtime A u =
     bindE (e_inspect (ag_engine A) (runtime_name u)) (\<lambda>c.
     bindE (resultE (require_owned c u)) (\<lambda>_.
     bindE (e_stop (ag_engine A) (cn_container_id c)) (\<lambda>_.
     bindE (e_inspect (ag_engine A) (cn_container_id c)) (\<lambda>d.
     record_of A d u))))"

text \<open>Removing the route, then the metrics target of a participant.\<close>

definition withdraw :: "'s agent \<Rightarrow> uuid \<Rightarrow> (agent_exn, 's, unit) prog" where
  "withdraw A u =
     bindE (route_remove (ag_files A) (route_root A) u) (\<lambda>_. metrics_remove (ag_files A) (metrics_root A) u)"

definition remove_runtime :: "'s agent \<Rightarrow> uuid \<Rightarrow> (agent_exn, 's, unit) prog" where
  "remove_runtime A u =
     bindE (catchE (e_inspect (ag_engine A) (runtime_name u))
              (\<lambda>e. if is_not_found e then bindE (withdraw A u) (\<lambda>_. raiseE e) else raiseE e)) (\<lambda>c.
     bindE (resultE (require_owned c u)) (\<lambda>_.
     bindE (if cn_state c = ''running'' then e_stop (ag_engine A) (cn_container_id c) else returnE ()) (\<lambda>_.
     bindE (e_remove (ag_engine A) (cn_container_id c)) (\<lambda>_.
     withdraw A u))))"

definition reconcile_routes :: "'s agent \<Rightarrow> (agent_exn, 's, int) prog" where
  "reconcile_routes A =
     bindE (list_managed_runtimes A) (\<lambda>records.
     let managed = set (map rt_participant_id records) in
     bindE (route_participants (ag_files A) (route_root A)) (\<lambda>routed.
     let orphaned = filter (\<lambda>u. u \<notin> managed) routed in
     bindE (forE (route_remove (ag_files A) (route_root A)) orphaned) (\<lambda>_.
     bindE (metrics_participants (ag_files A) (metrics_root A)) (\<lambda>targets.
     let orphaned_targets = filter (\<lambda>u. u \<notin> managed) targets in
     bindE (forE (metrics_remove (ag_files A) (metrics_root A)) orphaned_targets) (\<lambda>_.
     returnE (int (length (remdups (orphaned @ orphaned_targets)))))))))"

definition agent_capacity_of :: "'s agent \<Rightarrow> (agent_exn, 's, agent_capacity) prog" where
  "agent_capacity_of A =
     bindE (list_managed_runtimes A) (\<lambda>records.
     let used = int (length records); maximum = as_max_runtimes (ag_settings A) in
     resultE (make_agent_capacity \<lparr>ac_maximum = maximum, ac_used = used, ac_available = max 0 (maximum - used)\<rparr>))"

definition agent_health :: "'s agent \<Rightarrow> (agent_exn, 's, bool) prog" where
  "agent_health A = e_ping (ag_engine A)"

end
