(* ===== verification/AgentHost.thy ===== *)
theory AgentHost
  imports AgentService
begin

text \<open>
  What the Runtime Agent relies on of its host, as a locale: the laws of the container engine
  (names are unique, a creation adds one container with the labels it was asked for, only a
  removal removes one) and of the file system. Proved in it: what every operation does to
  the containers and to the discovery files, whichever calls fail.

  The observable part of a container is its name and its labels; state and health may change at
  any moment.
\<close>

type_synonym containers = "string \<rightharpoonup> string \<times> (string \<rightharpoonup> string)"

definition label_entry :: "string \<times> json \<Rightarrow> (string \<times> string) option" where
  "label_entry e = (case e of (k, JStr v) \<Rightarrow> Some (k, v) | _ \<Rightarrow> None)"

definition label_list :: "json \<Rightarrow> (string \<times> string) list" where
  "label_list p =
     (case json_get p ''Labels'' of Some (JObj kvs) \<Rightarrow> List.map_filter label_entry kvs | _ \<Rightarrow> [])"

definition payload_labels :: "json \<Rightarrow> string \<rightharpoonup> string" where
  "payload_labels p = map_of (label_list p)"

definition is_managed :: "(string \<rightharpoonup> string) \<Rightarrow> bool" where
  "is_managed l \<longleftrightarrow> l managed_label = Some ''true''"

definition name_free :: "string \<Rightarrow> containers \<Rightarrow> bool" where
  "name_free n m \<longleftrightarrow> (\<forall>i l. m i \<noteq> Some (n, l))"

locale runtime_host = file_store "ag_files A" disk
  for A :: "'s agent" and disk :: "'s \<Rightarrow> path \<rightharpoonup> json" +
  fixes table :: "'s \<Rightarrow> containers"
  assumes names_unique: "table s i = Some (n, l) \<Longrightarrow> table s j = Some (n, l') \<Longrightarrow> i = j"
    and finite_table: "finite (dom (table s))"
    and ids_hexadecimal: "table s i \<noteq> None \<Longrightarrow> list_all is_hex_lower i"
    and inspect_law:
    "wp (e_inspect (ag_engine A) k)
       (\<lambda>c t. disk t = disk s \<and> table t = table s \<and>
          table s (cn_container_id c) = Some (cn_name c, map_of (cn_labels c)) \<and>
          (cn_container_id c = k \<or> cn_name c = k \<and> table s k = None))
       (\<lambda>e t. disk t = disk s \<and> table t = table s \<and>
          (is_not_found e \<longrightarrow> table s k = None \<and> name_free k (table s))) s"
    and containers_law:
    "wp (e_list (ag_engine A))
       (\<lambda>cs t. disk t = disk s \<and> table t = table s \<and> distinct (map cn_container_id cs) \<and>
          (\<lambda>c. (cn_container_id c, cn_name c, map_of (cn_labels c))) ` set cs =
          {(i, n, l). table s i = Some (n, l) \<and> is_managed l})
       (\<lambda>_ t. disk t = disk s \<and> table t = table s) s"
    and create_law:
    "wp (e_create (ag_engine A) n doc)
       (\<lambda>i t. disk t = disk s \<and> table s i = None \<and> name_free n (table s) \<and>
          table t = (table s)(i \<mapsto> (n, payload_labels doc)))
       (\<lambda>_ t. disk t = disk s \<and> (table t = table s \<or>
          (\<exists>i. table s i = None \<and> name_free n (table s) \<and> table t = (table s)(i \<mapsto> (n, payload_labels doc))))) s"
    and remove_law:
    "table s i \<noteq> None \<Longrightarrow> wp (e_remove (ag_engine A) i)
       (\<lambda>_ t. disk t = disk s \<and> table t = (table s)(i := None))
       (\<lambda>_ t. disk t = disk s \<and> (table t = table s \<or> table t = (table s)(i := None))) s"
    and start_keeps: "leaves (\<lambda>s. (disk s, table s)) (e_start (ag_engine A) i)"
    and stop_keeps: "leaves (\<lambda>s. (disk s, table s)) (e_stop (ag_engine A) i)"
    and ping_keeps: "leaves (\<lambda>s. (disk s, table s)) (e_ping (ag_engine A))"
    and files_keep:
    "leaves table (f_resolve (ag_files A) pp)" "leaves table (f_is_file (ag_files A) p)"
    "leaves table (f_is_dir (ag_files A) p)" "leaves table (f_mkdir (ag_files A) p mode)"
    "leaves table (f_chmod (ag_files A) p mode)" "leaves table (f_chown (ag_files A) p uid gid)"
    "leaves table (f_write (ag_files A) fmt p d)" "leaves table (f_replace (ag_files A) p q)"
    "leaves table (f_unlink (ag_files A) p)" "leaves table (f_listdir (ag_files A) p)"
    "leaves table (f_sha256 (ag_files A) p)"

section \<open>Programs that leave a view alone\<close>

named_theorems leaves_intros \<open>rules for programs that leave a view of the state alone\<close>

lemma leavesI:
  assumes "\<And>s. wp f (\<lambda>_ t. view t = view s) (\<lambda>_ t. view t = view s) s"
  shows "leaves view f"
  unfolding leaves_def
proof
  fix s
  show "view (snd (f s)) = view s"
    using assms [of s] by (cases "f s") (auto simp: wp_def split: sum.splits)
qed

lemma leaves_returnE [leaves_intros]: "leaves v (returnE a)"
  by (simp add: leaves_def returnE_def)

lemma leaves_raiseE [leaves_intros]: "leaves v (raiseE e)"
  by (simp add: leaves_def raiseE_def)

lemma leaves_resultE [leaves_intros]: "leaves v (resultE r)"
  by (simp add: leaves_def resultE_def)

lemma leaves_bindE [leaves_intros]: "leaves v f \<Longrightarrow> (\<And>a. leaves v (g a)) \<Longrightarrow> leaves v (bindE f g)"
  by (auto simp: leaves_def bindE_def split: prod.splits sum.splits) (metis snd_conv)+

lemma leaves_catchE [leaves_intros]: "leaves v f \<Longrightarrow> (\<And>e. leaves v (h e)) \<Longrightarrow> leaves v (catchE f h)"
  by (auto simp: leaves_def catchE_def split: prod.splits sum.splits) (metis snd_conv)+

lemma leaves_if [leaves_intros]: "leaves v f \<Longrightarrow> leaves v g \<Longrightarrow> leaves v (if b then f else g)"
  by simp

lemma leaves_case_option [leaves_intros]:
  "leaves v f \<Longrightarrow> (\<And>x. leaves v (g x)) \<Longrightarrow> leaves v (case y of None \<Rightarrow> f | Some x \<Rightarrow> g x)"
  by (cases y) simp_all

lemma leaves_unlessE [leaves_intros]: "leaves v f \<Longrightarrow> leaves v (unlessE b f)"
  by (simp add: unlessE_def leaves_returnE)

lemma leaves_foldE [leaves_intros]: "(\<And>x b. leaves v (f x b)) \<Longrightarrow> leaves v (foldE f xs b)"
  by (induction xs arbitrary: b) (auto intro: leaves_intros)

lemma leaves_forE [leaves_intros]: "(\<And>x. leaves v (f x)) \<Longrightarrow> leaves v (forE f xs)"
  by (induction xs) (auto intro: leaves_intros)

lemma leaves_pair: "leaves v f \<Longrightarrow> leaves w f \<Longrightarrow> leaves (\<lambda>s. (v s, w s)) f"
  by (simp add: leaves_def)

lemma leaves_fst: "leaves (\<lambda>s. (v s, w s)) f \<Longrightarrow> leaves v f"
  by (simp add: leaves_def)

lemma leaves_snd: "leaves (\<lambda>s. (v s, w s)) f \<Longrightarrow> leaves w f"
  by (simp add: leaves_def)

lemma wp_bind_leaves:
  assumes "leaves v f" and "\<And>a t. v t = v s \<Longrightarrow> wp (g a) Q E t" and "\<And>e t. v t = v s \<Longrightarrow> E e t"
  shows "wp (bindE f g) Q E s"
  unfolding wp_bindE by (rule wp_leaves [OF assms])

section \<open>Reading the host\<close>

text \<open>The managed containers that carry a well-formed participant id.\<close>

definition runtime_of :: "(string \<rightharpoonup> string) \<Rightarrow> uuid option" where
  "runtime_of l = uuid_of_str (case l participant_label of None \<Rightarrow> [] | Some v \<Rightarrow> v)"

definition runtimes :: "containers \<Rightarrow> string set" where
  "runtimes m = {i. \<exists>n l. m i = Some (n, l) \<and> is_managed l \<and> runtime_of l \<noteq> None}"

definition owned :: "uuid \<Rightarrow> (string \<rightharpoonup> string) \<Rightarrow> bool" where
  "owned u l \<longleftrightarrow> is_managed l \<and> l participant_label = Some (uuid_str u)"

lemma require_owned_iff: "require_owned c u = Inr () \<longleftrightarrow> owned u (map_of (cn_labels c))"
  by (auto simp: require_owned_def owned_def is_managed_def)

context runtime_host
begin

lemma is_file_keeps: "leaves disk (f_is_file (ag_files A) p)"
  by (rule leavesI, rule wp_mono [OF is_file_law]) simp_all

lemma listdir_keeps: "leaves disk (f_listdir (ag_files A) p)"
  by (rule leavesI, rule wp_mono [OF list_law]) simp_all

lemma inspect_keeps: "leaves disk (e_inspect (ag_engine A) k)" "leaves table (e_inspect (ag_engine A) k)"
  by (rule leavesI, rule wp_mono [OF inspect_law], simp_all)+

lemma containers_keep: "leaves disk (e_list (ag_engine A))" "leaves table (e_list (ag_engine A))"
  by (rule leavesI, rule wp_mono [OF containers_law], simp_all)+

lemmas reads_disk = resolve_keeps is_file_keeps is_dir_keeps mkdir_keeps chmod_keeps chown_keeps
  sha256_keeps listdir_keeps inspect_keeps(1) containers_keep(1)
  start_keeps [THEN leaves_fst] stop_keeps [THEN leaves_fst] ping_keeps [THEN leaves_fst]

lemmas keeps_table = files_keep inspect_keeps(2) containers_keep(2)
  start_keeps [THEN leaves_snd] stop_keeps [THEN leaves_snd] ping_keeps [THEN leaves_snd]

lemma record_keeps: "leaves disk (record_of A c u)" "leaves table (record_of A c u)"
  unfolding record_of_def route_exists_def by (intro leaves_intros reads_disk keeps_table)+

lemma list_managed_keeps: "leaves disk (list_managed_runtimes A)" "leaves table (list_managed_runtimes A)"
  unfolding list_managed_runtimes_def
  by (intro leaves_intros reads_disk keeps_table record_keeps)+

lemma validate_keeps: "leaves disk (validate_request A q)" "leaves table (validate_request A q)"
  unfolding validate_request_def resolve_existing_file_beneath_def Let_def
  by (intro leaves_intros reads_disk keeps_table)+

lemma require_persistence_keeps:
  "leaves disk (require_available_persistence A k)" "leaves table (require_available_persistence A k)"
  unfolding require_available_persistence_def by (intro leaves_intros reads_disk keeps_table)+

lemma persistence_directory_keeps:
  "leaves disk (persistence_directory A k)" "leaves table (persistence_directory A k)"
  unfolding persistence_directory_def assign_runtime_owner_def Let_def
  by (intro leaves_intros reads_disk keeps_table)+

lemma runtime_directory_keeps: "leaves disk (runtime_directory A u)" "leaves table (runtime_directory A u)"
  unfolding runtime_directory_def assign_runtime_owner_def Let_def
  by (intro leaves_intros reads_disk keeps_table)+

lemma write_spec_keeps: "leaves table (write_runtime_spec A q d)"
  unfolding write_runtime_spec_def assign_runtime_owner_def Let_def
  by (intro leaves_intros keeps_table)

lemma docker_root_keeps: "leaves disk (docker_root A c p)" "leaves table (docker_root A c p)"
  unfolding docker_root_def
  by (cases c; simp split: list.splits; intro conjI allI impI leaves_intros reads_disk keeps_table)+

lemma payload_keeps: "leaves disk (payload A q rom dir fp sd sk)" "leaves table (payload A q rom dir fp sd sk)"
  unfolding payload_def relative_below_def save_mount_def Let_def
  by (intro leaves_intros reads_disk keeps_table docker_root_keeps)+

lemma withdraw_keeps: "leaves table (withdraw A u)"
  unfolding withdraw_def route_remove_def metrics_remove_def by (intro leaves_intros keeps_table)

lemma start_runtime_keeps: "leaves table (start_runtime A q cid)"
  unfolding start_runtime_def route_publish_def metrics_publish_def Let_def
  by (intro leaves_intros keeps_table)

end

section \<open>Listing\<close>

definition participants :: "containers \<Rightarrow> uuid set" where
  "participants m = {u. \<exists>i n l. m i = Some (n, l) \<and> is_managed l \<and> runtime_of l = Some u}"

lemma map_filter_append [simp]: "List.map_filter f (xs @ ys) = List.map_filter f xs @ List.map_filter f ys"
  by (simp add: List.map_filter_def)

lemma map_filter_one [simp]: "List.map_filter f [x] = (case f x of None \<Rightarrow> [] | Some y \<Rightarrow> [y])"
  by (simp add: List.map_filter_def split: option.splits)

lemma set_map_filter: "set (List.map_filter f xs) = {y. \<exists>x \<in> set xs. f x = Some y}"
  by (force simp: List.map_filter_def)

lemma length_map_filter: "length (List.map_filter f xs) = length (filter (\<lambda>x. f x \<noteq> None) xs)"
  by (induction xs) (auto simp: List.map_filter_def)

context runtime_host
begin

lemma listed_container:
  assumes "(\<lambda>c. (cn_container_id c, cn_name c, map_of (cn_labels c))) ` set cs =
      {(i, n, l). table s i = Some (n, l) \<and> is_managed l}"
  shows "c \<in> set cs \<Longrightarrow> table s (cn_container_id c) = Some (cn_name c, map_of (cn_labels c)) \<and>
      is_managed (map_of (cn_labels c))"
    and "table s i = Some (n, l) \<Longrightarrow> is_managed l \<Longrightarrow>
      \<exists>c \<in> set cs. cn_container_id c = i \<and> cn_name c = n \<and> map_of (cn_labels c) = l"
proof -
  assume "c \<in> set cs"
  then have "(cn_container_id c, cn_name c, map_of (cn_labels c)) \<in> {(i, n, l). table s i = Some (n, l) \<and> is_managed l}"
    unfolding assms [symmetric] by (rule imageI)
  then show "table s (cn_container_id c) = Some (cn_name c, map_of (cn_labels c)) \<and>
      is_managed (map_of (cn_labels c))" by simp
next
  assume "table s i = Some (n, l)" "is_managed l"
  then have "(i, n, l) \<in> (\<lambda>c. (cn_container_id c, cn_name c, map_of (cn_labels c))) ` set cs"
    unfolding assms by simp
  then show "\<exists>c \<in> set cs. cn_container_id c = i \<and> cn_name c = n \<and> map_of (cn_labels c) = l" by auto
qed

lemma listed_counts:
  assumes cs: "(\<lambda>c. (cn_container_id c, cn_name c, map_of (cn_labels c))) ` set cs =
      {(i, n, l). table s i = Some (n, l) \<and> is_managed l}"
    and "distinct (map cn_container_id cs)"
  defines "f \<equiv> (\<lambda>c. runtime_of (map_of (cn_labels c)))"
  shows "length (List.map_filter f cs) = card (runtimes (table s))"
    and "set (List.map_filter f cs) = participants (table s)"
proof -
  let ?p = "\<lambda>c. f c \<noteq> None"
  have "runtimes (table s) = cn_container_id ` set (filter ?p cs)"
  proof (intro set_eqI iffI)
    fix i assume "i \<in> runtimes (table s)"
    then obtain n l where "table s i = Some (n, l)" "is_managed l" "runtime_of l \<noteq> None"
      by (auto simp: runtimes_def)
    with listed_container(2) [OF cs] obtain c
      where "c \<in> set cs" "cn_container_id c = i" "map_of (cn_labels c) = l" by blast
    with \<open>runtime_of l \<noteq> None\<close> show "i \<in> cn_container_id ` set (filter ?p cs)" by (auto simp: f_def)
  next
    fix i assume "i \<in> cn_container_id ` set (filter ?p cs)"
    then obtain c where c: "c \<in> set cs" "f c \<noteq> None" "i = cn_container_id c" by auto
    from listed_container(1) [OF cs c(1)] c(2,3) show "i \<in> runtimes (table s)"
      unfolding runtimes_def f_def by blast
  qed
  moreover have "distinct (map cn_container_id (filter ?p cs))" using assms(2) by (rule distinct_map_filter)
  ultimately show "length (List.map_filter f cs) = card (runtimes (table s))"
    unfolding length_map_filter by (metis distinct_card length_map set_map)
  show "set (List.map_filter f cs) = participants (table s)"
  proof (intro set_eqI iffI)
    fix u assume "u \<in> set (List.map_filter f cs)"
    then obtain c where "c \<in> set cs" "f c = Some u" by (auto simp: set_map_filter)
    with listed_container(1) [OF cs, of c] show "u \<in> participants (table s)"
      unfolding participants_def f_def by blast
  next
    fix u assume "u \<in> participants (table s)"
    then obtain i n l where "table s i = Some (n, l)" "is_managed l" "runtime_of l = Some u"
      by (auto simp: participants_def)
    with listed_container(2) [OF cs] show "u \<in> set (List.map_filter f cs)"
      unfolding set_map_filter f_def by blast
  qed
qed

lemma wp_record_of:
  "wp (record_of A c u)
     (\<lambda>r t. disk t = disk s \<and> table t = table s \<and> rt_participant_id r = u \<and>
        rt_container_id r = cn_container_id c \<and> rt_orphaned r = (disk s (discovery_path (route_root A) ''.yml'' u) = None))
     (\<lambda>_ t. disk t = disk s \<and> table t = table s) s"
proof -
  let ?p = "discovery_path (route_root A) ''.yml'' u"
  have "wp (f_is_file (ag_files A) ?p)
      (\<lambda>b t. (disk t = disk s \<and> (b \<longleftrightarrow> disk s ?p \<noteq> None)) \<and> table t = table s)
      (\<lambda>_ t. disk t = disk s \<and> table t = table s) s"
    by (rule wp_conj [OF is_file_law]) (rule wp_leaves [OF files_keep(2)], simp_all)
  then show ?thesis unfolding record_of_def route_exists_def wp_simps by (rule wp_mono) simp_all
qed

lemma wp_list_managed:
  "wp (list_managed_runtimes A)
     (\<lambda>rs t. disk t = disk s \<and> table t = table s \<and> length rs = card (runtimes (table s)) \<and>
        set (map rt_participant_id rs) = participants (table s))
     (\<lambda>_ t. disk t = disk s \<and> table t = table s) s"
  unfolding list_managed_runtimes_def wp_bindE
proof (rule wp_mono [OF containers_law], elim conjE)
  fix cs t
  let ?f = "\<lambda>c. runtime_of (map_of (cn_labels c))"
  assume same: "disk t = disk s" "table t = table s" and d: "distinct (map cn_container_id cs)"
    and cs: "(\<lambda>c. (cn_container_id c, cn_name c, map_of (cn_labels c))) ` set cs =
      {(i, n, l). table s i = Some (n, l) \<and> is_managed l}"
  let ?I = "\<lambda>ys (rs :: runtime_record list) t. disk t = disk s \<and> table t = table s \<and>
      (\<exists>xs. cs = xs @ ys \<and> map rt_participant_id rs = List.map_filter ?f xs)"
  show "wp (foldE (\<lambda>summary records.
        case uuid_of_str (case map_of (cn_labels summary) participant_label of None \<Rightarrow> [] | Some v \<Rightarrow> v) of
          None \<Rightarrow> returnE records
        | Some u \<Rightarrow> bindE (e_inspect (ag_engine A) (cn_container_id summary)) (\<lambda>c.
            bindE (resultE (require_owned c u)) (\<lambda>_.
            bindE (record_of A c u) (\<lambda>r. returnE (records @ [r]))))) cs [])
      (\<lambda>rs t. disk t = disk s \<and> table t = table s \<and> length rs = card (runtimes (table s)) \<and>
        set (map rt_participant_id rs) = participants (table s))
      (\<lambda>_ t. disk t = disk s \<and> table t = table s) t"
  proof (rule wp_foldE [where I = ?I])
    show "?I cs [] t" using same by (simp add: List.map_filter_def)
  next
    fix rs t assume "?I [] rs t"
    with listed_counts [OF cs d] show "disk t = disk s \<and> table t = table s \<and>
        length rs = card (runtimes (table s)) \<and> set (map rt_participant_id rs) = participants (table s)"
      by (metis append_Nil2 length_map)
  next
    fix c ys rs t assume I: "?I (c # ys) rs t"
    then obtain xs where xs: "cs = xs @ c # ys" "map rt_participant_id rs = List.map_filter ?f xs" by blast
    have split: "cs = (xs @ [c]) @ ys" using xs(1) by simp
    show "wp (case uuid_of_str (case map_of (cn_labels c) participant_label of None \<Rightarrow> [] | Some v \<Rightarrow> v) of
          None \<Rightarrow> returnE rs
        | Some u \<Rightarrow> bindE (e_inspect (ag_engine A) (cn_container_id c)) (\<lambda>x.
            bindE (resultE (require_owned x u)) (\<lambda>_.
            bindE (record_of A x u) (\<lambda>r. returnE (rs @ [r])))))
        (?I ys) (\<lambda>_ t. disk t = disk s \<and> table t = table s) t"
    proof (cases "?f c")
      case None
      with I xs split show ?thesis
        by (auto simp: runtime_of_def wp_simps intro!: exI [of _ "xs @ [c]"])
    next
      case (Some u)
      have next_I: "?I ys (rs @ [r]) t'" if "disk t' = disk s" "table t' = table s" "rt_participant_id r = u" for r t'
        using that xs(2) Some split by (auto intro!: exI [of _ "xs @ [c]"])
      show ?thesis
        using Some I unfolding runtime_of_def
        by (auto simp: wp_simps split: sum.splits
            intro!: wp_mono [OF inspect_law] wp_mono [OF wp_record_of] dest: next_I)
    qed
  qed
qed simp_all

end

end
