(* ===== verification/AgentLifecycle.thy ===== *)
theory AgentLifecycle
  imports AgentHost
begin

text \<open>
  What the Runtime Agent's operations do to the containers of the host: a creation adds at most
  one container, under conditions checked before; every other operation touches only the
  container of the participant it is for.
\<close>

section \<open>The effect of a creation\<close>

definition save_free :: "string \<Rightarrow> containers \<Rightarrow> bool" where
  "save_free k m \<longleftrightarrow> (\<forall>i n l. m i = Some (n, l) \<longrightarrow> is_managed l \<longrightarrow> l save_key_label \<noteq> Some k)"

definition requested_labels :: "'s agent \<Rightarrow> create_request \<Rightarrow> string \<rightharpoonup> string" where
  "requested_labels A q = map_of (labels q (fingerprint A q) (save_key_of A q))"

text \<open>One container more, within capacity and with an unused name and save.\<close>

definition admitted :: "'s agent \<Rightarrow> create_request \<Rightarrow> containers \<Rightarrow> containers \<Rightarrow> bool" where
  "admitted A q m m' \<longleftrightarrow>
     (\<exists>i. m i = None \<and> m' = m(i \<mapsto> (runtime_name (q_participant_id q), requested_labels A q))) \<and>
     name_free (runtime_name (q_participant_id q)) m \<and>
     int (card (runtimes m)) < as_max_runtimes (ag_settings A) \<and>
     (\<forall>k. save_key_of A q = Some k \<longrightarrow> save_free k m)"

definition develops :: "'s agent \<Rightarrow> create_request \<Rightarrow> containers \<Rightarrow> containers \<Rightarrow> bool" where
  "develops A q m m' \<longleftrightarrow> m' = m \<or> admitted A q m m'"

text \<open>The container a record describes: the participant's, created for this very request.\<close>

definition describes :: "'s agent \<Rightarrow> create_request \<Rightarrow> containers \<Rightarrow> runtime_record \<Rightarrow> bool" where
  "describes A q m r \<longleftrightarrow> rt_participant_id r = q_participant_id q \<and>
     (\<exists>l. m (rt_container_id r) = Some (runtime_name (q_participant_id q), l) \<and>
        owned (q_participant_id q) l \<and> l fingerprint_label = Some (fingerprint A q))"

lemmas label_defs = managed_label_def participant_label_def session_label_def fingerprint_label_def
  subfolder_label_def save_key_label_def

lemma requested_labels_simps:
  "owned (q_participant_id q) (requested_labels A q)"
  "requested_labels A q fingerprint_label = Some (fingerprint A q)"
  "requested_labels A q save_key_label = save_key_of A q"
  "runtime_of (requested_labels A q) = Some (q_participant_id q)"
  "is_managed (requested_labels A q)"
  by (auto simp: requested_labels_def labels_def owned_def is_managed_def runtime_of_def label_defs
      uuid_roundtrip(1) split: option.splits)

lemma payload_labels_container [simp]: "payload_labels (container_payload c q env lbls ms) = map_of lbls"
proof -
  have "List.map_filter label_entry (map (\<lambda>(k, v). (k, JStr v)) lbls) = lbls"
    by (induction lbls) (auto simp: List.map_filter_def label_entry_def)
  then show ?thesis by (simp add: payload_labels_def label_list_def container_payload_def)
qed

lemma runtime_name_not_hex: "\<not> list_all is_hex_lower (runtime_name u)"
  by (simp add: runtime_name_def char_class_defs)

lemma payload_returns:
  assumes "payload A q rom dir fp sd sk s = (Inr doc, t)"
  shows "\<exists>env ms. doc = container_payload (ag_settings A) q env (labels q fp sk) ms"
proof -
  have "wp (payload A q rom dir fp sd sk)
      (\<lambda>doc _. \<exists>env ms. doc = container_payload (ag_settings A) q env (labels q fp sk) ms) (\<lambda>_ _. True) s"
    unfolding payload_def Let_def wp_simps
    by (intro wp_I TrueI) (auto intro!: wp_I split: sum.splits)
  from wp_run(1) [OF this assms] show ?thesis .
qed

context runtime_host
begin

lemma wp_inspect_name:
  "wp (e_inspect (ag_engine A) (runtime_name u))
     (\<lambda>c t. disk t = disk s \<and> table t = table s \<and>
        table s (cn_container_id c) = Some (runtime_name u, map_of (cn_labels c)))
     (\<lambda>e t. disk t = disk s \<and> table t = table s \<and> (is_not_found e \<longrightarrow> name_free (runtime_name u) (table s))) s"
proof -
  have "table s (runtime_name u) = None" using ids_hexadecimal runtime_name_not_hex by blast
  then show ?thesis by (intro wp_mono [OF inspect_law]) auto
qed

lemma wp_reuse:
  assumes "table s (cn_container_id x) = Some (runtime_name (q_participant_id q), map_of (cn_labels x))"
  shows "wp (reuse_runtime A q x e) (\<lambda>r t. table t = table s \<and> describes A q (table s) r) (\<lambda>_ t. table t = table s) s"
proof (cases "require_owned x (q_participant_id q)")
  case (Inl y)
  then show ?thesis by (simp add: reuse_runtime_def wp_simps)
next
  case (Inr y)
  then have own: "owned (q_participant_id q) (map_of (cn_labels x))" by (simp add: require_owned_iff)
  show ?thesis
    unfolding reuse_runtime_def wp_simps Inr
    by (auto intro!: wp_mono [OF wp_record_of] simp: describes_def assms own)
qed

lemma wp_require_persistence:
  "wp (require_available_persistence A k) (\<lambda>_ t. table t = table s \<and> save_free k (table s))
     (\<lambda>_ t. table t = table s) s"
  unfolding require_available_persistence_def wp_bindE
proof (rule wp_mono [OF containers_law], elim conjE)
  fix cs t
  assume t: "table t = table s" and cs: "(\<lambda>c. (cn_container_id c, cn_name c, map_of (cn_labels c))) ` set cs =
      {(i, n, l). table s i = Some (n, l) \<and> is_managed l}"
  have "save_free k (table s)" if "\<not> list_ex (\<lambda>c. map_of (cn_labels c) save_key_label = Some k) cs"
    unfolding save_free_def using listed_container(2) [OF cs] that by (auto simp: list_ex_iff)
  with t show "wp (if list_ex (\<lambda>c. map_of (cn_labels c) save_key_label = Some k) cs
      then raiseE (AgentConflict ''persistent save is already mounted by another runtime'') else returnE ())
    (\<lambda>_ t. table t = table s \<and> save_free k (table s)) (\<lambda>_ t. table t = table s) t"
    by (simp add: wp_simps)
qed simp

lemma wp_prepare_saves:
  "wp (prepare_saves A sk) (\<lambda>_ t. table t = table s \<and> (\<forall>k. sk = Some k \<longrightarrow> save_free k (table s)))
     (\<lambda>_ t. table t = table s) s"
proof (cases sk)
  case (Some k)
  show ?thesis
    unfolding prepare_saves_def Some option.case wp_bindE
    by (rule wp_mono [OF wp_require_persistence [of k s]])
      (auto intro!: wp_leaves [OF persistence_directory_keeps(2)] simp: wp_simps)
qed (simp add: prepare_saves_def wp_simps)

lemma wp_abandon:
  assumes "table s cid \<noteq> None"
  shows "wp (abandon_runtime A u cid e) (\<lambda>_ _. False)
    (\<lambda>_ t. table t = table s \<or> table t = (table s)(cid := None)) s"
proof -
  have remove: "wp (catchE (e_remove (ag_engine A) cid) (\<lambda>x. if is_agent_error x then returnE () else raiseE x))
      (\<lambda>_ t. table t = table s \<or> table t = (table s)(cid := None))
      (\<lambda>_ t. table t = table s \<or> table t = (table s)(cid := None)) t" if "table t = table s" for t
    unfolding wp_simps using assms that by (intro wp_mono [OF remove_law]) (auto simp: that)
  have metrics: "leaves table (metrics_remove (ag_files A) (metrics_root A) u)"
    and route: "leaves table (catchE (route_remove (ag_files A) (route_root A) u)
        (\<lambda>x. if is_os_error x then returnE () else raiseE x))"
    and stop: "leaves table (catchE (e_stop (ag_engine A) cid)
        (\<lambda>x. if is_agent_error x then returnE () else raiseE x))"
    unfolding metrics_remove_def route_remove_def by (intro leaves_intros keeps_table)+
  show ?thesis
    unfolding abandon_runtime_def
    by (intro wp_bind_leaves [OF metrics] wp_bind_leaves [OF route] wp_bind_leaves [OF stop])
      (auto simp: wp_bindE wp_raiseE intro!: wp_mono [OF remove])
qed

text \<open>Starting the new container; on failure it is removed again, unless that fails too.\<close>

lemma wp_start_or_abandon:
  assumes "table s cid \<noteq> None"
  shows "wp (start_guarded A q cid) (\<lambda>_ t. table t = table s)
    (\<lambda>_ t. table t = table s \<or> table t = (table s)(cid := None)) s"
  unfolding start_guarded_def wp_catchE
proof (rule wp_leaves [OF start_runtime_keeps])
  fix e t assume "table t = table s"
  with assms wp_abandon [of t cid "q_participant_id q" e] show "wp (abandon_runtime A (q_participant_id q) cid e) (\<lambda>_ t. table t = table s)
      (\<lambda>_ t. table t = table s \<or> table t = (table s)(cid := None)) t"
    by (auto elim: wp_mono)
qed

lemma wp_launch:
  assumes "table s cid = Some (runtime_name (q_participant_id q), requested_labels A q)"
  shows "wp (launch_runtime A q cid) (\<lambda>r t. table t = table s \<and> describes A q (table s) r)
    (\<lambda>_ t. table t = table s \<or> table t = (table s)(cid := None)) s"
  unfolding launch_runtime_def wp_bindE
proof (rule wp_mono [OF wp_start_or_abandon])
  show "table s cid \<noteq> None" using assms by simp
next
  fix t assume t: "table t = table s"
  show "wp (e_inspect (ag_engine A) cid) (\<lambda>x. wp (record_of A x (q_participant_id q))
      (\<lambda>r t. table t = table s \<and> describes A q (table s) r)
      (\<lambda>_ t. table t = table s \<or> table t = (table s)(cid := None)))
      (\<lambda>_ t. table t = table s \<or> table t = (table s)(cid := None)) t"
    using assms t requested_labels_simps
    by (intro wp_mono [OF inspect_law]) (auto intro!: wp_mono [OF wp_record_of] simp: describes_def)
qed simp

lemma wp_create_container:
  assumes labels: "payload_labels doc = requested_labels A q"
    and may: "int (card (runtimes (table s))) < as_max_runtimes (ag_settings A)"
      "\<forall>k. save_key_of A q = Some k \<longrightarrow> save_free k (table s)"
  shows "wp (create_container A q doc) (\<lambda>r t. develops A q (table s) (table t) \<and> describes A q (table t) r)
    (\<lambda>_ t. develops A q (table s) (table t)) s"
proof -
  let ?n = "runtime_name (q_participant_id q)"
  let ?Q = "\<lambda>r t. develops A q (table s) (table t) \<and> describes A q (table t) r"
  let ?E = "\<lambda>(_ :: agent_exn) t. develops A q (table s) (table t)"
  have new: "admitted A q (table s) ((table s)(i \<mapsto> (?n, payload_labels doc)))"
    if "table s i = None" "name_free ?n (table s)" for i
    unfolding admitted_def using that may labels by auto
  have launch: "wp (launch_runtime A q i) ?Q ?E t"
    if "table s i = None" "name_free ?n (table s)" "table t = (table s)(i \<mapsto> (?n, payload_labels doc))" for i t
  proof (rule wp_mono [OF wp_launch [of t i q]])
    show "table t i = Some (?n, requested_labels A q)" using that(3) labels by simp
  next
    fix r v assume "table v = table t \<and> describes A q (table t) r"
    then show "?Q r v" using new [OF that(1,2)] that(3) by (simp add: develops_def)
  next
    fix e v assume "table v = table t \<or> table v = (table t)(i := None)"
    moreover have "(table t)(i := None) = table s" using that(1,3) by auto
    ultimately show "?E e v" using new [OF that(1,2)] that(3) by (auto simp: develops_def)
  qed
  have reuse: "wp (e_inspect (ag_engine A) ?n) (\<lambda>x. wp (reuse_runtime A q x e) ?Q ?E) ?E t"
    if "?E e t" for e t
    using that
    by (auto simp: develops_def intro!: wp_mono [OF wp_inspect_name] wp_mono [OF wp_reuse])
  have failed: "?E e t" if "table t = table s \<or> (\<exists>i. table s i = None \<and> name_free ?n (table s) \<and>
      table t = (table s)(i \<mapsto> (?n, payload_labels doc)))" for e t
    using that new by (auto simp: develops_def)
  show ?thesis
    unfolding create_container_def Let_def wp_simps sum.case
    by (rule wp_mono [OF create_law]) (simp_all add: launch reuse failed)
qed

lemma wp_build:
  assumes "int (card (runtimes (table s))) < as_max_runtimes (ag_settings A)"
  shows "wp (build_runtime A q rom) (\<lambda>r t. develops A q (table s) (table t) \<and> describes A q (table t) r)
    (\<lambda>_ t. develops A q (table s) (table t)) s"
  unfolding build_runtime_def wp_bindE [of "prepare_saves A (save_key_of A q)"]
proof (rule wp_mono [OF wp_prepare_saves], elim conjE)
  fix sd t assume t: "table t = table s" and free: "\<forall>k. save_key_of A q = Some k \<longrightarrow> save_free k (table s)"
  have doc: "wp (bindE (payload A q rom dir (fingerprint A q) sd (save_key_of A q)) (create_container A q))
      (\<lambda>r t. develops A q (table s) (table t) \<and> describes A q (table t) r) (\<lambda>_ t. develops A q (table s) (table t)) v"
    if v: "table v = table s" for dir v
    unfolding wp_bindE
  proof (rule wp_I)
    fix doc w assume run: "payload A q rom dir (fingerprint A q) sd (save_key_of A q) v = (Inr doc, w)"
    have w: "table w = table s" using payload_keeps(2) run v unfolding leaves_def by (metis snd_conv)
    have "payload_labels doc = requested_labels A q"
      using payload_returns [OF run] by (auto simp: requested_labels_def)
    from wp_create_container [OF this, of w, unfolded w] assms free
    show "wp (create_container A q doc) (\<lambda>r t. develops A q (table s) (table t) \<and> describes A q (table t) r)
        (\<lambda>_ t. develops A q (table s) (table t)) w" by simp
  next
    fix e w assume run: "payload A q rom dir (fingerprint A q) sd (save_key_of A q) v = (Inl e, w)"
    have "table w = table s" using payload_keeps(2) run v unfolding leaves_def by (metis snd_conv)
    then show "develops A q (table s) (table w)" by (simp add: develops_def)
  qed
  show "wp (bindE (runtime_directory A (q_participant_id q)) (\<lambda>directory.
        bindE (write_runtime_spec A q directory) (\<lambda>_.
        bindE (payload A q rom directory (fingerprint A q) sd (save_key_of A q)) (create_container A q))))
      (\<lambda>r t. develops A q (table s) (table t) \<and> describes A q (table t) r) (\<lambda>_ t. develops A q (table s) (table t)) t"
    by (intro wp_bind_leaves [OF runtime_directory_keeps(2)] wp_bind_leaves [OF write_spec_keeps] doc)
      (simp_all add: t develops_def)
qed (simp add: develops_def)

lemma wp_create_runtime:
  "wp (create_runtime A q) (\<lambda>r t. develops A q (table s) (table t) \<and> describes A q (table t) r)
     (\<lambda>_ t. develops A q (table s) (table t)) s"
  unfolding create_runtime_def
proof (rule wp_bind_leaves [OF validate_keeps(2)])
  fix rom t assume t: "table t = table s"
  have build: "wp (build_runtime A q rom) (\<lambda>r t. develops A q (table s) (table t) \<and> describes A q (table t) r)
      (\<lambda>_ t. develops A q (table s) (table t)) v"
    if "table v = table s" "\<not> as_max_runtimes (ag_settings A) \<le> int (card (runtimes (table s)))" for v
    using wp_build [of v q rom, unfolded that(1)] that(2) by simp
  show "wp (bindE (catchE (bindE (e_inspect (ag_engine A) (runtime_name (q_participant_id q))) (\<lambda>x. returnE (Some x)))
        (\<lambda>e. if is_not_found e then returnE None else raiseE e)) (\<lambda>existing.
      case existing of
        Some x \<Rightarrow> reuse_runtime A q x (AgentConflict ''runtime ID already exists with a different request'')
      | None \<Rightarrow> bindE (list_managed_runtimes A) (\<lambda>records.
          if int (length records) \<ge> as_max_runtimes (ag_settings A)
          then raiseE (AgentConflict ''runtime capacity is exhausted'') else build_runtime A q rom)))
      (\<lambda>r t. develops A q (table s) (table t) \<and> describes A q (table t) r) (\<lambda>_ t. develops A q (table s) (table t)) t"
    unfolding wp_simps option.case
    by (rule wp_mono [OF wp_inspect_name])
      (auto simp: t develops_def build [unfolded develops_def]
        intro!: wp_mono [OF wp_reuse] wp_mono [OF wp_list_managed])
qed (simp add: develops_def)

lemma wp_remove_runtime:
  "wp (remove_runtime A u)
     (\<lambda>_ t. \<exists>i l. table s i = Some (runtime_name u, l) \<and> owned u l \<and> table t = (table s)(i := None))
     (\<lambda>_ t. table t = table s \<or> (\<exists>i l. table s i = Some (runtime_name u, l) \<and> owned u l \<and> table t = (table s)(i := None))) s"
proof -
  let ?gone = "\<lambda>t. \<exists>i l. table s i = Some (runtime_name u, l) \<and> owned u l \<and> table t = (table s)(i := None)"
  have away: "wp (withdraw A u) (\<lambda>_. ?gone) (\<lambda>_ t. table t = table s \<or> ?gone t) t" if "?gone t" for t
    using that by (intro wp_leaves [OF withdraw_keeps]) auto
  have remove: "wp (e_remove (ag_engine A) (cn_container_id c)) (\<lambda>_. wp (withdraw A u) (\<lambda>_. ?gone)
      (\<lambda>_ t. table t = table s \<or> ?gone t)) (\<lambda>_ t. table t = table s \<or> ?gone t) t"
    if "table t = table s" "table s (cn_container_id c) = Some (runtime_name u, map_of (cn_labels c))"
      "owned u (map_of (cn_labels c))" for c t
    using that by (intro wp_mono [OF remove_law] away) auto
  have stop: "leaves table (if b then e_stop (ag_engine A) i else returnE ())" for b i
    by (intro leaves_intros keeps_table)
  have known: "wp (bindE (resultE (require_owned c u)) (\<lambda>_.
      bindE (if cn_state c = ''running'' then e_stop (ag_engine A) (cn_container_id c) else returnE ()) (\<lambda>_.
      bindE (e_remove (ag_engine A) (cn_container_id c)) (\<lambda>_. withdraw A u))))
      (\<lambda>_. ?gone) (\<lambda>_ t. table t = table s \<or> ?gone t) t"
    if t: "table t = table s" and c: "table s (cn_container_id c) = Some (runtime_name u, map_of (cn_labels c))" for c t
  proof (cases "require_owned c u")
    case (Inr x)
    then have "owned u (map_of (cn_labels c))" by (simp add: require_owned_iff)
    then show ?thesis
      unfolding Inr wp_bindE [of "resultE (Inr x)"] wp_resultE sum.case
      by (intro wp_bind_leaves [OF stop]) (auto simp: t wp_bindE intro!: remove [OF _ c])
  qed (simp add: wp_simps t)
  have missing: "wp (if is_not_found e then bindE (withdraw A u) (\<lambda>_. raiseE e) else raiseE e)
      Q (\<lambda>_ t. table t = table s \<or> ?gone t) t" if "table t = table s" for e t Q
    using that by (auto simp: wp_simps intro!: wp_leaves [OF withdraw_keeps])
  show ?thesis
    unfolding remove_runtime_def wp_bindE [of "catchE f g" for f g] wp_catchE
    by (rule wp_mono [OF wp_inspect_name]; elim conjE; rule known missing; assumption)
qed

lemma other_operations_keep:
  "leaves table (inspect_runtime A u)" "leaves table (stop_runtime A u)"
  "leaves table (agent_capacity_of A)" "leaves table (agent_health A)" "leaves table (reconcile_routes A)"
  unfolding inspect_runtime_def stop_runtime_def agent_capacity_of_def agent_health_def reconcile_routes_def
    route_participants_def metrics_participants_def list_discovered_def route_remove_def metrics_remove_def Let_def
  by (intro leaves_intros keeps_table record_keeps list_managed_keeps)+

end

section \<open>Sequences of calls\<close>

datatype agent_call =
    CreateRuntime create_request
  | InspectRuntime uuid
  | StopRuntime uuid
  | RemoveRuntime uuid
  | ListRuntimes
  | Capacity
  | Health
  | ReconcileRoutes

fun agent_perform :: "'s agent \<Rightarrow> agent_call \<Rightarrow> (agent_exn, 's, unit) prog" where
  "agent_perform A (CreateRuntime q) = bindE (create_runtime A q) (\<lambda>_. returnE ())"
| "agent_perform A (InspectRuntime u) = bindE (inspect_runtime A u) (\<lambda>_. returnE ())"
| "agent_perform A (StopRuntime u) = bindE (stop_runtime A u) (\<lambda>_. returnE ())"
| "agent_perform A (RemoveRuntime u) = remove_runtime A u"
| "agent_perform A ListRuntimes = bindE (list_managed_runtimes A) (\<lambda>_. returnE ())"
| "agent_perform A Capacity = bindE (agent_capacity_of A) (\<lambda>_. returnE ())"
| "agent_perform A Health = bindE (agent_health A) (\<lambda>_. returnE ())"
| "agent_perform A ReconcileRoutes = bindE (reconcile_routes A) (\<lambda>_. returnE ())"

text \<open>The server answers a failed call and goes on with the next one.\<close>

fun agent_serve :: "'s agent \<Rightarrow> agent_call list \<Rightarrow> 's \<Rightarrow> 's" where
  "agent_serve A [] s = s"
| "agent_serve A (c # cs) s = agent_serve A cs (snd (agent_perform A c s))"

lemma snd_bind_unit: "snd (bindE f (\<lambda>_. returnE a) s) = snd (f s)"
  by (auto simp: bindE_def returnE_def split: prod.splits sum.splits)

text \<open>What one call may do to the containers.\<close>

inductive container_step :: "'s agent \<Rightarrow> agent_call \<Rightarrow> containers \<Rightarrow> containers \<Rightarrow> bool" for A where
  same: "container_step A c m m"
| admit: "admitted A q m m' \<Longrightarrow> container_step A (CreateRuntime q) m m'"
| drop: "m i = Some (runtime_name u, l) \<Longrightarrow> owned u l \<Longrightarrow> container_step A (RemoveRuntime u) m (m(i := None))"

inductive_cases container_step_cases: "container_step A c m m'"

context runtime_host
begin

lemma perform_step: "container_step A c (table s) (table (snd (agent_perform A c s)))"
proof -
  have keep: "container_step A c (table s) (table (snd (bindE f (\<lambda>_. returnE ()) s)))" if "leaves table f"
    for c and f :: "(agent_exn, 's, 'b) prog"
    using that unfolding leaves_def snd_bind_unit by (simp add: container_step.same)
  show ?thesis
  proof (cases c)
    case (CreateRuntime q)
    have "develops A q (table s) (table (snd (create_runtime A q s)))"
      using wp_create_runtime [of q s] by (cases "create_runtime A q s") (auto simp: wp_def split: sum.splits)
    then show ?thesis
      using CreateRuntime by (auto simp: develops_def snd_bind_unit intro: container_step.intros)
  next
    case (RemoveRuntime u)
    have "table (snd (remove_runtime A u s)) = table s \<or> (\<exists>i l. table s i = Some (runtime_name u, l) \<and> owned u l \<and>
        table (snd (remove_runtime A u s)) = (table s)(i := None))"
      using wp_remove_runtime [of u s] by (cases "remove_runtime A u s") (auto simp: wp_def split: sum.splits)
    then show ?thesis using RemoveRuntime by (auto intro: container_step.intros)
  qed (simp_all add: keep other_operations_keep list_managed_keeps)
qed

end

end
