(* ===== verification/AgentMachine.thy ===== *)
theory AgentMachine
  imports AgentLifecycle "HOL-Library.DAList"
begin

text \<open>
  A host on which the Runtime Agent's theorems apply: files and containers as finite maps, with an
  outside world that decides which calls fail, what paths resolve to and which state a container
  reports. It satisfies the laws of the locale \<open>runtime_host\<close> for every such world.
\<close>

record 'w machine =
  m_files :: "(path, json) alist"
  m_containers :: "(string, (string \<times> string) list) alist"
  m_world :: 'w

record 'w outside =
  o_fault :: "string \<Rightarrow> 'w \<Rightarrow> string option \<times> 'w"
  o_resolve :: "pure_path \<Rightarrow> (agent_exn, 'w, path) prog"
  o_is_dir :: "path \<Rightarrow> (agent_exn, 'w, bool) prog"
  o_sha256 :: "path \<Rightarrow> (agent_exn, 'w, string) prog"
  o_status :: "string \<Rightarrow> 'w \<Rightarrow> string \<times> health_status"

definition on_machine :: "(agent_exn, 'w, 'a) prog \<Rightarrow> (agent_exn, 'w machine, 'a) prog" where
  "on_machine f = (\<lambda>s. case f (m_world s) of (r, w) \<Rightarrow> (r, s\<lparr>m_world := w\<rparr>))"

definition attempt ::
  "'w outside \<Rightarrow> (string \<Rightarrow> agent_exn) \<Rightarrow> string \<Rightarrow> (agent_exn, 'w machine, unit) prog" where
  "attempt X exn call =
     (\<lambda>s. case o_fault X call (m_world s) of
            (None, w) \<Rightarrow> (Inr (), s\<lparr>m_world := w\<rparr>)
          | (Some m, w) \<Rightarrow> (Inl (exn m), s\<lparr>m_world := w\<rparr>))"

text \<open>The world sees a call before it happens, and again after it, when the answer may be lost.\<close>

definition call ::
  "'w outside \<Rightarrow> (string \<Rightarrow> agent_exn) \<Rightarrow> string \<Rightarrow> ('w machine \<Rightarrow> (agent_exn + 'a) \<times> 'w machine) \<Rightarrow>
   (agent_exn, 'w machine, 'a) prog" where
  "call X exn name f =
     bindE (attempt X exn name) (\<lambda>_. bindE f (\<lambda>a. bindE (attempt X exn (name @ ''-answer'')) (\<lambda>_. returnE a)))"

definition modify :: "('s \<Rightarrow> 's) \<Rightarrow> (agent_exn, 's, unit) prog" where
  "modify f = (\<lambda>s. (Inr (), f s))"

section \<open>Files\<close>

definition machine_disk :: "'w machine \<Rightarrow> path \<rightharpoonup> json" where
  "machine_disk s = DAList.lookup (m_files s)"

definition machine_files :: "'w outside \<Rightarrow> 'w machine files" where
  "machine_files X =
     \<lparr>f_resolve = (\<lambda>pp. on_machine (o_resolve X pp)),
      f_is_file = (\<lambda>p s. (Inr (machine_disk s p \<noteq> None), s)),
      f_is_dir = (\<lambda>p. on_machine (o_is_dir X p)),
      f_mkdir = (\<lambda>p mode. attempt X AgentOS ''mkdir''),
      f_chmod = (\<lambda>p mode. attempt X AgentOS ''chmod''),
      f_chown = (\<lambda>p uid gid. attempt X AgentOS ''chown''),
      f_write = (\<lambda>fmt p d. call X AgentOS ''write'' (modify (\<lambda>s. s\<lparr>m_files := DAList.update p d (m_files s)\<rparr>))),
      f_replace = (\<lambda>p q. bindE (attempt X AgentOS ''replace'') (\<lambda>_ s.
         case DAList.lookup (m_files s) p of
           None \<Rightarrow> (Inl (AgentOS ''missing''), s)
         | Some d \<Rightarrow> (Inr (), s\<lparr>m_files := DAList.delete p (DAList.update q d (m_files s))\<rparr>))),
      f_unlink = (\<lambda>p. bindE (attempt X AgentOS ''unlink'') (\<lambda>_.
         modify (\<lambda>s. s\<lparr>m_files := DAList.delete p (m_files s)\<rparr>))),
      f_listdir = (\<lambda>dir s. (Inr (map last (filter (\<lambda>p. p \<noteq> [] \<and> butlast p = dir)
         (map fst (DAList.impl_of (m_files s))))), s)),
      f_sha256 = (\<lambda>p. on_machine (o_sha256 X p))\<rparr>"

section \<open>Containers\<close>

text \<open>An engine names a container's id; here it is the hexadecimal form of its name.\<close>

definition container_id :: "string \<Rightarrow> string" where
  "container_id n = concat (map (\<lambda>c. hex_of_nat 2 (of_char c)) n)"

definition machine_table :: "'w machine \<Rightarrow> containers" where
  "machine_table s =
     map_of (map (\<lambda>(n, l). (container_id n, (n, map_of l))) (DAList.impl_of (m_containers s)))"

definition found :: "'w machine \<Rightarrow> string \<Rightarrow> (string \<times> (string \<times> string) list) option" where
  "found s k =
     (case first_match (\<lambda>(n, l). container_id n = k) (DAList.impl_of (m_containers s)) of
        Some x \<Rightarrow> Some x
      | None \<Rightarrow> first_match (\<lambda>(n, l). n = k) (DAList.impl_of (m_containers s)))"

definition container_of :: "'w outside \<Rightarrow> 'w machine \<Rightarrow> string \<times> (string \<times> string) list \<Rightarrow> container_record" where
  "container_of X s x =
     (case x of (n, l) \<Rightarrow> \<lparr>cn_container_id = container_id n, cn_name = n,
        cn_state = fst (o_status X n (m_world s)), cn_health = snd (o_status X n (m_world s)),
        cn_labels = l, cn_image = ''''\<rparr>)"

definition no_such_container :: agent_exn where
  "no_such_container = AgentNotFound ''Docker object was not found''"

definition machine_engine :: "'w outside \<Rightarrow> 'w machine engine" where
  "machine_engine X =
     \<lparr>e_ping = bindE (attempt X AgentEngine ''ping'') (\<lambda>_. returnE True),
      e_create = (\<lambda>n p. call X AgentEngine ''create'' (\<lambda>s.
         if DAList.lookup (m_containers s) n \<noteq> None
         then (Inl (AgentConflict ''Docker object conflicts with existing state''), s)
         else (Inr (container_id n), s\<lparr>m_containers := DAList.update n (label_list p) (m_containers s)\<rparr>))),
      e_start = (\<lambda>i. bindE (attempt X AgentEngine ''start'') (\<lambda>_ s.
         (if found s i = None then Inl no_such_container else Inr (), s))),
      e_inspect = (\<lambda>k. bindE (attempt X AgentEngine ''inspect'') (\<lambda>_ s.
         (case found s k of None \<Rightarrow> Inl no_such_container | Some x \<Rightarrow> Inr (container_of X s x), s))),
      e_stop = (\<lambda>i. bindE (attempt X AgentEngine ''stop'') (\<lambda>_ s.
         (if found s i = None then Inl no_such_container else Inr (), s))),
      e_remove = (\<lambda>i. call X AgentEngine ''remove'' (\<lambda>s.
         case found s i of
           None \<Rightarrow> (Inl no_such_container, s)
         | Some (n, l) \<Rightarrow> (Inr (), s\<lparr>m_containers := DAList.delete n (m_containers s)\<rparr>))),
      e_list = bindE (attempt X AgentEngine ''list'') (\<lambda>_ s.
         (Inr (map (container_of X s) (filter (\<lambda>(n, l). is_managed (map_of l))
            (DAList.impl_of (m_containers s)))), s))\<rparr>"

definition machine_agent ::
  "'w outside \<Rightarrow> agent_settings \<Rightarrow> (nat list \<Rightarrow> string) \<Rightarrow> hmac \<Rightarrow> (ustring \<Rightarrow> ustring) \<Rightarrow> 'w machine agent" where
  "machine_agent X c sha mac low =
     \<lparr>ag_settings = c, ag_engine = machine_engine X, ag_files = machine_files X, ag_sha256 = sha,
      ag_hmac = mac, ag_lower = low\<rparr>"

section \<open>The laws hold\<close>

lemma machine_views [simp]:
  "machine_disk (s\<lparr>m_world := w\<rparr>) = machine_disk s" "machine_table (s\<lparr>m_world := w\<rparr>) = machine_table s"
  "machine_disk (s\<lparr>m_containers := cs\<rparr>) = machine_disk s" "machine_table (s\<lparr>m_files := fs\<rparr>) = machine_table s"
  by (simp_all add: machine_disk_def machine_table_def)

lemma wp_attempt:
  "(\<And>w. Q () (s\<lparr>m_world := w\<rparr>)) \<Longrightarrow> (\<And>m w. E (exn m) (s\<lparr>m_world := w\<rparr>)) \<Longrightarrow> wp (attempt X exn c) Q E s"
  by (auto simp: wp_def attempt_def split: prod.splits option.splits)

lemma wp_on_machine:
  "(\<And>a w. Q a (s\<lparr>m_world := w\<rparr>)) \<Longrightarrow> (\<And>e w. E e (s\<lparr>m_world := w\<rparr>)) \<Longrightarrow> wp (on_machine f) Q E s"
  by (auto simp: wp_def on_machine_def split: prod.splits sum.splits)

lemma wp_modify [wp_simps]: "wp (modify f) Q E = (\<lambda>s. Q () (f s))"
  by (simp add: wp_def modify_def fun_eq_iff)

lemma hex_of_nat_2_inj: "a < 256 \<Longrightarrow> b < 256 \<Longrightarrow> hex_of_nat 2 a = hex_of_nat 2 b \<Longrightarrow> a = b"
  by (drule hex_of_nat_inj) simp

lemma container_id_inject: "container_id m = container_id n \<Longrightarrow> m = n"
proof (induction m arbitrary: n)
  case Nil
  then show ?case by (cases n) (auto simp: container_id_def dest: arg_cong [of _ _ length])
next
  case (Cons c m)
  then obtain d k where n: "n = d # k"
    by (cases n) (auto simp: container_id_def dest: arg_cong [of _ _ length])
  have parts: "hex_of_nat 2 (of_char c) = hex_of_nat 2 (of_char d)" "container_id m = container_id k"
    using Cons.prems append_eq_append_conv [of "hex_of_nat 2 (of_char c)" "hex_of_nat 2 (of_char d)"]
    by (simp_all add: container_id_def n)
  have "(of_char c :: nat) = of_char d" by (rule hex_of_nat_2_inj [OF _ _ parts(1)]) simp_all
  then show ?case using Cons.IH [OF parts(2)] n by simp
qed

lemma container_id_hex: "list_all is_hex_lower (container_id n)"
  by (induction n) (simp_all add: container_id_def hex_of_nat_chars del: hex_of_nat.simps)

lemma distinct_container_ids: "distinct ns \<Longrightarrow> distinct (map container_id ns)"
  by (simp add: distinct_map inj_on_def) (blast dest: container_id_inject)

lemma table_iff:
  "machine_table s i = Some (n, l) \<longleftrightarrow>
     i = container_id n \<and> (\<exists>x. DAList.lookup (m_containers s) n = Some x \<and> l = map_of x)"
proof -
  let ?xs = "DAList.impl_of (m_containers s)"
  have "distinct (map container_id (map fst ?xs))" by (rule distinct_container_ids) simp
  then have "distinct (map fst (map (\<lambda>(n, l). (container_id n, (n, map_of l))) ?xs))"
    by (simp add: comp_def case_prod_unfold)
  then show ?thesis
    unfolding machine_table_def DAList.lookup.rep_eq
    by (force simp: map_of_eq_Some_iff)
qed

lemma map_eqI: "(\<And>k v. f k = Some v \<longleftrightarrow> g k = Some v) \<Longrightarrow> f = g"
  by (metis ext not_None_eq)

lemma table_update:
  "machine_table (s\<lparr>m_containers := DAList.update n x (m_containers s)\<rparr>) =
     (machine_table s)(container_id n \<mapsto> (n, map_of x))"
proof (rule map_eqI)
  fix i and v :: "string \<times> (string \<rightharpoonup> string)"
  obtain m l where v: "v = (m, l)" by (cases v)
  show "machine_table (s\<lparr>m_containers := DAList.update n x (m_containers s)\<rparr>) i = Some v \<longleftrightarrow>
      ((machine_table s)(container_id n \<mapsto> (n, map_of x))) i = Some v"
    unfolding v by (auto simp: table_iff DAList.lookup_update dest: container_id_inject split: if_splits)
qed

lemma table_delete:
  "machine_table (s\<lparr>m_containers := DAList.delete n (m_containers s)\<rparr>) =
     (machine_table s)(container_id n := None)"
proof (rule map_eqI)
  fix i and v :: "string \<times> (string \<rightharpoonup> string)"
  obtain m l where v: "v = (m, l)" by (cases v)
  show "machine_table (s\<lparr>m_containers := DAList.delete n (m_containers s)\<rparr>) i = Some v \<longleftrightarrow>
      ((machine_table s)(container_id n := None)) i = Some v"
    unfolding v by (auto simp: table_iff DAList.lookup_delete restrict_map_def dest: container_id_inject split: if_splits)
qed

lemma found_SomeD:
  assumes "found s k = Some (n, l)"
  shows "DAList.lookup (m_containers s) n = Some l" "container_id n = k \<or> n = k \<and> machine_table s k = None"
proof -
  let ?xs = "DAList.impl_of (m_containers s)"
  consider "first_match (\<lambda>(n, l). container_id n = k) ?xs = Some (n, l)"
    | "first_match (\<lambda>(n, l). container_id n = k) ?xs = None" "first_match (\<lambda>(n, l). n = k) ?xs = Some (n, l)"
    using assms unfolding found_def by (cases "first_match (\<lambda>(n, l). container_id n = k) ?xs") simp_all
  then have "(n, l) \<in> set ?xs \<and> (container_id n = k \<or>
      n = k \<and> first_match (\<lambda>(n, l). container_id n = k) ?xs = None)"
  proof cases
    case 1
    from first_match_SomeD [OF 1] show ?thesis by simp
  next
    case 2
    from first_match_SomeD [OF 2(2)] have "(n, l) \<in> set ?xs" "n = k" by auto
    with 2(1) show ?thesis by simp
  qed
  then have mem: "(n, l) \<in> set ?xs" and key: "container_id n = k \<or>
      n = k \<and> first_match (\<lambda>(n, l). container_id n = k) ?xs = None" by blast+
  show "DAList.lookup (m_containers s) n = Some l"
    using mem unfolding DAList.lookup.rep_eq by (simp add: map_of_eq_Some_iff)
  have "machine_table s k = None" if "first_match (\<lambda>(n, l). container_id n = k) ?xs = None"
  proof (rule ccontr)
    assume "machine_table s k \<noteq> None"
    then obtain m y where "machine_table s k = Some (m, y)" by (cases "machine_table s k") auto
    then have "k = container_id m \<and> (\<exists>x. map_of ?xs m = Some x \<and> y = map_of x)"
      unfolding table_iff DAList.lookup.rep_eq .
    then obtain x where k: "k = container_id m" and x: "map_of ?xs m = Some x" by auto
    from x have "(m, x) \<in> set ?xs" by (rule map_of_SomeD)
    from that [unfolded first_match_None, rule_format, OF this] k show False by simp
  qed
  with key show "container_id n = k \<or> n = k \<and> machine_table s k = None" by blast
qed

lemma found_None: "found s k = None \<Longrightarrow> machine_table s k = None \<and> name_free k (machine_table s)"
proof -
  let ?xs = "DAList.impl_of (m_containers s)"
  assume none: "found s k = None"
  then have "first_match (\<lambda>(n, l). container_id n = k) ?xs = None" "first_match (\<lambda>(n, l). n = k) ?xs = None"
    unfolding found_def by (simp_all split: option.splits)
  then have no: "container_id n \<noteq> k \<and> n \<noteq> k" if "(n, l) \<in> set ?xs" for n l
    using that unfolding first_match_None by blast
  have "machine_table s i \<noteq> Some (n, l)" if "i = k \<or> n = k" for i n l
    using no that unfolding table_iff DAList.lookup.rep_eq by (auto dest: map_of_SomeD)
  then show ?thesis unfolding name_free_def by (metis option.exhaust surj_pair)
qed

lemmas host_defs = machine_agent_def machine_engine_def machine_files_def

lemma machine_inspect:
  "wp (e_inspect (machine_engine X) k)
     (\<lambda>c t. machine_disk t = machine_disk s \<and> machine_table t = machine_table s \<and>
        machine_table s (cn_container_id c) = Some (cn_name c, map_of (cn_labels c)) \<and>
        (cn_container_id c = k \<or> cn_name c = k \<and> machine_table s k = None))
     (\<lambda>e t. machine_disk t = machine_disk s \<and> machine_table t = machine_table s \<and>
        (is_not_found e \<longrightarrow> machine_table s k = None \<and> name_free k (machine_table s))) s"
proof -
  have *: "found (s\<lparr>m_world := w\<rparr>) k = found s k" for w by (simp add: found_def cong: option.case_cong)
  show ?thesis
    unfolding machine_engine_def engine.simps wp_bindE
    by (rule wp_attempt)
      (auto simp: wp_def * container_of_def table_iff dest: found_SomeD found_None split: option.splits)
qed

lemma machine_list:
  "wp (e_list (machine_engine X))
     (\<lambda>cs t. machine_disk t = machine_disk s \<and> machine_table t = machine_table s \<and>
        distinct (map cn_container_id cs) \<and>
        (\<lambda>c. (cn_container_id c, cn_name c, map_of (cn_labels c))) ` set cs =
        {(i, n, l). machine_table s i = Some (n, l) \<and> is_managed l})
     (\<lambda>_ t. machine_disk t = machine_disk s \<and> machine_table t = machine_table s) s"
proof -
  let ?xs = "DAList.impl_of (m_containers s)"
  let ?ys = "filter (\<lambda>(n, l). is_managed (map_of l)) ?xs"
  have ids: "map cn_container_id (map (container_of X t) zs) = map container_id (map fst zs)" for t zs
    by (simp add: container_of_def case_prod_unfold comp_def)
  have "distinct (map fst ?ys)" by (rule distinct_map_filter) simp
  then have d: "distinct (map container_id (map fst ?ys))" by (rule distinct_container_ids)
  have "(i, n, l) \<in> (\<lambda>x. (container_id (fst x), fst x, map_of (snd x))) ` set ?ys \<longleftrightarrow>
      machine_table s i = Some (n, l) \<and> is_managed l" for i n l
    unfolding table_iff DAList.lookup.rep_eq by (force simp: map_of_eq_Some_iff)
  then have all: "(\<lambda>x. (container_id (fst x), fst x, map_of (snd x))) ` set ?ys =
      {(i, n, l). machine_table s i = Some (n, l) \<and> is_managed l}" by blast
  have "(\<lambda>c. (cn_container_id c, cn_name c, map_of (cn_labels c))) ` set (map (container_of X t) ?ys) =
      (\<lambda>x. (container_id (fst x), fst x, map_of (snd x))) ` set ?ys" for t
    by (simp only: set_map image_image) (simp add: container_of_def case_prod_unfold)
  with all have set: "(\<lambda>c. (cn_container_id c, cn_name c, map_of (cn_labels c))) ` set (map (container_of X t) ?ys) =
      {(i, n, l). machine_table s i = Some (n, l) \<and> is_managed l}" for t by simp
  show ?thesis
    unfolding machine_engine_def engine.simps wp_bindE
  proof (rule wp_attempt)
    fix w
    let ?t = "s\<lparr>m_world := w\<rparr>"
    have run: "wp (\<lambda>s. (Inr (map (container_of X s) (filter (\<lambda>(n, l). is_managed (map_of l))
        (DAList.impl_of (m_containers s)))), s)) Q E ?t = Q (map (container_of X ?t) ?ys) ?t" for Q E
      by (simp add: wp_def)
    show "wp (\<lambda>s. (Inr (map (container_of X s) (filter (\<lambda>(n, l). is_managed (map_of l))
        (DAList.impl_of (m_containers s)))), s))
      (\<lambda>cs t. machine_disk t = machine_disk s \<and> machine_table t = machine_table s \<and>
        distinct (map cn_container_id cs) \<and>
        (\<lambda>c. (cn_container_id c, cn_name c, map_of (cn_labels c))) ` set cs =
        {(i, n, l). machine_table s i = Some (n, l) \<and> is_managed l})
      (\<lambda>_ t. machine_disk t = machine_disk s \<and> machine_table t = machine_table s) ?t"
      using d set [of ?t] unfolding run ids by (simp only: machine_views simp_thms)
  qed simp
qed

lemma machine_create:
  "wp (e_create (machine_engine X) n doc)
     (\<lambda>i t. machine_disk t = machine_disk s \<and> machine_table s i = None \<and> name_free n (machine_table s) \<and>
        machine_table t = (machine_table s)(i \<mapsto> (n, payload_labels doc)))
     (\<lambda>_ t. machine_disk t = machine_disk s \<and> (machine_table t = machine_table s \<or>
        (\<exists>i. machine_table s i = None \<and> name_free n (machine_table s) \<and>
           machine_table t = (machine_table s)(i \<mapsto> (n, payload_labels doc))))) s"
proof -
  have free: "machine_table s (container_id n) = None \<and> name_free n (machine_table s)"
    if "DAList.lookup (m_containers s) n = None"
  proof
    show "name_free n (machine_table s)" using that by (auto simp: name_free_def table_iff)
    show "machine_table s (container_id n) = None"
      using that table_iff [of s "container_id n"] container_id_inject
      by (metis not_None_eq option.distinct(1) surj_pair)
  qed
  show ?thesis
    unfolding machine_engine_def engine.simps call_def wp_bindE
    by (rule wp_attempt)
      (auto simp: wp_def [of "\<lambda>s. if P s then f s else g s" for P f g] table_update payload_labels_def wp_simps
        intro!: wp_attempt dest!: free)
qed

lemma machine_remove:
  assumes "machine_table s i \<noteq> None"
  shows "wp (e_remove (machine_engine X) i)
     (\<lambda>_ t. machine_disk t = machine_disk s \<and> machine_table t = (machine_table s)(i := None))
     (\<lambda>_ t. machine_disk t = machine_disk s \<and>
        (machine_table t = machine_table s \<or> machine_table t = (machine_table s)(i := None))) s"
proof -
  obtain n l where f: "found s i = Some (n, l)" using found_None [of s i] assms by (cases "found s i") auto
  have n: "i = container_id n" using found_SomeD(2) [OF f] assms by blast
  have fw: "found (s\<lparr>m_world := w\<rparr>) i = Some (n, l)" for w
    using f by (simp add: found_def cong: option.case_cong)
  have body: "wp (\<lambda>s. case found s i of None \<Rightarrow> (Inl no_such_container, s)
      | Some (n, l) \<Rightarrow> (Inr (), s\<lparr>m_containers := DAList.delete n (m_containers s)\<rparr>)) Q E (s\<lparr>m_world := w\<rparr>) =
      Q () (s\<lparr>m_world := w, m_containers := DAList.delete n (m_containers s)\<rparr>)" for Q E w
    by (simp add: wp_def fw)
  show ?thesis
    unfolding machine_engine_def engine.simps call_def wp_bindE
    by (rule wp_attempt, unfold body) (auto simp: table_delete n wp_simps intro!: wp_attempt)
qed

lemma machine_disk_update:
  "machine_disk (s\<lparr>m_files := DAList.update p d fs\<rparr>) = (DAList.lookup fs)(p \<mapsto> d)"
  "machine_disk (s\<lparr>m_files := DAList.delete p fs\<rparr>) = (DAList.lookup fs)(p := None)"
  by (auto simp: machine_disk_def DAList.lookup_update DAList.lookup_delete restrict_map_def fun_eq_iff)

lemma machine_disk_lookup: "DAList.lookup (m_files s) = machine_disk s"
  by (simp add: machine_disk_def)

lemma machine_write:
  "wp (f_write (machine_files X) fmt p d) (\<lambda>_ t. machine_disk t = (machine_disk s)(p \<mapsto> d))
     (\<lambda>_ t. \<exists>x. machine_disk t = (machine_disk s)(p := x)) s"
  unfolding machine_files_def files.simps call_def wp_bindE
  by (rule wp_attempt) (auto simp: wp_simps machine_disk_update machine_disk_lookup intro!: wp_attempt
      intro: exI [of _ "machine_disk s p"])

lemma machine_replace:
  assumes "p \<noteq> q"
  shows "wp (f_replace (machine_files X) p q)
     (\<lambda>_ t. \<exists>d. machine_disk s p = Some d \<and> machine_disk t = (machine_disk s)(q \<mapsto> d, p := None))
     (\<lambda>_ t. machine_disk t = machine_disk s) s"
proof -
  have body: "wp (\<lambda>s. case DAList.lookup (m_files s) p of None \<Rightarrow> (Inl (AgentOS ''missing''), s)
      | Some d \<Rightarrow> (Inr (), s\<lparr>m_files := DAList.delete p (DAList.update q d (m_files s))\<rparr>)) Q E (s\<lparr>m_world := w\<rparr>) =
      (case machine_disk s p of None \<Rightarrow> E (AgentOS ''missing'') (s\<lparr>m_world := w\<rparr>)
       | Some d \<Rightarrow> Q () (s\<lparr>m_world := w, m_files := DAList.delete p (DAList.update q d (m_files s))\<rparr>))" for Q E w
    by (simp add: wp_def machine_disk_def split: option.splits)
  show ?thesis
    unfolding machine_files_def files.simps wp_bindE
    by (rule wp_attempt, unfold body)
      (auto simp: machine_disk_update DAList.lookup_update machine_disk_lookup split: option.splits)
qed

lemma machine_unlink:
  "wp (f_unlink (machine_files X) p) (\<lambda>_ t. machine_disk t = (machine_disk s)(p := None))
     (\<lambda>_ t. machine_disk t = machine_disk s) s"
  unfolding machine_files_def files.simps wp_bindE
  by (rule wp_attempt) (auto simp: wp_simps machine_disk_update machine_disk_lookup)

lemma machine_listdir:
  "wp (f_listdir (machine_files X) dir)
     (\<lambda>ns t. machine_disk t = machine_disk s \<and> set ns = {n. machine_disk s (dir @ [n]) \<noteq> None})
     (\<lambda>_ t. machine_disk t = machine_disk s) s"
proof -
  have "n \<in> last ` {p \<in> fst ` set (DAList.impl_of (m_files s)). p \<noteq> [] \<and> butlast p = dir} \<longleftrightarrow>
      dir @ [n] \<in> fst ` set (DAList.impl_of (m_files s))" for n
    by (force intro: image_eqI [of _ last "dir @ [n]"] simp: append_butlast_last_id)
  moreover have "machine_disk s p \<noteq> None \<longleftrightarrow> p \<in> fst ` set (DAList.impl_of (m_files s))" for p
    by (simp add: machine_disk_def DAList.lookup.rep_eq map_of_eq_None_iff)
  ultimately show ?thesis by (auto simp: machine_files_def wp_def)
qed

lemma leaves_attempt: "leaves machine_disk (attempt X exn c)" "leaves machine_table (attempt X exn c)"
  by (auto simp: leaves_def attempt_def split: prod.splits option.splits)

lemma leaves_on_machine: "leaves machine_disk (on_machine f)" "leaves machine_table (on_machine f)"
  by (auto simp: leaves_def on_machine_def split: prod.splits)

lemma leaves_call: "leaves v (attempt X exn name) \<Longrightarrow> leaves v (attempt X exn (name @ ''-answer'')) \<Longrightarrow>
    leaves v f \<Longrightarrow> leaves v (call X exn name f)"
  unfolding call_def by (intro leaves_intros)

lemma leaves_reading: "leaves v (\<lambda>s. (r s, s))"
  by (simp add: leaves_def)

lemma leaves_modify: "(\<And>s. v (f s) = v s) \<Longrightarrow> leaves v (modify f)"
  by (simp add: leaves_def modify_def)

lemma leaves_replace_body: "leaves machine_table (\<lambda>s. case DAList.lookup (m_files s) p of
    None \<Rightarrow> (Inl e, s) | Some d \<Rightarrow> (Inr (), s\<lparr>m_files := g d s\<rparr>))"
  by (auto simp: leaves_def split: option.splits)

lemmas machine_leaves = leaves_intros leaves_attempt leaves_on_machine leaves_call leaves_reading
  leaves_modify leaves_replace_body leaves_pair

lemma machine_names: "machine_table s i = Some (n, l) \<Longrightarrow> machine_table s j = Some (n, l') \<Longrightarrow> i = j"
  by (simp add: table_iff)

lemma machine_finite: "finite (dom (machine_table s))"
  by (simp add: machine_table_def finite_dom_map_of)

lemma machine_hex: "machine_table s i \<noteq> None \<Longrightarrow> list_all is_hex_lower i"
  using table_iff container_id_hex by (metis option.exhaust surj_pair)

interpretation machine: runtime_host "machine_agent X c sha mac low" machine_disk machine_table
  for X c sha mac low
proof (unfold_locales, unfold machine_agent_def agent.simps)
  show "leaves (\<lambda>s. (machine_disk s, machine_table s)) (e_start (machine_engine X) i)"
    "leaves (\<lambda>s. (machine_disk s, machine_table s)) (e_stop (machine_engine X) i)"
    "leaves (\<lambda>s. (machine_disk s, machine_table s)) (e_ping (machine_engine X))" for i
    unfolding machine_engine_def engine.simps by (intro machine_leaves)+
  show "wp (f_is_file (machine_files X) p)
      (\<lambda>b t. machine_disk t = machine_disk s \<and> (b \<longleftrightarrow> machine_disk s p \<noteq> None)) (\<lambda>_ t. machine_disk t = machine_disk s) s"
    for p s by (simp add: machine_files_def wp_def)
qed ((rule machine_write machine_replace machine_unlink machine_listdir machine_inspect machine_list
      machine_create machine_remove machine_names machine_finite machine_hex; assumption) |
    (unfold machine_files_def files.simps, intro machine_leaves; simp))+

end
