(* ===== verification/SampleHost.thy ===== *)
theory SampleHost
  imports AgentMachine "HOL-Library.Code_Target_Nat"
begin

text \<open>
  A concrete host, configuration and request of the Runtime Agent. The hypotheses of the theorems
  about the agent hold of them, and the model of a creation runs on them.
\<close>

definition sample_outside :: "unit outside" where
  "sample_outside =
     \<lparr>o_fault = (\<lambda>_ w. (None, w)), o_resolve = (\<lambda>pp. returnE (pp_parts pp)), o_is_dir = (\<lambda>_. returnE True),
      o_sha256 = (\<lambda>_. returnE (replicate 64 (CHR ''a''))), o_status = (\<lambda>_ _. (''running'', HS_healthy))\<rparr>"

definition sample_settings :: agent_settings where
  "sample_settings =
     \<lparr>as_docker_socket = pure_path_of (ustring_of ''/var/run/docker.sock''),
      as_listen_socket = pure_path_of (ustring_of ''/run/agent.sock''),
      as_approved_image = ''sha256:'' @ replicate 64 (CHR ''0''), as_approved_networks = {''stream'', ''netplay''},
      as_rom_root = pure_path_of (ustring_of ''/roms''), as_user_data_root = pure_path_of (ustring_of ''/data''),
      as_save_data_root = Some (pure_path_of (ustring_of ''/saves'')), as_docker_rom_root = None,
      as_docker_user_data_root = None, as_docker_save_data_root = None,
      as_preprovisioned_user_data = False, as_manage_user_data_permissions = True,
      as_control_uid = 0, as_control_gid = 1000, as_route_root = pure_path_of (ustring_of ''/routes''),
      as_metrics_target_root = Some (pure_path_of (ustring_of ''/metrics'')), as_allowed_origins = ''https://play'',
      as_route_host = None, as_selkies_mode = Websockets, as_turn_rest_uri = None, as_turn_rest_api_key = None,
      as_turn_rest_username = ''retrobrowser'', as_turn_protocol = Udp, as_turn_tls = False, as_stun_host = None,
      as_stun_port = 3478, as_memory_bytes = 4294967296, as_nano_cpus = 2000000000, as_pids_limit = 1024,
      as_max_runtimes = 1, as_gpu_profiles = {''cpu''}\<rparr>"

definition sample_create :: create_request where
  "sample_create =
     \<lparr>q_session_id = 1, q_participant_id = 2, q_user_id = ''alice'', q_player_name = ustring_of ''Alice'',
      q_image = ''sha256:'' @ replicate 64 (CHR ''0''), q_rom_path = ustring_of ''/roms/a.sfc'',
      q_rom_sha256 = replicate 64 (CHR ''a''), q_core_profile = ''snes9x'',
      q_netplay = \<lparr>nr_role = NetHost, nr_host = None, nr_port = 1024\<rparr>,
      q_stream_subfolder = ''/stream/00000000000000000000000000000002'', q_stream_network = ''stream'',
      q_netplay_network = ''netplay'', q_gpu_profile = Gpu_cpu, q_master_token = replicate 64 48\<rparr>"

definition sample_host :: "unit machine" where
  "sample_host = \<lparr>m_files = DAList.update (map ustring_of [''roms'', ''a.sfc'']) JNull DAList.empty,
     m_containers = DAList.update ''database'' [(''role'', ''db'')] DAList.empty, m_world = ()\<rparr>"

abbreviation sample_agent :: "unit machine agent" where
  "sample_agent \<equiv> machine_agent sample_outside sample_settings (\<lambda>_. ''digest'') (\<lambda>_ _. ''mac'') (\<lambda>t. t)"

lemma sample_agent_host: "runtime_host sample_agent machine_disk machine_table"
  by (rule machine.runtime_host_axioms)

lemma sample_fingerprint [simp]: "fingerprint sample_agent q = ''digest''"
  by (simp add: fingerprint_def machine_agent_def)

text \<open>A creation on the sample host; the constant digest is not computed.\<close>

lemmas creation_defs = create_runtime_def build_runtime_def create_container_def reuse_runtime_def

lemma sample_create_runs:
  "case create_runtime sample_agent sample_create sample_host of
     (Inr r, t) \<Rightarrow> machine_table t (rt_container_id r) \<noteq> None \<and> rt_state r = ''running'' \<and> \<not> rt_orphaned r \<and>
       length (rt_container_id r) \<le> 200 \<and> length (rt_container_name r) \<le> 64 \<and> length (rt_stream_subfolder r) \<le> 64
   | _ \<Rightarrow> False"
  unfolding creation_defs sample_fingerprint by code_simp

lemma sample_creation:
  obtains r t where "create_runtime sample_agent sample_create sample_host = (Inr r, t)"
    and "rt_state r = ''running''" and "length (rt_container_id r) \<le> 200" and "length (rt_container_name r) \<le> 64"
    and "length (rt_stream_subfolder r) \<le> 64"
proof -
  obtain x t where run: "create_runtime sample_agent sample_create sample_host = (x, t)" by fastforce
  from sample_create_runs obtain r where x: "x = Inr r" unfolding run by (cases x) auto
  with sample_create_runs run show thesis by (intro that [of r t]) simp_all
qed

end
