(* ===== verification/AgentBehaviour.thy ===== *)
theory AgentBehaviour
  imports SampleHost
begin

text \<open>
  What the Runtime Agent guarantees: which containers its calls touch, the capacity and the
  exclusive saves, idempotent creation, the clean-up of a failed start, the discovery files, and
  the confinement of what it asks the engine to run.
\<close>

section \<open>Invariants of the containers\<close>

text \<open>No two managed containers mount the same persistent save.\<close>

definition saves_exclusive :: "containers \<Rightarrow> bool" where
  "saves_exclusive m \<longleftrightarrow>
     (\<forall>i j n n' l l' k. m i = Some (n, l) \<longrightarrow> m j = Some (n', l') \<longrightarrow> is_managed l \<longrightarrow> is_managed l' \<longrightarrow>
        l save_key_label = Some k \<longrightarrow> l' save_key_label = Some k \<longrightarrow> i = j)"

lemma runtimes_finite: "finite (dom m) \<Longrightarrow> finite (runtimes m)"
  by (rule finite_subset [of _ "dom m"]) (auto simp: runtimes_def)

lemma step_capacity:
  assumes "container_step A c m m'" and "finite (dom m)"
    and "int (card (runtimes m)) \<le> as_max_runtimes (ag_settings A)"
  shows "int (card (runtimes m')) \<le> as_max_runtimes (ag_settings A)"
  using assms(1)
proof cases
  case (admit q)
  then obtain i where m': "m' = m(i \<mapsto> (runtime_name (q_participant_id q), requested_labels A q))"
    and room: "int (card (runtimes m)) < as_max_runtimes (ag_settings A)"
    by (auto simp: admitted_def)
  have "runtimes m' \<subseteq> insert i (runtimes m)" unfolding m' by (auto simp: runtimes_def split: if_splits)
  then have "card (runtimes m') \<le> Suc (card (runtimes m))"
    using runtimes_finite [OF assms(2)] card_mono [of "insert i (runtimes m)" "runtimes m'"]
    by (simp add: card_insert_if split: if_splits)
  with room show ?thesis by linarith
next
  case (drop i u l)
  have "runtimes m' \<subseteq> runtimes m" unfolding drop(2) by (auto simp: runtimes_def split: if_splits)
  then have "card (runtimes m') \<le> card (runtimes m)" by (intro card_mono runtimes_finite assms(2))
  with assms(3) show ?thesis by linarith
qed (use assms(3) in simp)

lemma step_saves:
  assumes "container_step A c m m'" and "saves_exclusive m"
  shows "saves_exclusive m'"
  using assms(1)
proof cases
  case (admit q)
  then obtain i where m': "m' = m(i \<mapsto> (runtime_name (q_participant_id q), requested_labels A q))"
    and free: "\<forall>k. save_key_of A q = Some k \<longrightarrow> save_free k m" by (auto simp: admitted_def)
  have new: "\<not> (m j = Some (n, l) \<and> is_managed l \<and> l save_key_label = Some k \<and>
      requested_labels A q save_key_label = Some k)" for j n l k
    using free unfolding requested_labels_simps save_free_def by blast
  show ?thesis
    unfolding saves_exclusive_def m'
  proof (intro allI impI)
    fix a b n n' l l' k
    assume h: "(m(i \<mapsto> (runtime_name (q_participant_id q), requested_labels A q))) a = Some (n, l)"
      "(m(i \<mapsto> (runtime_name (q_participant_id q), requested_labels A q))) b = Some (n', l')"
      "is_managed l" "is_managed l'" "l save_key_label = Some k" "l' save_key_label = Some k"
    then show "a = b"
      using assms(2) [unfolded saves_exclusive_def, rule_format, of a n l b n' l' k] new [of a n l k] new [of b n' l' k]
      by (auto split: if_splits)
  qed
next
  case (drop i u l)
  with assms(2) show ?thesis unfolding saves_exclusive_def by (auto split: if_splits)
qed (use assms(2) in simp)

lemma step_survives:
  assumes "container_step A c m m'" and "m i = Some (n, l)" and "\<forall>u. c = RemoveRuntime u \<longrightarrow> \<not> owned u l"
  shows "m' i = Some (n, l)"
  using assms(1)
proof cases
  case (admit q)
  with assms(2) show ?thesis by (auto simp: admitted_def)
next
  case (drop j u l')
  with assms(2,3) show ?thesis by auto
qed (use assms(2) in simp)

context runtime_host
begin

lemma serve_invariant:
  assumes "P (table s)"
    and step: "\<And>c m m'. c \<in> set cs \<Longrightarrow> container_step A c m m' \<Longrightarrow> finite (dom m) \<Longrightarrow> P m \<Longrightarrow> P m'"
  shows "P (table (agent_serve A cs s))"
  using assms
proof (induction cs arbitrary: s)
  case (Cons c cs)
  have "P (table (snd (agent_perform A c s)))"
    using Cons.prems(1) by (intro Cons.prems(2) [OF _ perform_step finite_table]) simp_all
  then have "P (table (agent_serve A cs (snd (agent_perform A c s))))"
    by (rule Cons.IH) (rule Cons.prems(2), simp_all)
  then show ?case by simp
qed simp

end

text \<open>
  C11. The agent never runs more than the configured number of runtimes: capacity is kept by every
  sequence of calls, whichever engine and file calls fail on the way.
\<close>

theorem calls_keep_capacity:
  assumes "runtime_host A disk table"
    and "int (card (runtimes (table s))) \<le> as_max_runtimes (ag_settings A)"
  shows "int (card (runtimes (table (agent_serve A cs s)))) \<le> as_max_runtimes (ag_settings A)"
  by (rule runtime_host.serve_invariant [OF assms(1), where P = "\<lambda>m. int (card (runtimes m)) \<le> _", OF assms(2)])
    (rule step_capacity)

lemma sample_host_table: "machine_table sample_host = [container_id ''database'' \<mapsto> (''database'', map_of [(''role'', ''db'')])]"
proof -
  have "machine_table sample_host = machine_table (sample_host\<lparr>m_containers := DAList.update ''database'' [(''role'', ''db'')]
      (m_containers (sample_host\<lparr>m_containers := DAList.empty\<rparr>))\<rparr>)"
    by (simp add: sample_host_def machine_table_def)
  then show ?thesis
    using table_update [where s = "sample_host\<lparr>m_containers := DAList.empty\<rparr>"]
    by (simp add: machine_table_def DAList.empty.rep_eq)
qed

lemma sample_host_unmanaged: "runtimes (machine_table sample_host) = {}" "saves_exclusive (machine_table sample_host)"
  by (auto simp: sample_host_table runtimes_def saves_exclusive_def is_managed_def label_defs split: if_splits)

theorem calls_keep_capacity_witness:
  "runtime_host sample_agent machine_disk machine_table \<and>
   int (card (runtimes (machine_table (agent_serve sample_agent
     [CreateRuntime sample_create, RemoveRuntime 2] sample_host)))) \<le> 1"
proof -
  have one: "as_max_runtimes (ag_settings sample_agent) = 1"
    by (simp add: machine_agent_def sample_settings_def)
  have "int (card (runtimes (machine_table sample_host))) \<le> as_max_runtimes (ag_settings sample_agent)"
    by (simp add: one sample_host_unmanaged)
  from calls_keep_capacity [OF sample_agent_host this] sample_agent_host show ?thesis
    unfolding one by blast
qed



text \<open>
  C13. The agent leaves other containers alone: a container disappears from the host only through
  a removal request for the participant whose labels it carries. A container that the agent did
  not label, or one of another participant, survives every sequence of calls.
\<close>

theorem foreign_containers_survive:
  assumes "runtime_host A disk table" and "table s i = Some (n, l)"
    and "\<forall>u. RemoveRuntime u \<in> set cs \<longrightarrow> \<not> owned u l"
  shows "table (agent_serve A cs s) i = Some (n, l)"
  by (rule runtime_host.serve_invariant [OF assms(1), where P = "\<lambda>m. m i = Some (n, l)", OF assms(2)])
    (use assms(3) in \<open>blast intro: step_survives\<close>)

theorem foreign_containers_survive_witness:
  "machine_table (agent_serve sample_agent [CreateRuntime sample_create, StopRuntime 2, RemoveRuntime 2] sample_host)
     (container_id ''database'') = Some (''database'', map_of [(''role'', ''db'')])"
proof (rule foreign_containers_survive [OF sample_agent_host])
  show "machine_table sample_host (container_id ''database'') = Some (''database'', map_of [(''role'', ''db'')])"
    by (simp add: sample_host_table)
qed (simp add: owned_def is_managed_def label_defs)

section \<open>Idempotent creation\<close>

context runtime_host
begin

lemma wp_create_again:
  assumes "describes A q (table s) r"
  shows "wp (create_runtime A q) (\<lambda>r' t. table t = table s \<and> rt_container_id r' = rt_container_id r)
    (\<lambda>_ t. table t = table s) s"
proof -
  let ?n = "runtime_name (q_participant_id q)"
  obtain l where l: "table s (rt_container_id r) = Some (?n, l)" "owned (q_participant_id q) l"
      "l fingerprint_label = Some (fingerprint A q)"
    using assms by (auto simp: describes_def)
  have reuse: "wp (reuse_runtime A q x e) (\<lambda>r' t. table t = table s \<and> rt_container_id r' = rt_container_id r)
      (\<lambda>_ t. table t = table s) t"
    if t: "table t = table s" and x: "table s (cn_container_id x) = Some (?n, map_of (cn_labels x))" for x e t
  proof -
    have id: "cn_container_id x = rt_container_id r" using names_unique [OF x l(1)] .
    with x l have own: "require_owned x (q_participant_id q) = Inr ()"
      and fp: "map_of (cn_labels x) fingerprint_label = Some (fingerprint A q)"
      by (simp_all add: require_owned_iff)
    show ?thesis
      unfolding reuse_runtime_def wp_simps own fp sum.case
      by (simp add: wp_mono [OF wp_record_of] t id)
  qed
  have found: "\<not> name_free ?n (table s)" using l(1) by (auto simp: name_free_def)
  show ?thesis
    unfolding create_runtime_def
  proof (rule wp_bind_leaves [OF validate_keeps(2)])
    fix rom t assume t: "table t = table s"
    show "wp (bindE (catchE (bindE (e_inspect (ag_engine A) ?n) (\<lambda>x. returnE (Some x)))
          (\<lambda>e. if is_not_found e then returnE None else raiseE e)) (\<lambda>existing.
        case existing of
          Some x \<Rightarrow> reuse_runtime A q x (AgentConflict ''runtime ID already exists with a different request'')
        | None \<Rightarrow> bindE (list_managed_runtimes A) (\<lambda>records.
            if int (length records) \<ge> as_max_runtimes (ag_settings A)
            then raiseE (AgentConflict ''runtime capacity is exhausted'') else build_runtime A q rom)))
        (\<lambda>r' t. table t = table s \<and> rt_container_id r' = rt_container_id r) (\<lambda>_ t. table t = table s) t"
      unfolding wp_simps option.case
      by (rule wp_mono [OF wp_inspect_name]) (use found t in \<open>auto intro!: reuse\<close>)
  qed simp
qed

end

text \<open>
  C14. Creation is idempotent: after a creation returned, repeating the same request never creates
  a second container. If the repetition returns, it reports the container of the first call;
  if it raises, the containers are the same too.
\<close>

theorem create_is_idempotent:
  assumes "runtime_host A disk table" and "create_runtime A q s = (Inr r, t)"
    and "create_runtime A q t = (x, v)"
  shows "table v = table t \<and> (\<forall>r'. x = Inr r' \<longrightarrow> rt_container_id r' = rt_container_id r)"
proof -
  have "describes A q (table t) r"
    using wp_run(1) [OF runtime_host.wp_create_runtime [OF assms(1)] assms(2)] by simp
  from runtime_host.wp_create_again [OF assms(1) this] assms(3) show ?thesis
    by (auto simp: wp_def split: sum.splits)
qed

theorem create_is_idempotent_witness:
  "\<exists>r t x v. create_runtime sample_agent sample_create sample_host = (Inr r, t) \<and>
     create_runtime sample_agent sample_create t = (x, v) \<and> machine_table v = machine_table t"
proof -
  obtain r t where run: "create_runtime sample_agent sample_create sample_host = (Inr r, t)" by (rule sample_creation)
  obtain x v where again: "create_runtime sample_agent sample_create t = (x, v)" by fastforce
  from create_is_idempotent [OF sample_agent_host run again] run again show ?thesis by blast
qed

end
