(* ===== verification/AgentDiscovery.thy ===== *)
theory AgentDiscovery
  imports SampleHost
begin

text \<open>
  The discovery files the Runtime Agent leaves on disk: publishing and withdrawing them, the
  clean-up after a failed start, and the reconciliation with the containers that exist.
\<close>

text \<open>Whatever a first call does, a property the second one establishes holds when both return.\<close>

lemma wp_bind_any: "(\<And>a t. wp (g a) Q (\<lambda>_ _. True) t) \<Longrightarrow> wp (bindE f g) Q (\<lambda>_ _. True) s"
  unfolding wp_bindE by (rule wp_I) simp_all

section \<open>Single files\<close>

lemma other_extension:
  "discovery_path r ''.yml'' u \<noteq> discovery_path r' ''.json'' v"
  "discovery_path r ''.json'' u \<noteq> discovery_path r' ''.yml'' v"
  "discovery_path r ''.yml'' u \<noteq> discovery_path r' ''.tmp'' v"
  "discovery_path r ''.tmp'' u \<noteq> discovery_path r' ''.yml'' v"
  "discovery_path r ''.json'' u \<noteq> discovery_path r' ''.tmp'' v"
  "discovery_path r ''.tmp'' u \<noteq> discovery_path r' ''.json'' v"
proof -
  have "discovery_name u e \<noteq> discovery_name v e'"
    if "drop (length (discovery_name u e) - 4) (discovery_name u e) \<noteq>
        drop (length (discovery_name v e') - 4) (discovery_name v e')" for e e' using that by metis
  moreover have "drop (length (discovery_name w e) - 4) (discovery_name w e) = drop (length e - 4) (ustring_of e)"
    if "4 \<le> length e" for w e using that by (simp add: discovery_name_parts del: drop_append) (simp add: discovery_name_parts)
  ultimately show
    "discovery_path r ''.yml'' u \<noteq> discovery_path r' ''.json'' v"
    "discovery_path r ''.json'' u \<noteq> discovery_path r' ''.yml'' v"
    "discovery_path r ''.yml'' u \<noteq> discovery_path r' ''.tmp'' v"
    "discovery_path r ''.tmp'' u \<noteq> discovery_path r' ''.yml'' v"
    "discovery_path r ''.json'' u \<noteq> discovery_path r' ''.tmp'' v"
    "discovery_path r ''.tmp'' u \<noteq> discovery_path r' ''.json'' v"
    by (simp_all add: discovery_path_def ustring_of_def)
qed

context file_store
begin

lemma is_file_leaves: "leaves disk (f_is_file F p)"
  by (rule leavesI, rule wp_mono [OF is_file_law]) simp_all

lemma wp_route_publish:
  "wp (route_publish F root host u sub name)
     (\<lambda>_ t. disk t = (disk s)(discovery_path root ''.yml'' u \<mapsto> route_document host u sub name,
        discovery_path root ''.tmp'' u := None))
     (\<lambda>_ t. \<exists>c. disk t = (disk s)(discovery_path root ''.tmp'' u := c)) s"
proof -
  let ?tmp = "discovery_path root ''.tmp'' u" and ?dst = "discovery_path root ''.yml'' u"
  let ?doc = "route_document host u sub name"
  let ?Q = "\<lambda>_ t. disk t = (disk s)(?dst \<mapsto> ?doc, ?tmp := None)"
  let ?E = "\<lambda>_ t. \<exists>c. disk t = (disk s)(?tmp := c)"
  have move: "wp (f_replace F ?tmp ?dst) ?Q ?E t" if "disk t = (disk s)(?tmp \<mapsto> ?doc)" for t
    by (rule wp_mono [OF replace_law [OF other_extension(4)]])
      (use that other_extension(3) [of root u root u] in \<open>auto simp: fun_upd_twist\<close>)
  have mode: "wp (bindE (f_chmod F ?tmp 416) (\<lambda>_. f_replace F ?tmp ?dst)) ?Q ?E t"
    if "disk t = (disk s)(?tmp \<mapsto> ?doc)" for t
    using that by (intro wp_bind_leaves [OF chmod_keeps] move) auto
  show ?thesis
    unfolding route_publish_def Let_def wp_bindE [of "f_write F Yaml ?tmp ?doc"]
    by (rule wp_mono [OF write_law]) (use mode in auto)
qed

lemma wp_metrics_publish:
  "wp (metrics_publish F (Some root) u session core name token)
     (\<lambda>_ t. disk t = (disk s)(discovery_path root ''.json'' u \<mapsto> metrics_document u session core name token,
        discovery_path root ''.tmp'' u := None))
     (\<lambda>_ t. \<exists>c. disk t = (disk s)(discovery_path root ''.tmp'' u := c)) s"
proof -
  let ?tmp = "discovery_path root ''.tmp'' u" and ?dst = "discovery_path root ''.json'' u"
  let ?doc = "metrics_document u session core name token"
  let ?Q = "\<lambda>_ t. disk t = (disk s)(?dst \<mapsto> ?doc, ?tmp := None)"
  let ?E = "\<lambda>_ t. \<exists>c. disk t = (disk s)(?tmp := c)"
  have move: "wp (f_replace F ?tmp ?dst) ?Q ?E t" if "disk t = (disk s)(?tmp \<mapsto> ?doc)" for t
    by (rule wp_mono [OF replace_law [OF other_extension(6)]])
      (use that other_extension(5) [of root u root u] in \<open>auto simp: fun_upd_twist\<close>)
  have owner: "leaves disk (catchE (f_chown F ?tmp 65534 65534) (\<lambda>e. if is_os_error e then returnE () else raiseE e))"
    by (intro leaves_intros chown_keeps)
  have mode: "wp (bindE (f_chmod F ?tmp 416) (\<lambda>_.
      bindE (catchE (f_chown F ?tmp 65534 65534) (\<lambda>e. if is_os_error e then returnE () else raiseE e)) (\<lambda>_.
      f_replace F ?tmp ?dst))) ?Q ?E t"
    if "disk t = (disk s)(?tmp \<mapsto> ?doc)" for t
    using that by (intro wp_bind_leaves [OF chmod_keeps] wp_bind_leaves [OF owner] move) auto
  show ?thesis
    unfolding metrics_publish_def Let_def option.case wp_bindE [of "f_write F JsonLine ?tmp ?doc"]
    by (rule wp_mono [OF write_law]) (use mode in auto)
qed

lemma wp_list_discovered:
  "wp (list_discovered F root e)
     (\<lambda>us t. disk t = disk s \<and> distinct us \<and>
        set us = {u. \<exists>n. disk s (root @ [n]) \<noteq> None \<and> discovery_participant e n = Some u})
     (\<lambda>_ t. disk t = disk s) s"
  unfolding list_discovered_def wp_simps
  by (rule wp_mono [OF list_law]) (auto simp: set_map_filter)

text \<open>A loop that unlinks one file per element.\<close>

lemma wp_unlink_all:
  "wp (forE (\<lambda>u. f_unlink F (path_for u)) us)
     (\<lambda>_ t. disk t = (\<lambda>p. if p \<in> path_for ` set us then None else disk s p)) (\<lambda>_ _. True) s"
proof (induction us arbitrary: s)
  case (Cons u us)
  show ?case
    unfolding forE.simps wp_bindE
    by (rule wp_mono [OF unlink_law], rule wp_mono [OF Cons.IH]) (auto simp: fun_eq_iff)
qed (simp add: wp_simps)

end

text \<open>
  C15. Publishing and listing routes are inverse: after a publication that returned, the listing
  holds exactly the participants it held before and the published one, and the route exists.
\<close>

theorem published_route_is_listed:
  assumes "file_store F disk"
    and "route_participants F root s0 = (Inr before, s)"
    and "route_publish F root host u sub name s = (Inr (), t)"
    and "route_participants F root t = (Inr listed, v)"
    and "route_exists F root u v = (Inr b, w)"
  shows "set listed = insert u (set before) \<and> distinct listed \<and> b"
proof -
  let ?tmp = "discovery_path root ''.tmp'' u" and ?dst = "discovery_path root ''.yml'' u"
  have b: "disk s = disk s0" "set before = {v. \<exists>n. disk s0 (root @ [n]) \<noteq> None \<and> discovery_participant ''.yml'' n = Some v}"
    using wp_run(1) [OF file_store.wp_list_discovered [OF assms(1)] assms(2) [unfolded route_participants_def]] by simp_all
  have t: "disk t = (disk s)(?dst \<mapsto> route_document host u sub name, ?tmp := None)"
    using wp_run(1) [OF file_store.wp_route_publish [OF assms(1)] assms(3)] by simp
  have l: "disk v = disk t" "distinct listed"
    "set listed = {v. \<exists>n. disk t (root @ [n]) \<noteq> None \<and> discovery_participant ''.yml'' n = Some v}"
    using wp_run(1) [OF file_store.wp_list_discovered [OF assms(1)] assms(4) [unfolded route_participants_def]] by simp_all
  have tmp: "discovery_participant ''.yml'' (discovery_name u ''.tmp'') = None"
    by (simp add: discovery_participant_def discovery_name_parts Let_def)
  have at: "disk t (root @ [n]) = (if n = discovery_name u ''.tmp'' then None
      else if n = discovery_name u ''.yml'' then Some (route_document host u sub name) else disk s0 (root @ [n]))" for n
    by (simp add: t b(1) discovery_path_def)
  have differ: "discovery_name u ''.yml'' \<noteq> discovery_name u ''.tmp''"
    using other_extension(3) [of root u root u] by (simp add: discovery_path_def)
  have "v \<in> set listed \<longleftrightarrow> v = u \<or> v \<in> set before" for v
  proof
    assume "v \<in> set listed"
    then obtain n where n: "disk t (root @ [n]) \<noteq> None" "discovery_participant ''.yml'' n = Some v"
      unfolding l(3) by blast
    show "v = u \<or> v \<in> set before"
    proof (cases "n = discovery_name u ''.yml''")
      case True
      with n(2) show ?thesis by simp
    next
      case False
      with n(1) have "disk s0 (root @ [n]) \<noteq> None" unfolding at by (simp split: if_splits)
      with n(2) show ?thesis unfolding b(2) by blast
    qed
  next
    assume "v = u \<or> v \<in> set before"
    then show "v \<in> set listed"
    proof
      assume "v = u"
      with at [of "discovery_name u ''.yml''"] differ show ?thesis
        unfolding l(3) by (auto intro: exI [of _ "discovery_name u ''.yml''"])
    next
      assume "v \<in> set before"
      then obtain n where n: "disk s0 (root @ [n]) \<noteq> None" "discovery_participant ''.yml'' n = Some v"
        unfolding b(2) by blast
      have "n \<noteq> discovery_name u ''.tmp''" using n(2) tmp by auto
      with n(1) have "disk t (root @ [n]) \<noteq> None" unfolding at by simp
      with n(2) show ?thesis unfolding l(3) by blast
    qed
  qed
  then have "set listed = insert u (set before)" by blast
  moreover have b
    using wp_run(1) [OF file_store.is_file_law [OF assms(1)] assms(5) [unfolded route_exists_def]]
      other_extension(3) [of root u root u] by (simp add: l(1) t)
  ultimately show ?thesis using l(2) by blast
qed

theorem published_route_is_listed_witness:
  "\<exists>F disk listed t. file_store F disk \<and>
     route_participants F [[120]] (snd (route_publish F [[120]] None 5 ''/stream/5'' ''name'' sample_host)) = (Inr listed, t) \<and>
     set listed = {5}"
proof -
  let ?F = "machine_files sample_outside"
  have fs: "file_store ?F machine_disk"
    using machine.file_store_axioms [of sample_outside] by (simp add: machine_agent_def)
  have runs: "route_participants ?F [[120]] sample_host = (Inr [], sample_host)"
    "fst (route_publish ?F [[120]] None 5 ''/stream/5'' ''name'' sample_host) = Inr ()"
    by code_simp+
  obtain t where t: "route_publish ?F [[120]] None 5 ''/stream/5'' ''name'' sample_host = (Inr (), t)"
    using runs(2) by (metis fst_conv surj_pair)
  obtain listed where l: "route_participants ?F [[120]] t = (Inr listed, t)"
    by (simp add: route_participants_def list_discovered_def bindE_def returnE_def machine_files_def)
  obtain b where e: "route_exists ?F [[120]] 5 t = (Inr b, t)"
    by (simp add: route_exists_def machine_files_def)
  from published_route_is_listed [OF fs runs(1) t l e] fs l t show ?thesis
    by (intro exI [of _ ?F] exI [of _ machine_disk] exI [of _ listed] exI [of _ t]) simp
qed

section \<open>Withdrawing\<close>

definition no_discovery :: "'s agent \<Rightarrow> (path \<rightharpoonup> json) \<Rightarrow> uuid \<Rightarrow> bool" where
  "no_discovery A d u \<longleftrightarrow> d (discovery_path (route_root A) ''.yml'' u) = None \<and>
     (\<forall>r. metrics_root A = Some r \<longrightarrow> d (discovery_path r ''.json'' u) = None)"

context runtime_host
begin

lemma wp_metrics_remove:
  "wp (metrics_remove (ag_files A) (metrics_root A) u)
     (\<lambda>_ t. (\<forall>r. metrics_root A = Some r \<longrightarrow> disk t (discovery_path r ''.json'' u) = None) \<and>
        (\<forall>r v. disk t (discovery_path r ''.yml'' v) = disk s (discovery_path r ''.yml'' v)))
     (\<lambda>_ t. disk t = disk s) s"
proof (cases "metrics_root A")
  case (Some r)
  then show ?thesis
    unfolding metrics_remove_def Some option.case
    by (intro wp_mono [OF unlink_law]) (auto simp: other_extension)
qed (simp add: metrics_remove_def wp_simps)

lemma wp_withdraw:
  "wp (withdraw A u) (\<lambda>_ t. no_discovery A (disk t) u) (\<lambda>_ _. True) s"
  unfolding withdraw_def wp_bindE route_remove_def
  by (rule wp_mono [OF unlink_law], rule wp_mono [OF wp_metrics_remove]) (auto simp: no_discovery_def)

end

text \<open>
  C16. A removal that returns leaves nothing behind: the participant's container is gone, no other
  container is touched, and neither a route nor a metrics target of the participant is left.
\<close>

theorem removal_is_complete:
  assumes "runtime_host A disk table" and "remove_runtime A u s = (Inr (), t)"
  shows "(\<exists>i l. table s i = Some (runtime_name u, l) \<and> owned u l \<and> table t = (table s)(i := None)) \<and>
    name_free (runtime_name u) (table t) \<and> no_discovery A (disk t) u"
proof -
  obtain i l where i: "table s i = Some (runtime_name u, l)" "owned u l" "table t = (table s)(i := None)"
    using wp_run(1) [OF runtime_host.wp_remove_runtime [OF assms(1)] assms(2)] by blast
  have free: "name_free (runtime_name u) (table t)"
    using runtime_host.names_unique [OF assms(1) i(1)] by (auto simp: name_free_def i(3) split: if_splits)
  have "wp (remove_runtime A u) (\<lambda>_ t. no_discovery A (disk t) u) (\<lambda>_ _. True) s"
    unfolding remove_runtime_def by (intro wp_bind_any runtime_host.wp_withdraw [OF assms(1)])
  from wp_run(1) [OF this assms(2)] have "no_discovery A (disk t) u" .
  with i free show ?thesis by blast
qed

text \<open>A host with one runtime, that of participant 2.\<close>

definition busy_host :: "unit machine" where
  "busy_host = \<lparr>m_files = DAList.update (discovery_path [ustring_of ''routes''] ''.yml'' 2) JNull
       (DAList.update (discovery_path [ustring_of ''routes''] ''.yml'' 3) JNull DAList.empty),
     m_containers = DAList.update (runtime_name 2)
       [(managed_label, ''true''), (participant_label, uuid_str 2)] DAList.empty, m_world = ()\<rparr>"

lemma fst_run: "fst (f s) = Inr () \<Longrightarrow> \<exists>t. f s = (Inr (), t)"
  by (metis prod.collapse)

theorem removal_is_complete_witness:
  "\<exists>t. remove_runtime sample_agent 2 busy_host = (Inr (), t) \<and>
     name_free (runtime_name 2) (machine_table t) \<and> no_discovery sample_agent (machine_disk t) 2"
proof -
  have "fst (remove_runtime sample_agent 2 busy_host) = Inr ()" by code_simp
  then obtain t where t: "remove_runtime sample_agent 2 busy_host = (Inr (), t)" by (blast dest: fst_run)
  from removal_is_complete [OF sample_agent_host t] t show ?thesis by blast
qed

section \<open>A failed start\<close>

text \<open>Clean-up calls that succeed.\<close>

definition cleanup_succeeds :: "'s agent \<Rightarrow> ('s \<Rightarrow> containers) \<Rightarrow> bool" where
  "cleanup_succeeds A table \<longleftrightarrow>
     (\<forall>p s e t. f_unlink (ag_files A) p s \<noteq> (Inl e, t)) \<and>
     (\<forall>i s e t. e_stop (ag_engine A) i s = (Inl e, t) \<longrightarrow> is_agent_error e) \<and>
     (\<forall>i s e t. table s i \<noteq> None \<longrightarrow> e_remove (ag_engine A) i s \<noteq> (Inl e, t))"

context runtime_host
begin

lemma wp_abandon_complete:
  assumes "cleanup_succeeds A table" and "table s cid \<noteq> None"
  shows "wp (abandon_runtime A u cid e) (\<lambda>_ _. False)
    (\<lambda>x t. x = e \<and> table t = (table s)(cid := None) \<and> no_discovery A (disk t) u) s"
proof -
  let ?done = "\<lambda>x t. x = e \<and> table t = (table s)(cid := None) \<and> no_discovery A (disk t) u"
  have sure: "wp f Q (\<lambda>_ _. False) v" if "wp f Q E v" "\<And>e t. f v \<noteq> (Inl e, t)" for f :: "(agent_exn, 's, unit) prog" and Q E v
    using that by (auto simp: wp_def split: prod.splits sum.splits)
  have unlink: "wp (f_unlink (ag_files A) p) (\<lambda>_ t. disk t = (disk v)(p := None) \<and> table t = table v) (\<lambda>_ _. False) v" for p v
    using assms(1) unfolding cleanup_succeeds_def
    by (intro sure [OF wp_conj [OF unlink_law wp_leaves [OF files_keep(9)]]]) auto
  have drop: "wp (e_remove (ag_engine A) cid) (\<lambda>_ t. disk t = disk v \<and> table t = (table v)(cid := None)) (\<lambda>_ _. False) v"
    if "table v = table s" for v
    using assms that unfolding cleanup_succeeds_def by (intro sure [OF remove_law]) auto
  have rest: "wp (bindE (catchE (e_stop (ag_engine A) cid) (\<lambda>x. if is_agent_error x then returnE () else raiseE x)) (\<lambda>_.
      bindE (catchE (e_remove (ag_engine A) cid) (\<lambda>x. if is_agent_error x then returnE () else raiseE x)) (\<lambda>_.
      raiseE e))) (\<lambda>_ _. False) ?done v"
    if v: "table v = table s" "no_discovery A (disk v) u" for v
  proof -
    have stop: "wp (catchE (e_stop (ag_engine A) cid) (\<lambda>x. if is_agent_error x then returnE () else raiseE x))
        (\<lambda>_ t. (disk t, table t) = (disk v, table v)) (\<lambda>_ _. False) v"
      unfolding wp_simps
      by (rule wp_I) (use stop_keeps assms(1) in \<open>auto simp: leaves_def cleanup_succeeds_def dest: spec\<close>, (metis snd_conv)+)
    show ?thesis
      unfolding wp_bindE wp_raiseE
      by (rule wp_mono [OF stop]; simp add: wp_simps; rule wp_mono [OF drop]) (use v in auto)
  qed
  have routes: "wp (catchE (route_remove (ag_files A) (route_root A) u)
      (\<lambda>x. if is_os_error x then returnE () else raiseE x))
      (\<lambda>_ t. table t = table s \<and> no_discovery A (disk t) u) (\<lambda>_ _. False) v"
    if "table v = table s" "\<forall>r. metrics_root A = Some r \<longrightarrow> disk v (discovery_path r ''.json'' u) = None" for v
    unfolding route_remove_def wp_catchE
    by (rule wp_mono [OF unlink]) (use that in \<open>auto simp: no_discovery_def other_extension\<close>)
  have metrics: "wp (metrics_remove (ag_files A) (metrics_root A) u)
      (\<lambda>_ t. table t = table s \<and> (\<forall>r. metrics_root A = Some r \<longrightarrow> disk t (discovery_path r ''.json'' u) = None))
      (\<lambda>_ _. False) s"
  proof (cases "metrics_root A")
    case (Some r)
    then show ?thesis unfolding metrics_remove_def Some option.case by (intro wp_mono [OF unlink]) auto
  qed (simp add: metrics_remove_def wp_simps)
  show ?thesis
    unfolding abandon_runtime_def wp_bindE [of "metrics_remove f r u" for f r u] wp_bindE [of "catchE (route_remove f r u) h" for f r u h]
    by (rule wp_mono [OF metrics]; simp?; rule wp_mono [OF routes]; simp?; rule rest; simp)
qed

end

text \<open>
  C17. A start that fails is undone: when starting or publishing raises and the clean-up calls
  themselves succeed, the agent raises the original exception, the new container is removed,
  every other container stays, and no route or metrics target of the participant is left.
\<close>

theorem failed_start_is_undone:
  assumes "runtime_host A disk table" and "cleanup_succeeds A table" and "table s cid \<noteq> None"
    and "start_guarded A q cid s = (Inl e, t)"
  shows "\<exists>v. start_runtime A q cid s = (Inl e, v) \<and> table t = (table s)(cid := None) \<and>
    no_discovery A (disk t) (q_participant_id q)"
proof -
  obtain x v where run: "start_runtime A q cid s = (x, v)" by fastforce
  then obtain y where x: "x = Inl y" and ab: "abandon_runtime A (q_participant_id q) cid y v = (Inl e, t)"
    using assms(4) by (cases x) (auto simp: start_guarded_def catchE_def)
  have tv: "table v = table s"
    using runtime_host.start_runtime_keeps [OF assms(1)] run unfolding leaves_def by (metis snd_conv)
  with assms(3) have "table v cid \<noteq> None" by simp
  from wp_run(2) [OF runtime_host.wp_abandon_complete [OF assms(1,2) this] ab] run x tv show ?thesis by auto
qed

text \<open>A host on which starting a container fails.\<close>

definition failing_outside :: "string list \<Rightarrow> unit outside" where
  "failing_outside calls = sample_outside\<lparr>o_fault := (\<lambda>c w. (if c \<in> set calls then Some ''fault'' else None, w))\<rparr>"

abbreviation failing_agent :: "string list \<Rightarrow> unit machine agent" where
  "failing_agent calls \<equiv> machine_agent (failing_outside calls) sample_settings (\<lambda>_. ''digest'') (\<lambda>_ _. ''mac'') (\<lambda>t. t)"

lemma busy_host_table: "machine_table busy_host (container_id (runtime_name 2)) \<noteq> None"
proof -
  have "machine_table busy_host (container_id (runtime_name 2)) =
      Some (runtime_name 2, map_of [(managed_label, ''true''), (participant_label, uuid_str 2)])"
    unfolding table_iff by (simp add: busy_host_def)
  then show ?thesis by simp
qed

lemma failing_cleanup: "cleanup_succeeds (failing_agent [''start'']) machine_table"
proof -
  have ok: "o_fault (failing_outside [''start'']) c w = (None, w)" if "c \<noteq> ''start''" for c w
    using that by (simp add: failing_outside_def)
  have err: "is_agent_error no_such_container" by (simp add: no_such_container_def)
  have "found (s\<lparr>m_world := w\<rparr>) i = found s i" for s :: "unit machine" and w i
    by (simp add: found_def cong: option.case_cong)
  then have gone: "machine_table s i = None" if "found (s\<lparr>m_world := w\<rparr>) i = None" for s :: "unit machine" and w i
    using that found_None [of s i] by metis
  with err show ?thesis
    unfolding cleanup_succeeds_def machine_agent_def machine_files_def machine_engine_def call_def
    by (auto simp: bindE_def attempt_def ok modify_def returnE_def dest: gone split: prod.splits option.splits if_splits)
qed

theorem failed_start_is_undone_witness:
  "\<exists>e t. start_guarded (failing_agent [''start'']) sample_create (container_id (runtime_name 2)) busy_host = (Inl e, t) \<and>
     machine_table t = (machine_table busy_host)(container_id (runtime_name 2) := None) \<and>
     no_discovery (failing_agent [''start'']) (machine_disk t) 2"
proof -
  let ?run = "start_guarded (failing_agent [''start'']) sample_create (container_id (runtime_name 2)) busy_host"
  have "\<not> isl (fst ?run) \<longrightarrow> False" by code_simp
  then obtain e t where run: "?run = (Inl e, t)" by (metis isl_def prod.collapse)
  have u: "q_participant_id sample_create = 2" by (simp add: sample_create_def)
  from failed_start_is_undone [OF machine.runtime_host_axioms failing_cleanup busy_host_table run] run u
  show ?thesis by auto
qed

text \<open>
  C18. The clean-up is not safe against its own first step: the metrics target is removed outside
  any \<open>try\<close>. If that call raises, the agent skips the rest of the clean-up, and the
  container that failed to start stays on the host.
\<close>

theorem metrics_failure_leaks_container:
  assumes "runtime_host A disk table" and "metrics_root A = Some r" and "table s cid = Some (n, l)"
    and "\<forall>v. \<exists>e w. f_unlink (ag_files A) (discovery_path r ''.json'' (q_participant_id q)) v = (Inl e, w)"
    and "start_guarded A q cid s = (Inl e, t)"
  shows "table t cid = Some (n, l)"
proof -
  obtain x v where run: "start_runtime A q cid s = (x, v)" by fastforce
  then obtain y where ab: "abandon_runtime A (q_participant_id q) cid y v = (Inl e, t)"
    using assms(5) by (cases x) (auto simp: start_guarded_def catchE_def)
  obtain z w where fail: "f_unlink (ag_files A) (discovery_path r ''.json'' (q_participant_id q)) v = (Inl z, w)"
    using assms(4) by blast
  have "t = w" using ab fail by (simp add: abandon_runtime_def metrics_remove_def assms(2) bindE_def)
  moreover have "table w = table v"
    using runtime_host.files_keep(9) [OF assms(1)] fail unfolding leaves_def by (metis snd_conv)
  moreover have "table v = table s"
    using runtime_host.start_runtime_keeps [OF assms(1)] run unfolding leaves_def by (metis snd_conv)
  ultimately show ?thesis using assms(3) by simp
qed

theorem metrics_failure_leaks_container_witness:
  "\<exists>e t. start_guarded (failing_agent [''start'', ''unlink'']) sample_create (container_id (runtime_name 2)) busy_host = (Inl e, t) \<and>
     machine_table t (container_id (runtime_name 2)) \<noteq> None"
proof -
  let ?A = "failing_agent [''start'', ''unlink'']"
  let ?run = "start_guarded ?A sample_create (container_id (runtime_name 2)) busy_host"
  have "\<not> isl (fst ?run) \<longrightarrow> False" by code_simp
  then obtain e t where run: "?run = (Inl e, t)" by (metis isl_def prod.collapse)
  obtain n l where c: "machine_table busy_host (container_id (runtime_name 2)) = Some (n, l)"
    using busy_host_table by (metis option.exhaust surj_pair)
  have root: "metrics_root ?A = Some [ustring_of ''metrics'']"
    by (simp add: machine_agent_def sample_settings_def pure_path_of_def text_parts_def ustring_of_def)
  have "\<forall>v. \<exists>e w. f_unlink (ag_files ?A) p v = (Inl e, w)" for p
    by (simp add: machine_agent_def machine_files_def bindE_def attempt_def failing_outside_def)
  from metrics_failure_leaks_container [OF machine.runtime_host_axioms root c this run] run
  show ?thesis by auto
qed

section \<open>Reconciliation\<close>

context runtime_host
begin

lemma route_listed:
  assumes "set us = {u. \<exists>n. d (root @ [n]) \<noteq> None \<and> discovery_participant e n = Some u}"
    and "d (discovery_path root e u) \<noteq> None"
  shows "u \<in> set us"
  using assms(2) unfolding assms(1) discovery_path_def by (blast intro: discovery_roundtrip)

text \<open>The files of one directory after the orphans in its listing have been unlinked.\<close>

lemma wp_sweep:
  assumes "set us = {u. \<exists>n. disk s (root @ [n]) \<noteq> None \<and> discovery_participant e n = Some u}"
  shows "wp (forE (\<lambda>u. f_unlink (ag_files A) (discovery_path root e u)) (filter (\<lambda>u. u \<notin> M) us))
    (\<lambda>_ t. (\<forall>u. disk t (discovery_path root e u) = (if u \<in> M then disk s (discovery_path root e u) else None)) \<and>
       (\<forall>p. p \<notin> range (discovery_path root e) \<longrightarrow> disk t p = disk s p)) (\<lambda>_ _. True) s"
proof (rule wp_mono [OF wp_unlink_all])
  fix t
  let ?p = "discovery_path root e"
  assume t: "disk t = (\<lambda>p. if p \<in> ?p ` set (filter (\<lambda>u. u \<notin> M) us) then None else disk s p)"
  have "disk t (?p u) = (if u \<in> M then disk s (?p u) else None)" for u
    using route_listed [OF assms, of u] by (auto simp: t)
  then show "(\<forall>u. disk t (?p u) = (if u \<in> M then disk s (?p u) else None)) \<and>
      (\<forall>p. p \<notin> range ?p \<longrightarrow> disk t p = disk s p)" by (auto simp: t)
qed simp

lemma wp_reconcile_metrics:
  "wp (bindE (metrics_participants (ag_files A) (metrics_root A)) (\<lambda>targets.
      bindE (forE (metrics_remove (ag_files A) (metrics_root A)) (filter (\<lambda>u. u \<notin> M) targets)) (\<lambda>_.
      returnE (f targets))))
    (\<lambda>_ t. \<forall>u. (\<forall>r. disk t (discovery_path r ''.yml'' u) = disk s (discovery_path r ''.yml'' u)) \<and>
       (\<forall>r. metrics_root A = Some r \<longrightarrow> disk t (discovery_path r ''.json'' u) =
         (if u \<in> M then disk s (discovery_path r ''.json'' u) else None)))
    (\<lambda>_ _. True) s"
proof (cases "metrics_root A")
  case None
  have none: "forE (metrics_remove (ag_files A) None) [] = returnE ()" by simp
  show ?thesis unfolding None by (simp add: metrics_participants_def wp_simps)
next
  case (Some r)
  have remove: "metrics_remove (ag_files A) (Some r) = (\<lambda>u. f_unlink (ag_files A) (discovery_path r ''.json'' u))"
    by (simp add: fun_eq_iff metrics_remove_def)
  have yml: "discovery_path x ''.yml'' u \<notin> range (discovery_path r ''.json'')" for x u
    using other_extension(1) by blast
  show ?thesis
    unfolding Some metrics_participants_def option.case remove wp_simps
  proof (rule wp_mono [OF wp_list_discovered], elim conjE)
    fix us t assume "disk t = disk s"
      and "set us = {u. \<exists>n. disk s (r @ [n]) \<noteq> None \<and> discovery_participant ''.json'' n = Some u}"
    then show "wp (forE (\<lambda>u. f_unlink (ag_files A) (discovery_path r ''.json'' u)) (filter (\<lambda>u. u \<notin> M) us))
        (\<lambda>_ t. \<forall>u. (\<forall>x. disk t (discovery_path x ''.yml'' u) = disk s (discovery_path x ''.yml'' u)) \<and>
           (\<forall>x. Some r = Some x \<longrightarrow> disk t (discovery_path x ''.json'' u) =
             (if u \<in> M then disk s (discovery_path x ''.json'' u) else None))) (\<lambda>_ _. True) t"
      by (intro wp_mono [OF wp_sweep [of us t]]) (auto simp: yml)
  qed simp
qed

lemma wp_reconcile:
  "wp (reconcile_routes A)
    (\<lambda>_ t. \<forall>u. disk t (discovery_path (route_root A) ''.yml'' u) =
         (if u \<in> participants (table s) then disk s (discovery_path (route_root A) ''.yml'' u) else None) \<and>
       (\<forall>r. metrics_root A = Some r \<longrightarrow> disk t (discovery_path r ''.json'' u) =
         (if u \<in> participants (table s) then disk s (discovery_path r ''.json'' u) else None)))
    (\<lambda>_ _. True) s"
proof -
  let ?root = "route_root A"
  have remove: "route_remove (ag_files A) ?root = (\<lambda>u. f_unlink (ag_files A) (discovery_path ?root ''.yml'' u))"
    by (simp add: fun_eq_iff route_remove_def)
  have json: "discovery_path x ''.json'' u \<notin> range (discovery_path ?root ''.yml'')" for x u
    using other_extension(2) by blast
  let ?M = "participants (table s)"
  let ?Q = "\<lambda>_ t. \<forall>u. disk t (discovery_path ?root ''.yml'' u) =
        (if u \<in> ?M then disk s (discovery_path ?root ''.yml'' u) else None) \<and>
      (\<forall>r. metrics_root A = Some r \<longrightarrow> disk t (discovery_path r ''.json'' u) =
        (if u \<in> ?M then disk s (discovery_path r ''.json'' u) else None))"
  have swept: "wp (bindE (forE (route_remove (ag_files A) ?root) (filter (\<lambda>u. u \<notin> ?M) us)) (\<lambda>_.
      bindE (metrics_participants (ag_files A) (metrics_root A)) (\<lambda>targets.
      bindE (forE (metrics_remove (ag_files A) (metrics_root A)) (filter (\<lambda>u. u \<notin> ?M) targets)) (\<lambda>_.
      returnE (f targets))))) ?Q (\<lambda>_ _. True) t"
    if "disk t = disk s" "set us = {u. \<exists>n. disk s (?root @ [n]) \<noteq> None \<and> discovery_participant ''.yml'' n = Some u}"
    for us t and f :: "uuid list \<Rightarrow> int"
    unfolding remove wp_bindE [of "forE g xs" for g xs]
    by (rule wp_mono [OF wp_sweep [of us t]], use that in simp, rule wp_mono [OF wp_reconcile_metrics])
      (use that in \<open>auto simp: json\<close>)
  show ?thesis
    unfolding reconcile_routes_def Let_def route_participants_def wp_bindE [of "list_managed_runtimes A"]
  proof (rule wp_mono [OF wp_list_managed], elim conjE)
    fix records t
    assume t: "disk t = disk s" and M: "set (map rt_participant_id records) = ?M"
    show "wp (bindE (list_discovered (ag_files A) ?root ''.yml'') (\<lambda>routed.
        bindE (forE (route_remove (ag_files A) ?root) (filter (\<lambda>u. u \<notin> set (map rt_participant_id records)) routed)) (\<lambda>_.
        bindE (metrics_participants (ag_files A) (metrics_root A)) (\<lambda>targets.
        bindE (forE (metrics_remove (ag_files A) (metrics_root A))
          (filter (\<lambda>u. u \<notin> set (map rt_participant_id records)) targets)) (\<lambda>_.
        returnE (int (length (remdups (filter (\<lambda>u. u \<notin> set (map rt_participant_id records)) routed @
          filter (\<lambda>u. u \<notin> set (map rt_participant_id records)) targets)))))))))
        ?Q (\<lambda>_ _. True) t"
      unfolding M wp_bindE [of "list_discovered f r e" for f r e]
      by (rule wp_mono [OF wp_list_discovered]) (use swept t in auto)
  qed simp
qed

end

text \<open>
  C19. Reconciliation leaves exactly the discovery files of managed runtimes: when it returns,
  each participant's route and metrics target are as before if a managed container of the
  participant exists, and gone otherwise.
\<close>

theorem reconciliation_is_exact:
  assumes "runtime_host A disk table" and "reconcile_routes A s = (Inr n, t)"
  shows "disk t (discovery_path (route_root A) ''.yml'' u) =
      (if u \<in> participants (table s) then disk s (discovery_path (route_root A) ''.yml'' u) else None) \<and>
    (\<forall>r. metrics_root A = Some r \<longrightarrow> disk t (discovery_path r ''.json'' u) =
      (if u \<in> participants (table s) then disk s (discovery_path r ''.json'' u) else None))"
  using wp_run(1) [OF runtime_host.wp_reconcile [OF assms(1)] assms(2)] by blast

theorem reconciliation_is_exact_witness:
  "\<exists>t. reconcile_routes sample_agent busy_host = (Inr 1, t) \<and>
     machine_disk t (discovery_path [ustring_of ''routes''] ''.yml'' 2) \<noteq> None \<and>
     machine_disk t (discovery_path [ustring_of ''routes''] ''.yml'' 3) = None"
proof -
  have "fst (reconcile_routes sample_agent busy_host) = Inr 1" by code_simp
  then obtain t where t: "reconcile_routes sample_agent busy_host = (Inr 1, t)" by (metis prod.collapse)
  have root: "route_root sample_agent = [ustring_of ''routes'']"
    by (simp add: machine_agent_def sample_settings_def pure_path_of_def text_parts_def ustring_of_def)
  have table: "machine_table busy_host i = Some (n, l) \<Longrightarrow> l = map_of [(managed_label, ''true''), (participant_label, uuid_str 2)]"
    "machine_table busy_host (container_id (runtime_name 2)) =
       Some (runtime_name 2, map_of [(managed_label, ''true''), (participant_label, uuid_str 2)])" for i n l
    unfolding table_iff by (auto simp: busy_host_def DAList.lookup_update DAList.lookup_empty split: if_splits)
  have two: "runtime_of (map_of [(managed_label, ''true''), (participant_label, uuid_str 2)]) = Some 2"
    "is_managed (map_of [(managed_label, ''true''), (participant_label, uuid_str 2)])"
    by (simp_all add: runtime_of_def is_managed_def label_defs uuid_roundtrip(1))
  have "2 \<in> participants (machine_table busy_host)" unfolding participants_def using table(2) two by blast
  moreover have "3 \<notin> participants (machine_table busy_host)"
    unfolding participants_def using table(1) two(1) by auto
  moreover have "machine_disk busy_host (discovery_path [ustring_of ''routes''] ''.yml'' 2) \<noteq> None"
    by (simp add: machine_disk_def busy_host_def)
  ultimately show ?thesis
    using t reconciliation_is_exact [OF sample_agent_host t, of 2] reconciliation_is_exact [OF sample_agent_host t, of 3]
    unfolding root by auto
qed

end
