(* ===== verification/AgentConfinement.thy ===== *)
theory AgentConfinement
  imports SampleHost
begin

text \<open>
  What the Runtime Agent asks the container engine to run: whatever a validated or malicious
  request says, the payload is confined by the operator's configuration.
\<close>

section \<open>Confined payloads\<close>

definition forbidden_networks :: "string set" where
  "forbidden_networks = {''host'', ''none'', ''bridge'', ''default''}"

text \<open>A mount is one of three targets, and the ROM is mounted read-only.\<close>

definition mount_ok :: "json \<Rightarrow> bool" where
  "mount_ok m \<longleftrightarrow> json_get m ''Type'' = Some (JStr ''bind'') \<and>
     (case json_get m ''Target'' of
        Some (JText t) \<Rightarrow> t = ustring_of ''/run/retro-session'' \<or> t = ustring_of ''/run/retro-saves'' \<or>
          take 14 t = ustring_of ''/run/roms/game'' \<and> json_get m ''ReadOnly'' = Some (JBool True)
      | _ \<Rightarrow> False)"

definition host_keys :: "string list" where
  "host_keys = [''Mounts'', ''NetworkMode'', ''Memory'', ''NanoCpus'', ''PidsLimit'', ''ShmSize'', ''Init'',
     ''CapDrop'', ''SecurityOpt'', ''Privileged'', ''DeviceRequests'']"

definition host_config_ok :: "agent_settings \<Rightarrow> json \<Rightarrow> bool" where
  "host_config_ok c h \<longleftrightarrow>
     (case object_keys h of None \<Rightarrow> False | Some ks \<Rightarrow> set ks \<subseteq> set host_keys) \<and>
     json_get h ''Privileged'' = Some (JBool False) \<and>
     json_get h ''CapDrop'' = Some (JList [JStr ''ALL'']) \<and>
     json_get h ''SecurityOpt'' = Some (JList [JStr ''no-new-privileges:true'']) \<and>
     json_get h ''Memory'' = Some (JInt (as_memory_bytes c)) \<and>
     json_get h ''NanoCpus'' = Some (JInt (as_nano_cpus c)) \<and>
     json_get h ''PidsLimit'' = Some (JInt (as_pids_limit c)) \<and>
     (json_get h ''DeviceRequests'' \<noteq> None \<longrightarrow> ''nvidia'' \<in> as_gpu_profiles c) \<and>
     (case json_get h ''NetworkMode'' of
        Some (JStr n) \<Rightarrow> n \<in> as_approved_networks c \<and> n \<notin> forbidden_networks | _ \<Rightarrow> False) \<and>
     (case json_get h ''Mounts'' of Some (JList ms) \<Rightarrow> length ms \<le> 3 \<and> list_all mount_ok ms | _ \<Rightarrow> False)"

definition endpoints_ok :: "agent_settings \<Rightarrow> json \<Rightarrow> bool" where
  "endpoints_ok c n \<longleftrightarrow>
     (case json_get n ''EndpointsConfig'' of
        Some (JObj es) \<Rightarrow> fst ` set es \<subseteq> as_approved_networks c - forbidden_networks | _ \<Rightarrow> False)"

definition confined :: "agent_settings \<Rightarrow> json \<Rightarrow> bool" where
  "confined c d \<longleftrightarrow> json_get d ''Image'' = Some (JStr (as_approved_image c)) \<and>
     (case json_get d ''HostConfig'' of None \<Rightarrow> False | Some h \<Rightarrow> host_config_ok c h) \<and>
     (case json_get d ''NetworkingConfig'' of None \<Rightarrow> False | Some n \<Rightarrow> endpoints_ok c n)"

text \<open>An engine that refuses every other payload.\<close>

definition refusing :: "agent_settings \<Rightarrow> 's engine \<Rightarrow> 's engine" where
  "refusing c E = E\<lparr>e_create := (\<lambda>n d. if confined c d then e_create E n d else raiseE (AgentOther ''refused''))\<rparr>"

section \<open>The payload of an approved request\<close>

definition approved :: "agent_settings \<Rightarrow> create_request \<Rightarrow> bool" where
  "approved c q \<longleftrightarrow> q_image q = as_approved_image c \<and> q_stream_network q \<in> as_approved_networks c \<and>
     q_netplay_network q \<in> as_approved_networks c \<and> gpu_profile_text (q_gpu_profile q) \<in> as_gpu_profiles c"

lemma validate_approves:
  assumes "validate_request A q s = (Inr rom, t)"
  shows "approved (ag_settings A) q"
  using assms by (auto simp: validate_request_def Let_def raiseE_def approved_def split: if_splits)

definition mounts_ok :: "json list \<Rightarrow> bool" where
  "mounts_ok ms \<longleftrightarrow> length ms \<le> 3 \<and> list_all mount_ok ms"

lemma mount_ok_bind:
  "mount_ok (bind_mount src (container_rom A sfx) True)"
  "mount_ok (bind_mount src (ustring_of ''/run/retro-session'') False)"
  "mount_ok (bind_mount src (ustring_of ''/run/retro-saves'') False)"
  by (simp_all add: mount_ok_def bind_mount_def container_rom_def)

lemma payload_mounts:
  assumes "payload A q rom dir fp sd sk s = (Inr doc, t)"
  shows "\<exists>env ms. doc = container_payload (ag_settings A) q env (labels q fp sk) ms \<and> mounts_ok ms"
proof -
  have saves: "wp (save_mount A sd) (\<lambda>ms _. length ms \<le> 1 \<and> list_all mount_ok ms) (\<lambda>_ _. True) v" for v
    unfolding save_mount_def wp_simps
    by (auto split: option.splits simp: Let_def wp_simps mount_ok_bind intro!: wp_I)
  have "wp (payload A q rom dir fp sd sk)
      (\<lambda>doc _. \<exists>env ms. doc = container_payload (ag_settings A) q env (labels q fp sk) ms \<and> mounts_ok ms) (\<lambda>_ _. True) s"
    unfolding payload_def Let_def
  proof (intro wp_I TrueI)
    fix doc t
    assume "bindE (relative_below A rom (as_rom_root (ag_settings A))) (\<lambda>rom_relative.
      bindE (relative_below A dir (as_user_data_root (ag_settings A))) (\<lambda>data_relative.
      bindE (docker_root A (as_docker_rom_root (ag_settings A)) (as_rom_root (ag_settings A))) (\<lambda>rom_root.
      bindE (docker_root A (as_docker_user_data_root (ag_settings A)) (as_user_data_root (ag_settings A))) (\<lambda>data_root.
      bindE (save_mount A sd) (\<lambda>saves.
      bindE (resultE (environment A q)) (\<lambda>env.
      returnE (container_payload (ag_settings A) q env (labels q fp sk)
        ([bind_mount (docker_path rom_root rom_relative) (container_rom A (path_suffix rom)) True,
          bind_mount (docker_path data_root data_relative) (ustring_of ''/run/retro-session'') False] @ saves)))))))) s = (Inr doc, t)"
    then show "\<exists>env ms. doc = container_payload (ag_settings A) q env (labels q fp sk) ms \<and> mounts_ok ms"
      by (auto simp: bindE_def resultE_def returnE_def mounts_ok_def mount_ok_bind
          dest!: wp_run(1) [OF saves] split: prod.splits sum.splits) (intro exI conjI, rule refl, auto simp: mount_ok_bind)
  qed
  from wp_run(1) [OF this assms] show ?thesis .
qed

lemma approved_payload_confined:
  assumes "approved c q" and "safe_networks c" and "mounts_ok ms"
  shows "confined c (container_payload c q env lbls ms)"
proof -
  have nets: "q_stream_network q \<notin> forbidden_networks" "q_netplay_network q \<notin> forbidden_networks"
    using assms(1,2) by (auto simp: approved_def safe_networks_def forbidden_networks_def)
  have "host_config_ok c (host_config c q ms)"
    using assms nets(1) unfolding host_config_ok_def host_config_def
    by (cases "q_gpu_profile q") (auto simp: approved_def mounts_ok_def host_keys_def)
  moreover have "endpoints_ok c (JObj [(''EndpointsConfig'',
      JObj [(q_stream_network q, JObj []), (q_netplay_network q, JObj [])])])"
    using assms(1) nets by (simp add: endpoints_ok_def approved_def)
  ultimately show ?thesis using assms(1) by (simp add: confined_def container_payload_def approved_def)
qed

section \<open>Nothing else reaches the engine\<close>

lemma bindE_cong_run:
  "(\<And>a t. f s = (Inr a, t) \<Longrightarrow> g a t = h a t) \<Longrightarrow> bindE f g s = bindE f h s"
  by (auto simp: bindE_def split: prod.splits sum.splits)

lemma refusing_fields [simp]:
  "e_inspect (refusing c E) = e_inspect E" "e_list (refusing c E) = e_list E" "e_start (refusing c E) = e_start E"
  "e_stop (refusing c E) = e_stop E" "e_remove (refusing c E) = e_remove E" "e_ping (refusing c E) = e_ping E"
  by (simp_all add: refusing_def)

lemma refusing_parts:
  fixes A :: "'s agent" and c :: agent_settings
  defines "B \<equiv> A\<lparr>ag_engine := refusing c (ag_engine A)\<rparr>"
  shows "validate_request B = validate_request A" "fingerprint B = fingerprint A" "save_key_of B = save_key_of A"
    "prepare_saves B = prepare_saves A" "runtime_directory B = runtime_directory A"
    "write_runtime_spec B = write_runtime_spec A" "payload B = payload A" "reuse_runtime B = reuse_runtime A"
    "launch_runtime B = launch_runtime A" "list_managed_runtimes B = list_managed_runtimes A"
    "ag_settings B = ag_settings A" "e_inspect (ag_engine B) = e_inspect (ag_engine A)"
proof -
  have fp: "fingerprint B = fingerprint A" and key: "persistence_key B = persistence_key A"
    and mt: "metrics_token B = metrics_token A" and rec: "record_of B = record_of A"
    and own: "assign_runtime_owner B = assign_runtime_owner A" and rom: "container_rom B = container_rom A"
    and docker: "docker_root B = docker_root A" and rel: "relative_below B = relative_below A"
    and save: "save_mount B = save_mount A" and web: "webrtc_environment B = webrtc_environment A"
    by (simp_all add: B_def fun_eq_iff fingerprint_def persistence_key_def metrics_token_def record_of_def
        assign_runtime_owner_def container_rom_def docker_root_def relative_below_def save_mount_def
        webrtc_environment_def cong: if_cong option.case_cong list.case_cong)
  have env: "environment B = environment A"
    unfolding environment_def web mt by (simp add: B_def cong: if_cong)
  show "validate_request B = validate_request A" "save_key_of B = save_key_of A"
    "runtime_directory B = runtime_directory A" "write_runtime_spec B = write_runtime_spec A"
    "payload B = payload A" "reuse_runtime B = reuse_runtime A" "fingerprint B = fingerprint A"
    "list_managed_runtimes B = list_managed_runtimes A"
    "ag_settings B = ag_settings A" "e_inspect (ag_engine B) = e_inspect (ag_engine A)"
    unfolding validate_request_def save_key_of_def runtime_directory_def write_runtime_spec_def runtime_spec_def
      payload_def reuse_runtime_def list_managed_runtimes_def key own rom docker rel save env fp rec
    by (simp_all add: B_def fun_eq_iff cong: if_cong option.case_cong)
  have dir: "persistence_directory B = persistence_directory A"
    unfolding persistence_directory_def own by (simp add: B_def fun_eq_iff cong: if_cong option.case_cong)
  have avail: "require_available_persistence B = require_available_persistence A"
    by (simp add: B_def fun_eq_iff require_available_persistence_def)
  show "prepare_saves B = prepare_saves A" unfolding prepare_saves_def dir avail ..
  have start: "start_guarded B = start_guarded A"
    unfolding start_guarded_def start_runtime_def abandon_runtime_def mt by (simp add: B_def fun_eq_iff)
  show "launch_runtime B = launch_runtime A"
    unfolding launch_runtime_def start rec by (simp add: B_def fun_eq_iff)
qed

text \<open>
  Every container the agent asks for is confined: over a validated configuration, replacing
  the engine by one that refuses any payload but a confined one makes no difference to
  \<open>create_runtime\<close>. So the image is the approved one, the container is unprivileged with all
  capabilities dropped and fixed limits, its networks are approved ones and never the host's,
  the ROM is mounted read-only and nothing is mounted but the ROM, the runtime's own
  directory and the owner's save.
\<close>

lemma create_runtime_confined:
  assumes "make_agent_settings (ag_settings A) = Inr c"
  shows "create_runtime (A\<lparr>ag_engine := refusing c (ag_engine A)\<rparr>) q s = create_runtime A q s"
proof -
  let ?B = "A\<lparr>ag_engine := refusing c (ag_engine A)\<rparr>"
  have c: "ag_settings A = c" and safe: "safe_networks c"
    using assms by (auto simp: make_agent_settings_def split: if_splits)
  note parts = refusing_parts [of c A]
  have made: "create_container ?B q doc = create_container A q doc" if "confined c doc" for doc
    using that unfolding create_container_def Let_def parts by (simp add: refusing_def cong: if_cong)
  have build: "build_runtime ?B q rom v = build_runtime A q rom v" if ok: "approved c q" for rom v
  proof -
    have "create_container ?B q doc = create_container A q doc"
      if "payload A q rom dir (fingerprint A q) sd (save_key_of A q) w = (Inr doc, x)" for dir sd w doc x
      using payload_mounts [OF that] approved_payload_confined [OF ok safe] made c by auto
    then show ?thesis
      unfolding build_runtime_def parts by (intro bindE_cong_run) simp
  qed
  have same: "build_runtime ?B q = build_runtime A q" if "approved c q"
    using build [OF that] by (simp add: fun_eq_iff)
  show ?thesis
    unfolding create_runtime_def parts
    by (rule bindE_cong_run) (drule validate_approves, simp only: c same)
qed

text \<open>No other call creates a container, so the same holds of every call.\<close>

lemma agent_perform_confined:
  assumes "make_agent_settings (ag_settings A) = Inr c"
  shows "agent_perform (A\<lparr>ag_engine := refusing c (ag_engine A)\<rparr>) k s = agent_perform A k s"
proof (cases k)
  case (CreateRuntime q)
  have "create_runtime (A\<lparr>ag_engine := refusing c (ag_engine A)\<rparr>) q = create_runtime A q"
    using create_runtime_confined [OF assms, of q] by (rule ext)
  then show ?thesis by (simp add: CreateRuntime)
qed (simp_all add: inspect_runtime_def stop_runtime_def remove_runtime_def withdraw_def reconcile_routes_def
    agent_capacity_of_def agent_health_def record_of_def refusing_parts cong: if_cong)

section \<open>Specification and mount agree\<close>

text \<open>A path of plain components is read back from its text.\<close>

definition plain_path :: "path \<Rightarrow> bool" where
  "plain_path p \<longleftrightarrow> list_all (\<lambda>w. w \<noteq> [] \<and> w \<noteq> [46] \<and> 47 \<notin> set w) p"

lemma path_text_roundtrip:
  assumes "plain_path p"
  shows "pure_path_of (path_text p) = at_root p"
proof -
  have "filter (\<lambda>w. w \<noteq> [] \<and> w \<noteq> [46]) (split_at 47 (concat (map (\<lambda>w. 47 # w) p))) = p" if "p \<noteq> []" "plain_path p" for p
    using that
  proof (induction p)
    case (Cons w p)
    show ?case
    proof (cases "p = []")
      case True
      with Cons.prems show ?thesis by (simp add: plain_path_def split_at_plain)
    next
      case False
      then obtain v ps where p: "p = v # ps" by (cases p) auto
      have "split_at 47 (47 # w @ 47 # v @ concat (map (\<lambda>w. 47 # w) ps)) =
          [] # w # split_at 47 (v @ concat (map (\<lambda>w. 47 # w) ps))"
        using Cons.prems(2) by (simp add: plain_path_def split_at_append)
      with Cons p show ?thesis by (simp add: plain_path_def)
    qed
  qed simp
  then have "text_parts 47 (path_text p) = p"
    using assms by (cases "p = []") (simp_all add: text_parts_def path_text_def)
  moreover have "take 1 (path_text p) = [47]" by (cases p) (simp_all add: path_text_def)
  ultimately show ?thesis by (simp add: pure_path_of_def at_root_def)
qed

text \<open>
  The file the runtime specification names is the one that is mounted, whenever the requested
  path is the text of its own resolution, as the manager sends it: the specification's
  \<open>canonical_path\<close> equals the target of the read-only ROM mount.
\<close>

theorem specification_names_mounted_rom:
  assumes "plain_path rom" and "q_rom_path q = path_text rom"
  shows "json_get (runtime_spec A q) ''game'' =
    Some (JObj [(''canonical_path'', JText (container_rom A (path_suffix rom))), (''expected_sha256'', JStr (q_rom_sha256 q))])"
  using path_text_roundtrip [OF assms(1)] by (simp add: runtime_spec_def assms(2) at_root_def)

theorem specification_names_mounted_rom_witness:
  "json_get (runtime_spec sample_agent sample_create) ''game'' =
     Some (JObj [(''canonical_path'', JText (container_rom sample_agent (ustring_of ''.sfc''))),
       (''expected_sha256'', JStr (q_rom_sha256 sample_create))])"
proof -
  let ?rom = "map ustring_of [''roms'', ''a.sfc'']"
  have "plain_path ?rom" "q_rom_path sample_create = path_text ?rom" "path_suffix ?rom = ustring_of ''.sfc''"
    by (simp_all add: plain_path_def sample_create_def path_text_def ustring_of_def path_suffix_def name_suffix_def)
  with specification_names_mounted_rom [of ?rom sample_create sample_agent] show ?thesis by simp
qed

end
