(* ===== verification/DockerClient.thy ===== *)
theory DockerClient
  imports AgentService "HOL-Library.AList"
begin

text \<open>
  \<open>docker/client.py\<close> of the Runtime Agent: the engine the service uses, over an HTTP exchange with
  the Docker daemon. The exchange raises \<open>OSError\<close> (\<open>AgentOS\<close>) or another exception; the JSON
  reader raises \<open>JSONDecodeError\<close> and \<open>UnicodeDecodeError\<close>, which are \<open>ValueError\<close>s.
  \<open>dk_decode\<close> is \<open>bytes.decode("utf-8", errors="replace")\<close>. Identifiers, names, labels and versions
  are read as ASCII: a character outside it stands as one that no pattern of the agent allows.
\<close>

type_synonym 's exchange = "string \<Rightarrow> string \<Rightarrow> json option \<Rightarrow> (agent_exn, 's, int \<times> string) prog"
type_synonym agent_reader = "string \<Rightarrow> agent_exn + json"

record 's docker =
  dk_exchange :: "'s exchange"
  dk_loads :: agent_reader
  dk_decode :: "string \<Rightarrow> string"
  dk_prefix :: string

fun os_message :: "agent_exn \<Rightarrow> string" where
  "os_message (AgentOS m) = m"
| "os_message _ = []"

definition json_decode_error :: agent_exn where
  "json_decode_error = AgentValue ''JSONDecodeError''"

definition unicode_decode_error :: agent_exn where
  "unicode_decode_error = AgentValue ''UnicodeDecodeError''"

section \<open>Requests\<close>

definition engine_max_response :: nat where
  "engine_max_response = 1024 * 1024"

definition engine_request ::
  "'s docker \<Rightarrow> string \<Rightarrow> string \<Rightarrow> json option \<Rightarrow> int set \<Rightarrow> bool \<Rightarrow> (agent_exn, 's, json) prog" where
  "engine_request K verb path body expected versioned =
     bindE (catchE (dk_exchange K verb ((if versioned then dk_prefix K else []) @ path) body)
              (\<lambda>e. if is_os_error e then raiseE (AgentEngine (''Docker Engine connection failed: '' @ os_message e)) else raiseE e))
       (\<lambda>(status, answer).
     let raw = take engine_max_response answer in
     if status \<notin> expected
     then (if status = 404 then raiseE (AgentNotFound ''Docker object was not found'')
           else if status = 409 then raiseE (AgentConflict ''Docker object conflicts with existing state'')
           else raiseE (AgentEngine (''Docker Engine returned HTTP '' @ str_of_int status @ '': '' @ take 512 (dk_decode K raw))))
     else if raw = [] then returnE (JObj [])
     else case dk_loads K raw of
            Inl e \<Rightarrow> raiseE (if e = json_decode_error then AgentEngine ''Docker Engine returned invalid JSON'' else e)
          | Inr parsed \<Rightarrow> returnE (if is_object parsed then parsed else JObj [(''items'', parsed)]))"

text \<open>\<open>urllib.parse.quote(text, safe="")\<close>; \<open>urlencode\<close> writes a space as a plus sign.\<close>

definition is_unreserved :: "char \<Rightarrow> bool" where
  "is_unreserved c \<longleftrightarrow> is_alnum_ascii c \<or> c \<in> set ''_.-~''"

definition upper_hex :: "nat \<Rightarrow> nat \<Rightarrow> string" where
  "upper_hex w n = map (\<lambda>c. if is_lower_ascii c then char_of ((of_char c :: nat) - 32) else c) (hex_of_nat w n)"

definition url_quote :: "string \<Rightarrow> string" where
  "url_quote s = concat (map (\<lambda>c. if is_unreserved c then [c] else ''%'' @ upper_hex 2 (of_char c)) s)"

definition url_quote_plus :: "string \<Rightarrow> string" where
  "url_quote_plus s = concat (map (\<lambda>c. if c = CHR '' '' then ''+'' else url_quote [c]) s)"

section \<open>Reading answers\<close>

text \<open>\<open>value or {}\<close>: what Python counts as false.\<close>

fun is_falsy :: "json \<Rightarrow> bool" where
  "is_falsy JNull = True"
| "is_falsy (JBool b) = (\<not> b)"
| "is_falsy (JInt i) = (i = 0)"
| "is_falsy (JFloat r t) = (r = ''0.0'' \<or> r = ''-0.0'')"
| "is_falsy (JStr s) = (s = [])"
| "is_falsy (JText t) = (t = [])"
| "is_falsy (JList xs) = (xs = [])"
| "is_falsy (JObj kvs) = (kvs = [])"

text \<open>\<open>value.get(key, default)\<close>: an attribute error unless the value is an object.\<close>

definition get_or :: "json \<Rightarrow> string \<Rightarrow> json \<Rightarrow> agent_exn + json" where
  "get_or v k d =
     (if is_object v then Inr (case json_get v k of None \<Rightarrow> d | Some x \<Rightarrow> x)
      else Inl (AgentOther ''AttributeError''))"

text \<open>What a \<open>for\<close> statement iterates over.\<close>

definition iterate :: "json \<Rightarrow> agent_exn + json list" where
  "iterate v =
     (case v of
        JList xs \<Rightarrow> Inr xs
      | JObj kvs \<Rightarrow> Inr (map (JStr \<circ> fst) kvs)
      | JStr s \<Rightarrow> Inr (map (\<lambda>c. JStr [c]) s)
      | JText t \<Rightarrow> Inr (map (\<lambda>c. JText [c]) t)
      | _ \<Rightarrow> Inl (AgentOther ''TypeError''))"

text \<open>
  \<open>dict(value)\<close>: of an object its items, of another sequence its elements as pairs. The record then
  requires every key and value to be text.
\<close>

definition read_pair :: "json \<Rightarrow> agent_exn + (json \<times> json)" where
  "read_pair v =
     (case iterate v of
        Inl e \<Rightarrow> Inl e
      | Inr [k, x] \<Rightarrow> (case k of
            JList _ \<Rightarrow> Inl (AgentOther ''TypeError'') | JObj _ \<Rightarrow> Inl (AgentOther ''TypeError'') | _ \<Rightarrow> Inr (k, x))
      | Inr _ \<Rightarrow> Inl (AgentValue ''dictionary update sequence element has the wrong length''))"

fun read_pairs :: "json list \<Rightarrow> agent_exn + (json \<times> json) list" where
  "read_pairs [] = Inr []"
| "read_pairs (v # vs) =
     (case read_pair v of Inl e \<Rightarrow> Inl e
      | Inr p \<Rightarrow> (case read_pairs vs of Inl e \<Rightarrow> Inl e | Inr ps \<Rightarrow> Inr (p # ps)))"

definition read_labels :: "json \<Rightarrow> agent_exn + (json \<times> json) list" where
  "read_labels v =
     (case v of
        JObj kvs \<Rightarrow> Inr (map (\<lambda>(k, x). (JStr k, x)) kvs)
      | _ \<Rightarrow> (case iterate v of Inl e \<Rightarrow> Inl e | Inr xs \<Rightarrow> read_pairs xs))"

text \<open>Later pairs of a key win, as in a Python dictionary.\<close>

definition string_labels :: "(json \<times> json) list \<Rightarrow> agent_exn + (string \<times> string) list" where
  "string_labels ps =
     (case those (map (\<lambda>(k, x). do { a \<leftarrow> json_text k; b \<leftarrow> json_text x; Some (a, b) }) ps) of
        None \<Rightarrow> Inl AgentValidation
      | Some ls \<Rightarrow> Inr (rev (AList.clearjunk (rev ls))))"

definition drop_slash :: "string \<Rightarrow> string" where
  "drop_slash s = (if take 1 s = ''/'' then drop 1 s else s)"

definition health_of_text :: "string \<Rightarrow> health_status" where
  "health_of_text s =
     (if s = ''starting'' then HS_starting else if s = ''healthy'' then HS_healthy
      else if s = ''unhealthy'' then HS_unhealthy else HS_none)"

definition getE :: "json \<Rightarrow> string \<Rightarrow> json \<Rightarrow> (agent_exn, 's, json) prog" where
  "getE v k d = resultE (get_or v k d)"

definition or_empty :: "json \<Rightarrow> json" where
  "or_empty v = (if is_falsy v then JObj [] else v)"

text \<open>The body of \<open>inspect_container\<close> after the request.\<close>

definition read_container :: "json \<Rightarrow> (agent_exn, 's, container_record) prog" where
  "read_container item =
     bindE (getE item ''Config'' (JObj [])) (\<lambda>config.
     bindE (getE item ''State'' (JObj [])) (\<lambda>state.
     bindE (getE state ''Health'' JNull) (\<lambda>health.
     bindE (getE (or_empty health) ''Status'' (JStr ''none'')) (\<lambda>health_status.
     bindE (getE item ''Id'' (JStr [])) (\<lambda>ident.
     bindE (getE item ''Name'' (JStr [])) (\<lambda>name.
     bindE (getE state ''Status'' (JStr ''unknown'')) (\<lambda>status.
     bindE (getE config ''Labels'' JNull) (\<lambda>lbls.
     bindE (resultE (read_labels (or_empty lbls))) (\<lambda>ls.
     bindE (getE config ''Image'' (JStr [])) (\<lambda>image.
     bindE (resultE (string_labels ls)) (\<lambda>labels.
     returnE \<lparr>cn_container_id = py_str ident, cn_name = drop_slash (py_str name), cn_state = py_str status,
           cn_health = health_of_text (py_str health_status), cn_labels = labels, cn_image = py_str image\<rparr>)))))))))))"

text \<open>\<open>str((item.get("Names") or [""])[0])\<close>.\<close>

definition first_name :: "json \<Rightarrow> agent_exn + string" where
  "first_name v =
     (if is_falsy v then Inr []
      else case v of
        JList (x # xs) \<Rightarrow> Inr (py_str x)
      | JStr (c # cs) \<Rightarrow> Inr [c]
      | JText (c # cs) \<Rightarrow> Inr [narrow c]
      | JObj kvs \<Rightarrow> Inl (AgentOther ''KeyError'')
      | _ \<Rightarrow> Inl (AgentOther ''TypeError''))"

definition read_summary :: "json \<Rightarrow> (agent_exn, 's, container_record) prog" where
  "read_summary item =
     bindE (getE item ''Names'' JNull) (\<lambda>names.
     bindE (getE item ''Id'' (JStr [])) (\<lambda>ident.
     bindE (resultE (first_name names)) (\<lambda>name.
     bindE (getE item ''State'' (JStr ''unknown'')) (\<lambda>state.
     bindE (getE item ''Labels'' JNull) (\<lambda>lbls.
     bindE (resultE (read_labels (or_empty lbls))) (\<lambda>ls.
     bindE (getE item ''Image'' (JStr [])) (\<lambda>image.
     bindE (resultE (string_labels ls)) (\<lambda>labels.
     returnE \<lparr>cn_container_id = py_str ident, cn_name = drop_slash name, cn_state = py_str state,
           cn_health = HS_none, cn_labels = labels, cn_image = py_str image\<rparr>))))))))"

section \<open>The client\<close>

definition connect_docker :: "'s docker \<Rightarrow> (agent_exn, 's, 's docker) prog" where
  "connect_docker K =
     bindE (engine_request K ''GET'' ''/version'' None {200} False) (\<lambda>version.
     case Option.bind (json_get version ''ApiVersion'') json_text of
       None \<Rightarrow> raiseE (AgentEngine ''Docker Engine returned an invalid API version'')
     | Some v \<Rightarrow>
         let digits = filter (\<lambda>c. c \<noteq> CHR ''.'') v in
         if digits = [] \<or> \<not> list_all is_digit_ascii digits
         then raiseE (AgentEngine ''Docker Engine returned an invalid API version'')
         else returnE (K\<lparr>dk_prefix := ''/v'' @ v\<rparr>))"

definition docker_ping :: "'s docker \<Rightarrow> (agent_exn, 's, bool) prog" where
  "docker_ping K =
     catchE (bindE (dk_exchange K ''GET'' ''/_ping'' None) (\<lambda>(status, answer).
             returnE (status = 200 \<and> take 16 answer = ''OK'')))
       (\<lambda>e. if is_os_error e then returnE False else raiseE e)"

definition docker_create :: "'s docker \<Rightarrow> string \<Rightarrow> json \<Rightarrow> (agent_exn, 's, string) prog" where
  "docker_create K name doc =
     bindE (engine_request K ''POST'' (''/containers/create?name='' @ url_quote_plus name) (Some doc) {201} True) (\<lambda>result.
     case Option.bind (json_get result ''Id'') json_text of
       None \<Rightarrow> raiseE (AgentEngine ''Docker Engine did not return a container ID'')
     | Some i \<Rightarrow> returnE i)"

definition docker_command :: "'s docker \<Rightarrow> string \<Rightarrow> string \<Rightarrow> int set \<Rightarrow> (agent_exn, 's, unit) prog" where
  "docker_command K verb path expected =
     bindE (engine_request K verb path None expected True) (\<lambda>_. returnE ())"

definition docker_start :: "'s docker \<Rightarrow> string \<Rightarrow> (agent_exn, 's, unit) prog" where
  "docker_start K i = docker_command K ''POST'' (''/containers/'' @ url_quote i @ ''/start'') {204, 304}"

definition docker_inspect :: "'s docker \<Rightarrow> string \<Rightarrow> (agent_exn, 's, container_record) prog" where
  "docker_inspect K i =
     bindE (engine_request K ''GET'' (''/containers/'' @ url_quote i @ ''/json'') None {200} True) (\<lambda>item.
     read_container item)"

definition docker_stop :: "'s docker \<Rightarrow> string \<Rightarrow> (agent_exn, 's, unit) prog" where
  "docker_stop K i = docker_command K ''POST'' (''/containers/'' @ url_quote i @ ''/stop?t=20'') {204, 304}"

definition docker_remove :: "'s docker \<Rightarrow> string \<Rightarrow> (agent_exn, 's, unit) prog" where
  "docker_remove K i = docker_command K ''DELETE'' (''/containers/'' @ url_quote i @ ''?v=1'') {204}"

definition managed_filter :: string where
  "managed_filter = ''{'' @ [CHR 0x22] @ ''label'' @ [CHR 0x22] @ '': ['' @ [CHR 0x22] @
     ''io.retrobrowser.runtime-agent.managed=true'' @ [CHR 0x22] @ '']}''"

definition docker_list :: "'s docker \<Rightarrow> (agent_exn, 's, container_record list) prog" where
  "docker_list K =
     bindE (engine_request K ''GET''
        (''/containers/json?all=1&filters='' @ url_quote_plus managed_filter) None {200} True) (\<lambda>result.
     bindE (resultE (get_or result ''items'' (JList []))) (\<lambda>items.
     bindE (resultE (iterate items)) (\<lambda>xs.
     mapE read_summary xs)))"

definition docker_engine :: "'s docker \<Rightarrow> 's engine" where
  "docker_engine K =
     \<lparr>e_ping = docker_ping K, e_create = docker_create K, e_start = docker_start K,
      e_inspect = docker_inspect K, e_stop = docker_stop K, e_remove = docker_remove K, e_list = docker_list K\<rparr>"

section \<open>Errors of the client\<close>

text \<open>A daemon connection and a reader that fail only as documented for well-formed answers.\<close>

definition regular_daemon :: "'s docker \<Rightarrow> bool" where
  "regular_daemon K \<longleftrightarrow>
     (\<forall>verb path body s e t. dk_exchange K verb path body s = (Inl e, t) \<longrightarrow> is_os_error e) \<and>
     (\<forall>raw e. dk_loads K raw = Inl e \<longrightarrow> e = json_decode_error)"

lemma wp_engine_request:
  assumes "regular_daemon K"
  shows "wp (engine_request K verb path body expected versioned) (\<lambda>d _. is_object d) (\<lambda>e _. is_agent_error e) s"
proof -
  have exchange: "is_os_error e" if "dk_exchange K v p b u = (Inl e, t)" for v p b u e t
    using assms that unfolding regular_daemon_def by blast
  have reader: "e = json_decode_error" if "dk_loads K raw = Inl e" for raw e
    using assms that unfolding regular_daemon_def by blast
  show ?thesis
    unfolding engine_request_def wp_simps Let_def
    by (rule wp_I) (auto dest: exchange reader split: prod.splits sum.splits if_splits)
qed

text \<open>
  The engine client speaks the agent's exceptions: over a daemon connection that fails only
  with \<open>OSError\<close> and answers that are JSON, creating, starting, stopping and removing a
  container raise nothing but \<open>RuntimeAgentError\<close>s, whatever status and document the
  daemon answers with, so the clean-up handlers of the service catch every failure of theirs.
\<close>

theorem docker_raises_agent_errors:
  assumes "regular_daemon K"
    and "f \<in> {docker_start K i, docker_stop K i, docker_remove K i, bindE (docker_create K name doc) (\<lambda>_. returnE ())}"
    and "f s = (Inl e, t)"
  shows "is_agent_error e"
proof -
  have "wp (docker_command K verb path expected) (\<lambda>_ _. True) (\<lambda>e _. is_agent_error e) s" for verb path expected
    unfolding docker_command_def wp_simps by (rule wp_mono [OF wp_engine_request [OF assms(1)]]) simp_all
  moreover have "wp (bindE (docker_create K name doc) (\<lambda>_. returnE ())) (\<lambda>_ _. True) (\<lambda>e _. is_agent_error e) s"
    unfolding docker_create_def wp_simps
    by (rule wp_mono [OF wp_engine_request [OF assms(1)]]) (auto split: option.splits)
  ultimately have "wp f (\<lambda>_ _. True) (\<lambda>e _. is_agent_error e) s"
    using assms(2) unfolding docker_start_def docker_stop_def docker_remove_def by auto
  from wp_run(2) [OF this assms(3)] show ?thesis .
qed

theorem docker_raises_agent_errors_witness:
  "let K = \<lparr>dk_exchange = (\<lambda>_ _ _. returnE (404, [])), dk_loads = (\<lambda>_. Inl json_decode_error), dk_decode = id, dk_prefix = ''/v1.44''\<rparr>
   in regular_daemon (K :: unit docker) \<and>
      docker_stop K ''ab'' () = (Inl (AgentNotFound ''Docker object was not found''), ()) \<and>
      is_agent_error (AgentNotFound ''Docker object was not found'')"
proof -
  define K :: "unit docker" where
    "K = \<lparr>dk_exchange = (\<lambda>_ _ _. returnE (404, [])), dk_loads = (\<lambda>_. Inl json_decode_error), dk_decode = id, dk_prefix = ''/v1.44''\<rparr>"
  have ok: "regular_daemon K" by (auto simp: regular_daemon_def K_def returnE_def)
  have run: "docker_stop K ''ab'' () = (Inl (AgentNotFound ''Docker object was not found''), ())"
    by (simp add: docker_stop_def docker_command_def engine_request_def K_def bindE_def catchE_def returnE_def raiseE_def)
  from docker_raises_agent_errors [of K "docker_stop K ''ab''" "''ab''" _ _ "()"] ok run show ?thesis
    unfolding K_def [symmetric] Let_def by blast
qed

section \<open>Addresses\<close>

lemma upper_hex_chars: "c \<in> set (upper_hex w n) \<Longrightarrow> is_unreserved c"
  using hex_of_nat_chars [of w n]
  by (auto simp: upper_hex_def is_unreserved_def list_all_iff char_class_defs split: if_splits)

lemma upper_hex_inj:
  assumes "m < 256" "n < 256" "upper_hex 2 m = upper_hex 2 n"
  shows "m = n"
proof -
  let ?up = "\<lambda>c. if is_lower_ascii c then char_of ((of_char c :: nat) - 32) else c"
  have key: "x = y" if "x - 32 = y - 32" "97 \<le> x" "97 \<le> y" for x y :: nat using that by linarith
  have "c = d" if "is_hex_lower c" "is_hex_lower d" "?up c = ?up d" for c d
  proof -
    have "of_char (?up c) = (of_char (?up d) :: nat)" using that(3) by simp
    then have "of_char c = (of_char d :: nat)"
      using that(1,2) by (auto simp: char_class_defs dest: key split: if_splits)
    then show ?thesis by simp
  qed
  then have "inj_on ?up {c. is_hex_lower c}" by (intro inj_onI) simp
  moreover have "set (hex_of_nat 2 k) \<subseteq> {c. is_hex_lower c}" for k
    using hex_of_nat_chars [of 2 k] by (auto simp: list_all_iff)
  ultimately have "hex_of_nat 2 m = hex_of_nat 2 n"
    using assms(3) unfolding upper_hex_def by (metis (no_types, lifting) inj_on_map_eq_map inj_on_subset sup.boundedI)
  from hex_of_nat_inj [OF this] assms(1,2) show ?thesis by simp
qed

lemma length_upper_hex [simp]: "length (upper_hex w n) = w"
  by (simp add: upper_hex_def)

lemma percent_reserved: "\<not> is_unreserved (CHR ''%'')"
  by (simp add: is_unreserved_def char_class_defs)

lemma url_quote_simps:
  "url_quote [] = []"
  "url_quote (c # s) = (if is_unreserved c then c # url_quote s else CHR ''%'' # upper_hex 2 (of_char c) @ url_quote s)"
  by (simp_all add: url_quote_def)

lemma url_quote_chars: "c \<in> set (url_quote s) \<Longrightarrow> is_unreserved c \<or> c = CHR ''%''"
  by (auto simp: url_quote_def upper_hex_chars split: if_splits)

lemma url_quote_inj: "url_quote s = url_quote t \<Longrightarrow> s = t"
proof (induction s arbitrary: t)
  case Nil
  then show ?case by (cases t) (auto simp: url_quote_simps split: if_splits)
next
  case (Cons a s)
  obtain b u where t: "t = b # u" using Cons.prems by (cases t) (auto simp: url_quote_simps split: if_splits)
  have "a = b \<and> url_quote s = url_quote u"
    using Cons.prems percent_reserved upper_hex_inj [of "of_char a" "of_char b"] unfolding t
    by (auto simp: url_quote_simps split: if_splits)
  with Cons.IH t show ?case by simp
qed

text \<open>
  No container identifier can leave its segment of a daemon address or stand for another: the
  quoted form holds no slash, question mark or any other reserved character, and
  different identifiers have different quoted forms, so a start, stop, inspection or removal
  addresses the container that was named and no other object of the daemon.
\<close>

theorem docker_addresses_one_container:
  "set (url_quote i) \<subseteq> insert (CHR ''%'') {c. is_unreserved c} \<and> (url_quote i = url_quote j) = (i = j)"
  using url_quote_chars url_quote_inj by blast

section \<open>Reading back a container\<close>

text \<open>The daemon's document of a container.\<close>

definition container_document :: "container_record \<Rightarrow> json" where
  "container_document c =
     JObj [(''Id'', JStr (cn_container_id c)), (''Name'', JStr (CHR ''/'' # cn_name c)),
       (''State'', JObj [(''Status'', JStr (cn_state c)), (''Health'', JObj [(''Status'', JStr (health_text (cn_health c)))])]),
       (''Config'', JObj [(''Image'', JStr (cn_image c)), (''Labels'', JObj (map (\<lambda>(k, v). (k, JStr v)) (cn_labels c)))])]"

lemma read_label_pairs:
  assumes "distinct (map fst ls)"
  shows "string_labels (map (\<lambda>(k, v). (JStr k, JStr v)) ls) = Inr ls"
proof -
  have "those (map (\<lambda>(k, x). do { a \<leftarrow> json_text k; b \<leftarrow> json_text x; Some (a, b) })
      (map (\<lambda>(k, v). (JStr k, JStr v)) ls)) = Some ls"
    by (induction ls) (auto split: prod.splits)
  moreover have "AList.clearjunk (rev ls) = rev ls"
    using assms by (intro distinct_clearjunk_id) (simp add: rev_map [symmetric])
  ultimately show ?thesis unfolding string_labels_def by simp
qed

lemma health_text_roundtrip: "health_of_text (health_text h) = h"
  by (cases h) (simp_all add: health_of_text_def)

lemma read_container_document:
  assumes "distinct (map fst (cn_labels c))"
  shows "read_container (container_document c) s = (Inr c, s)"
proof -
  have labels: "read_labels (or_empty (JObj (map (\<lambda>(k, v). (k, JStr v)) ls))) =
      Inr (map (\<lambda>(k, v). (JStr k, JStr v)) ls)" for ls :: "(string \<times> string) list"
    by (cases ls) (auto simp: read_labels_def or_empty_def)
  show ?thesis
    using labels [of "cn_labels c"] read_label_pairs [OF assms]
    by (simp add: read_container_def container_document_def getE_def get_or_def or_empty_def bindE_def resultE_def
        returnE_def py_str_def drop_slash_def health_text_roundtrip)
qed

text \<open>
  Inspecting a container gives back what the daemon's document says: identifier, name without the leading
  slash, state, health, labels and image.
\<close>

theorem inspect_reads_document:
  assumes "dk_exchange K ''GET'' (dk_prefix K @ ''/containers/'' @ url_quote i @ ''/json'') None s = (Inr (200, raw), t)"
    and "take engine_max_response raw \<noteq> []"
    and "dk_loads K (take engine_max_response raw) = Inr (container_document c)"
    and "distinct (map fst (cn_labels c))"
  shows "docker_inspect K i s = (Inr c, t)"
proof -
  define path where "path = ''/containers/'' @ url_quote i @ ''/json''"
  have "is_object (container_document c)" by (simp add: container_document_def)
  then have "engine_request K ''GET'' path None {200} True s = (Inr (container_document c), t)"
    using assms(1-3) [folded path_def]
    by (simp add: engine_request_def bindE_def catchE_def returnE_def Let_def)
  then show ?thesis
    unfolding docker_inspect_def path_def [symmetric]
    using read_container_document [OF assms(4)] by (simp add: bindE_def)
qed

theorem inspect_reads_document_witness:
  "let c = \<lparr>cn_container_id = ''ab'', cn_name = ''web'', cn_state = ''running'', cn_health = HS_healthy,
             cn_labels = [(''k'', ''v'')], cn_image = ''img''\<rparr>;
       K = \<lparr>dk_exchange = (\<lambda>_ _ _. returnE (200, ''{}'')), dk_loads = (\<lambda>_. Inr (container_document c)),
             dk_decode = id, dk_prefix = ''/v1.44''\<rparr>
   in docker_inspect (K :: unit docker) ''web'' () = (Inr c, ())"
  unfolding Let_def
  by (rule inspect_reads_document [where raw = "''{}''"]) (simp_all add: returnE_def engine_max_response_def)

end
