(* ===== verification/AgentServer.thy ===== *)
theory AgentServer
  imports AgentLifecycle DockerClient
begin

text \<open>
  \<open>api/server.py\<close> of the Runtime Agent: reading a request body, the routing of requests to
  \<open>RuntimeService\<close> and the answer to every exception. A handler's result is the answer it writes; writing
  to the socket and the log events are not modelled. The JSON reader is a parameter that calls the hook for
  every object it completes.

  Shown: a request does to the host exactly what at most one call of the service does, so the
  behaviour proved of sequences of calls holds of sequences of requests; and every request is answered.
\<close>

datatype verb = GET | POST | DELETE

record http_request =
  hr_command :: verb
  hr_path :: string
  hr_content_type :: string
  hr_content_length :: "string option"
  hr_body :: string

type_synonym pairs_hook = "(string \<times> json) list \<Rightarrow> agent_exn + json"

record 's server =
  sv_agent :: "'s agent"
  sv_unicode :: unicode_data
  sv_loads :: "pairs_hook \<Rightarrow> string \<Rightarrow> agent_exn + json"
  sv_details :: "http_request \<Rightarrow> json"

section \<open>The body of a request\<close>

text \<open>The loop keeps the pairs it has seen, in order.\<close>

fun reject_loop :: "(string \<times> json) list \<Rightarrow> (string \<times> json) list \<Rightarrow> agent_exn + json" where
  "reject_loop result [] = Inr (JObj result)"
| "reject_loop result ((key, v) # ps) =
     (if key \<in> fst ` set result then Inl (AgentValue (''duplicate JSON key: '' @ key))
      else reject_loop (result @ [(key, v)]) ps)"

definition reject_duplicate_keys :: pairs_hook where
  "reject_duplicate_keys ps = reject_loop [] ps"

definition max_request_bytes :: nat where
  "max_request_bytes = 64 * 1024"

text \<open>
  \<open>str.isdigit\<close> and \<open>int\<close> of a header, which is Latin-1 text: the superscripts count as digits but
  not as decimal ones, and \<open>int\<close> refuses more than 4300 digits.
\<close>

definition is_digit_latin :: "char \<Rightarrow> bool" where
  "is_digit_latin c \<longleftrightarrow> is_digit_ascii c \<or> (of_char c :: nat) \<in> {178, 179, 185}"

definition parse_content_length :: "string option \<Rightarrow> agent_exn + nat" where
  "parse_content_length h =
     (case h of
        None \<Rightarrow> Inl (AgentValue ''a valid Content-Length is required'')
      | Some v \<Rightarrow>
          if v = [] \<or> \<not> list_all is_digit_latin v
          then Inl (AgentValue ''a valid Content-Length is required'')
          else (case int_of_dec v of
              None \<Rightarrow> Inl (AgentValue ''invalid literal for int()'')
            | Some i \<Rightarrow> Inr (nat i)))"

definition request_body :: "'s server \<Rightarrow> http_request \<Rightarrow> agent_exn + json" where
  "request_body V r =
     (if hr_content_type r \<noteq> ''application/json''
      then Inl (AgentValue ''Content-Type must be application/json'')
      else case parse_content_length (hr_content_length r) of
        Inl e \<Rightarrow> Inl e
      | Inr n \<Rightarrow>
          if n < 2 \<or> n > max_request_bytes then Inl (AgentValue ''request body size is invalid'')
          else (case sv_loads V reject_duplicate_keys (take n (hr_body r)) of
              Inl e \<Rightarrow> Inl (if e = json_decode_error \<or> e = unicode_decode_error
                            then AgentValue ''request body is not valid JSON'' else e)
            | Inr d \<Rightarrow> if is_object d then Inr d else Inl (AgentValue ''request body must be a JSON object'')))"

section \<open>Routing\<close>

definition starts_with :: "string \<Rightarrow> string \<Rightarrow> bool" where
  "starts_with p s \<longleftrightarrow> take (length p) s = p"

definition ends_with :: "string \<Rightarrow> string \<Rightarrow> bool" where
  "ends_with p s \<longleftrightarrow> length p \<le> length s \<and> drop (length s - length p) s = p"

definition path_runtime_id :: "string \<Rightarrow> string \<Rightarrow> uuid option" where
  "path_runtime_id suffix path =
     (if \<not> starts_with ''/v1/runtimes/'' path then None
      else let v = drop 13 path in
        if suffix \<noteq> [] \<and> \<not> ends_with suffix v then None
        else let w = take (length v - length suffix) v in
          if CHR ''/'' \<in> set w then None else uuid_of_str w)"

text \<open>The attempts of \<open>_dispatch\<close> in their order.\<close>

definition agent_dispatch :: "'s server \<Rightarrow> http_request \<Rightarrow> (agent_exn, 's, int \<times> json) prog" where
  "agent_dispatch V r =
     (let A = sv_agent V; endpoint_missing = returnE (404, JObj [(''error'', JStr ''endpoint not found'')]) in
      if hr_command r = GET \<and> hr_path r = ''/v1/health''
      then bindE (agent_health A) (\<lambda>healthy.
           returnE (if healthy then 200 else 503, JObj [(''ok'', JBool healthy)]))
      else if hr_command r = GET \<and> hr_path r = ''/v1/runtimes''
      then bindE (list_managed_runtimes A) (\<lambda>records.
           returnE (200, JObj [(''items'', JList (map record_json records))]))
      else if hr_command r = GET \<and> hr_path r = ''/v1/capacity''
      then bindE (agent_capacity_of A) (\<lambda>c. returnE (200, capacity_json c))
      else if hr_command r = POST \<and> hr_path r = ''/v1/runtimes''
      then bindE (resultE (request_body V r)) (\<lambda>d.
           bindE (resultE (validate_create_request (sv_unicode V) d)) (\<lambda>q.
           bindE (create_runtime A q) (\<lambda>x. returnE (201, record_json x))))
      else case hr_command r of
        POST \<Rightarrow> (case path_runtime_id ''/stop'' (hr_path r) of
            Some u \<Rightarrow> bindE (stop_runtime A u) (\<lambda>x. returnE (200, record_json x))
          | None \<Rightarrow> endpoint_missing)
      | GET \<Rightarrow> (case path_runtime_id [] (hr_path r) of
            Some u \<Rightarrow> bindE (inspect_runtime A u) (\<lambda>x. returnE (200, record_json x))
          | None \<Rightarrow> endpoint_missing)
      | DELETE \<Rightarrow> (case path_runtime_id [] (hr_path r) of
            Some u \<Rightarrow> bindE (remove_runtime A u) (\<lambda>_. returnE (200, JObj [(''removed'', JBool True)]))
          | None \<Rightarrow> endpoint_missing))"

text \<open>The \<open>except\<close> clauses of \<open>_handle\<close>.\<close>

fun failure_answer :: "'s server \<Rightarrow> http_request \<Rightarrow> agent_exn \<Rightarrow> int \<times> json" where
  "failure_answer V r AgentValidation =
     (400, JObj [(''error'', JStr ''invalid request''), (''details'', sv_details V r)])"
| "failure_answer V r (AgentValue m) = (400, JObj [(''error'', JStr m)])"
| "failure_answer V r (AgentOwnership m) = (403, JObj [(''error'', JStr m)])"
| "failure_answer V r (AgentNotFound m) = (404, JObj [(''error'', JStr m)])"
| "failure_answer V r (AgentConflict m) = (409, JObj [(''error'', JStr m)])"
| "failure_answer V r (AgentEngine m) = (502, JObj [(''error'', JStr ''container engine operation failed'')])"
| "failure_answer V r _ = (500, JObj [(''error'', JStr ''internal server error'')])"

definition agent_handle :: "'s server \<Rightarrow> http_request \<Rightarrow> (agent_exn, 's, int \<times> json) prog" where
  "agent_handle V r = catchE (agent_dispatch V r) (\<lambda>e. returnE (failure_answer V r e))"

section \<open>A request is at most one call of the service\<close>

text \<open>The call a request stands for: the specification of the routing.\<close>

definition request_call :: "'s server \<Rightarrow> http_request \<Rightarrow> agent_call option" where
  "request_call V r =
     (case hr_command r of
        GET \<Rightarrow>
          if hr_path r = ''/v1/health'' then Some Health
          else if hr_path r = ''/v1/runtimes'' then Some ListRuntimes
          else if hr_path r = ''/v1/capacity'' then Some Capacity
          else map_option InspectRuntime (path_runtime_id [] (hr_path r))
      | POST \<Rightarrow>
          if hr_path r = ''/v1/runtimes''
          then (case request_body V r of
                  Inl e \<Rightarrow> None
                | Inr d \<Rightarrow> map_option CreateRuntime (read_create_request (sv_unicode V) d))
          else map_option StopRuntime (path_runtime_id ''/stop'' (hr_path r))
      | DELETE \<Rightarrow> map_option RemoveRuntime (path_runtime_id [] (hr_path r)))"

lemma snd_bind_return: "snd (bindE f (\<lambda>a. returnE (g a)) s) = snd (f s)"
  by (auto simp: bindE_def returnE_def split: prod.splits sum.splits)

lemma snd_catch_return: "snd (catchE f (\<lambda>e. returnE (g e)) s) = snd (f s)"
  by (auto simp: catchE_def returnE_def split: prod.splits sum.splits)

lemma bind_result: "bindE (resultE (Inl e)) g s = (Inl e, s)" "bindE (resultE (Inr a)) g s = g a s"
  by (simp_all add: bindE_def resultE_def)

lemma snd_returnE: "snd (returnE a s) = s"
  by (simp add: returnE_def)

lemmas routed = agent_handle_def snd_catch_return agent_dispatch_def request_call_def Let_def
  snd_bind_return bind_result snd_returnE validate_create_request_def

lemma handle_is_call:
  "snd (agent_handle V r s) =
     (case request_call V r of None \<Rightarrow> s | Some c \<Rightarrow> snd (agent_perform (sv_agent V) c s))"
proof (cases "hr_command r")
  case GET
  then show ?thesis by (simp add: routed split: option.splits)
next
  case DELETE
  then show ?thesis
    by (simp add: routed split: option.splits)
next
  case POST
  show ?thesis
  proof (cases "hr_path r = ''/v1/runtimes''")
    case True
    with POST show ?thesis
      by (cases "request_body V r") (simp_all add: routed split: option.splits)
  next
    case False
    with POST show ?thesis by (simp add: routed split: option.splits)
  qed
qed

fun http_serve :: "'s server \<Rightarrow> http_request list \<Rightarrow> 's \<Rightarrow> 's" where
  "http_serve V [] s = s"
| "http_serve V (r # rs) s = http_serve V rs (snd (agent_handle V r s))"


section \<open>Every request is answered\<close>

definition success :: "int set" where
  "success = {200, 201, 503}"

lemma failure_not_success: "fst (failure_answer V r e) \<notin> success"
  by (cases e) (simp_all add: success_def)

lemma fst_handle:
  "fst (agent_handle V r s) =
     Inr (case fst (agent_dispatch V r s) of Inl e \<Rightarrow> failure_answer V r e | Inr a \<Rightarrow> a)"
  by (auto simp: agent_handle_def catchE_def returnE_def split: prod.splits sum.splits)

lemma answered_call:
  assumes "agent_dispatch V r s = bindE f (\<lambda>a. returnE (g a)) s" and "\<And>a. fst (g a) \<in> success"
  shows "\<exists>status d. fst (agent_handle V r s) = Inr (status, d) \<and>
    (status \<in> success \<longleftrightarrow> (\<exists>a. fst (f s) = Inr a))"
proof (cases "f s")
  case (Pair w t)
  show ?thesis
  proof (cases w)
    case (Inl e)
    have "fst (agent_handle V r s) = Inr (failure_answer V r e)"
      by (simp add: fst_handle assms(1) bindE_def Pair Inl)
    then show ?thesis using failure_not_success [of V r e] Pair Inl
      by (cases "failure_answer V r e") auto
  next
    case (Inr a)
    have "fst (agent_handle V r s) = Inr (g a)" by (simp add: fst_handle assms(1) bindE_def returnE_def Pair Inr)
    then show ?thesis using assms(2) [of a] Pair Inr by (cases "g a") auto
  qed
qed

lemma refused_request:
  assumes "agent_dispatch V r s = (Inl e, s) \<or> agent_dispatch V r s = (Inr (404, d), s)"
  shows "\<exists>status d. fst (agent_handle V r s) = Inr (status, d) \<and> status \<notin> success"
  using assms failure_not_success [of V r e]
  by (cases "failure_answer V r e") (auto simp: fst_handle success_def)

lemma perform_returns:
  "fst (bindE f (\<lambda>_. returnE ()) s) = Inr () \<longleftrightarrow> (\<exists>a. fst (f s) = Inr a)"
  by (auto simp: bindE_def returnE_def split: prod.splits sum.splits)

lemma dispatch_call:
  assumes "request_call V r = Some c"
  shows "\<exists>status d. fst (agent_handle V r s) = Inr (status, d) \<and>
    (status \<in> success \<longleftrightarrow> fst (agent_perform (sv_agent V) c s) = Inr ())"
proof (cases c)
  case (CreateRuntime q)
  then obtain d where "hr_command r = POST" "hr_path r = ''/v1/runtimes''" "request_body V r = Inr d"
    "read_create_request (sv_unicode V) d = Some q"
    using assms by (auto simp: request_call_def split: verb.splits if_splits sum.splits)
  then have "agent_dispatch V r s = bindE (create_runtime (sv_agent V) q) (\<lambda>x. returnE (201, record_json x)) s"
    by (simp add: agent_dispatch_def bind_result validate_create_request_def)
  from answered_call [OF this] CreateRuntime show ?thesis by (simp add: perform_returns success_def)
next
  case (InspectRuntime u)
  then have "agent_dispatch V r s = bindE (inspect_runtime (sv_agent V) u) (\<lambda>x. returnE (200, record_json x)) s"
    using assms by (auto simp: request_call_def agent_dispatch_def split: verb.splits if_splits sum.splits)
  from answered_call [OF this] InspectRuntime show ?thesis by (simp add: perform_returns success_def)
next
  case (StopRuntime u)
  then have "agent_dispatch V r s = bindE (stop_runtime (sv_agent V) u) (\<lambda>x. returnE (200, record_json x)) s"
    using assms by (auto simp: request_call_def agent_dispatch_def split: verb.splits if_splits sum.splits)
  from answered_call [OF this] StopRuntime show ?thesis by (simp add: perform_returns success_def)
next
  case (RemoveRuntime u)
  then have "agent_dispatch V r s =
      bindE (remove_runtime (sv_agent V) u) (\<lambda>_. returnE (200, JObj [(''removed'', JBool True)])) s"
    using assms by (auto simp: request_call_def agent_dispatch_def split: verb.splits if_splits sum.splits)
  from answered_call [OF this] RemoveRuntime show ?thesis by (simp add: success_def)
next
  case ListRuntimes
  then have "agent_dispatch V r s = bindE (list_managed_runtimes (sv_agent V))
      (\<lambda>records. returnE (200, JObj [(''items'', JList (map record_json records))])) s"
    using assms by (auto simp: request_call_def agent_dispatch_def split: verb.splits if_splits sum.splits)
  from answered_call [OF this] ListRuntimes show ?thesis by (simp add: perform_returns success_def)
next
  case Capacity
  then have "agent_dispatch V r s = bindE (agent_capacity_of (sv_agent V)) (\<lambda>c. returnE (200, capacity_json c)) s"
    using assms by (auto simp: request_call_def agent_dispatch_def split: verb.splits if_splits sum.splits)
  from answered_call [OF this] Capacity show ?thesis by (simp add: perform_returns success_def)
next
  case Health
  then have "agent_dispatch V r s = bindE (agent_health (sv_agent V))
      (\<lambda>healthy. returnE (if healthy then 200 else 503, JObj [(''ok'', JBool healthy)])) s"
    using assms by (auto simp: request_call_def agent_dispatch_def split: verb.splits if_splits sum.splits)
  from answered_call [OF this] Health show ?thesis by (simp add: perform_returns success_def)
next
  case ReconcileRoutes
  then show ?thesis using assms by (auto simp: request_call_def split: verb.splits if_splits sum.splits)
qed

lemma dispatch_refused:
  assumes "request_call V r = None"
  shows "\<exists>status d. fst (agent_handle V r s) = Inr (status, d) \<and> status \<notin> success"
proof -
  have "\<exists>e d. agent_dispatch V r s = (Inl e, s) \<or> agent_dispatch V r s = (Inr (404, d), s)"
    using assms
    by (auto simp: request_call_def agent_dispatch_def bind_result validate_create_request_def returnE_def
        split: verb.splits if_splits sum.splits)
  then obtain e d where "agent_dispatch V r s = (Inl e, s) \<or> agent_dispatch V r s = (Inr (404, d), s)" by blast
  then show ?thesis by (rule refused_request)
qed

text \<open>
  Every request is answered, and the answer is truthful: the handler never raises, and the status is
  one of success (200 or 201, or 503 for an engine that does not respond) exactly when the request
  stands for a call and that call returned. In particular no failed creation is reported
  as created.
\<close>

theorem answers_are_truthful:
  "\<exists>status d. fst (agent_handle V r s) = Inr (status, d) \<and>
     (status \<in> {200, 201, 503} \<longleftrightarrow>
      (\<exists>c. request_call V r = Some c \<and> fst (agent_perform (sv_agent V) c s) = Inr ()))"
  unfolding success_def [symmetric]
  using dispatch_call [of V r _ s] dispatch_refused [of V r s] by (cases "request_call V r") fastforce+

end
