(* ===== verification/Wire.thy ===== *)
theory Wire
  imports AgentServer SampleHost
begin

text \<open>
  The Session Manager and the Runtime Agent together: the requests of the adapter
  \<open>providers/execution/runtime_agent.py\<close> answered by the server \<open>api/server.py\<close> over one HTTP exchange.
  What the two sides must agree on is checked field by field: every request the manager may send is one
  that the agent accepts, it fits the agent's size limit, and the handle the manager gets back is the
  agent's record.

  The JSON readers of the two sides are parameters; what is assumed of them is that they read
  back the documents that are sent.
\<close>

section \<open>The exchange\<close>

text \<open>\<open>json.dumps(payload, separators=(",", ":"))\<close>: keys in their own order.\<close>

fun send_json :: "json \<Rightarrow> string" where
  "send_json JNull = ''null''"
| "send_json (JBool b) = (if b then ''true'' else ''false'')"
| "send_json (JInt i) = str_of_int i"
| "send_json (JFloat r t) = r"
| "send_json (JStr s) = dumps_text (ustring_of s)"
| "send_json (JText t) = dumps_text t"
| "send_json (JList xs) = ''['' @ join_with '','' (map send_json xs) @ '']''"
| "send_json (JObj kvs) =
     ''{'' @ join_with '','' (map (\<lambda>(k, v). dumps_text (ustring_of k) @ '':'' @ send_json v) kvs) @ ''}''"

definition verb_of :: "string \<Rightarrow> verb" where
  "verb_of s = (if s = ''POST'' then POST else if s = ''DELETE'' then DELETE else GET)"

text \<open>What \<open>http.client\<close> sends; a request without a body has no content type of its own.\<close>

definition wire_request :: "string \<Rightarrow> string \<Rightarrow> json option \<Rightarrow> http_request" where
  "wire_request verb path content =
     \<lparr>hr_command = verb_of verb, hr_path = path,
      hr_content_type = (if content = None then ''text/plain'' else ''application/json''),
      hr_content_length = map_option (\<lambda>d. dec_of_nat (length (send_json d))) content,
      hr_body = (case content of None \<Rightarrow> [] | Some d \<Rightarrow> send_json d)\<rparr>"

definition wire_exchange ::
  "'s server \<Rightarrow> string \<Rightarrow> string \<Rightarrow> json option \<Rightarrow> (exn, 's, int \<times> string) prog" where
  "wire_exchange V verb path content =
     (\<lambda>s. case agent_handle V (wire_request verb path content) s of
            (Inr (status, d), t) \<Rightarrow> (Inr (status, send_json d), t)
          | (Inl e, t) \<Rightarrow> (Inl (OtherException ''HTTPException''), t))"

text \<open>A document that comes back from a reader as it was sent, within the manager's limit.\<close>

definition delivered :: "reader \<Rightarrow> json \<Rightarrow> bool" where
  "delivered loads d \<longleftrightarrow> length (send_json d) \<le> agent_max_response \<and> loads (send_json d) = Inr d"

lemma agent_request_over_wire:
  assumes "agent_handle V (wire_request verb path content) s = (Inr (status, d), t)" and "delivered loads d"
  shows "agent_request (wire_exchange V) loads verb path content s = (Inr (status, d), t)"
  using assms
  by (simp add: agent_request_def wire_exchange_def bindE_def catchE_def delivered_def returnE_def Let_def)

section \<open>Sizes\<close>

lemma dumps_char_length: "length (dumps_char c) \<le> 12" "c < 65536 \<Longrightarrow> length (dumps_char c) \<le> 6"
  by (auto simp: dumps_char_def)

lemma dumps_text_length: "length (dumps_text t) \<le> 12 * length t + 2"
proof -
  have "length (concat (map dumps_char t)) \<le> 12 * length t"
    by (induction t) (use dumps_char_length(1) in \<open>auto intro: add_mono\<close>)
  then show ?thesis by (simp add: dumps_text_def)
qed

lemma dumps_ascii_length: "length (dumps_text (ustring_of s)) \<le> 6 * length s + 2"
proof -
  have "(of_char c :: nat) < 65536" for c :: char
    by (rule less_trans [of _ 256]) simp_all
  then have "length (concat (map dumps_char (ustring_of s))) \<le> 6 * length s"
    by (induction s) (use dumps_char_length(2) in \<open>auto simp: ustring_of_def intro: add_mono\<close>)
  then show ?thesis by (simp add: dumps_text_def)
qed

section \<open>Decimal numerals\<close>

lemma dec_of_nat_length: "n < 10 ^ Suc k \<Longrightarrow> length (dec_of_nat n) \<le> Suc k"
proof (induction k arbitrary: n)
  case 0
  then show ?case by (subst dec_of_nat.simps) simp
next
  case (Suc k)
  have "n div 10 < 10 ^ Suc k" using Suc.prems by (simp add: less_mult_imp_div_less mult.commute)
  from Suc.IH [OF this] show ?case by (subst dec_of_nat.simps) simp
qed

lemma read_plain_digits:
  "list_all is_digit_ascii (c # cs) \<Longrightarrow>
   read_digits 10 prev acc (c # cs) = Some (foldl (\<lambda>a d. a * 10 + (of_char d - 48)) acc (c # cs))"
proof (induction cs arbitrary: c prev acc)
  case Nil
  then show ?case by (auto simp: digit_value_def char_class_defs)
next
  case (Cons d ds)
  have "c \<noteq> CHR ''_''" "of_char c - 48 < (10 :: nat)" "digit_value c = Some (of_char c - 48)"
    using Cons.prems by (auto simp: digit_value_def char_class_defs)
  then show ?case using Cons.IH [of d True "acc * 10 + (of_char c - 48)"] Cons.prems by simp
qed

lemma dec_value: "foldl (\<lambda>a d. a * 10 + (of_char d - 48)) 0 (dec_of_nat n) = n"
proof (induction n rule: dec_of_nat.induct)
  case (1 n)
  have digit: "of_char (digit_char d) - 48 = d" if "d < 10" for d
    using that less_16_cases [of d] by auto
  show ?case
  proof (cases "n < 10")
    case True
    then show ?thesis by (subst dec_of_nat.simps) (simp add: digit)
  next
    case False
    then show ?thesis using 1 by (subst dec_of_nat.simps) (simp add: digit)
  qed
qed

lemma content_length_roundtrip:
  assumes "n < 1000000"
  shows "parse_content_length (Some (dec_of_nat n)) = Inr n"
proof -
  let ?d = "dec_of_nat n"
  have digits: "\<forall>c \<in> set ?d. is_digit_ascii c" using dec_of_nat_digits(1) by (simp add: list_all_iff)
  obtain c cs where cs: "?d = c # cs" using dec_of_nat_digits(2) by (cases ?d) auto
  have "length (filter is_digit_ascii ?d) \<le> 4300"
    using dec_of_nat_length [of n 5] assms
    by (intro le_trans [OF length_filter_le]) simp
  moreover have "strip is_py_space ?d = ?d"
    by (rule strip_same) (use digits in \<open>auto simp: is_py_space_def char_class_defs\<close>)
  moreover have "c \<noteq> CHR ''-''" "c \<noteq> CHR ''+''" using digits cs by (auto simp: char_class_defs)
  moreover have "read_digits 10 False 0 ?d = Some n"
    using read_plain_digits [of c cs False 0] dec_of_nat_digits(1) [of n] dec_value [of n] by (simp only: cs)
  ultimately have "int_of_dec ?d = Some (int n)"
    by (simp add: int_of_dec_def Let_def cs)
  moreover have "list_all is_digit_latin ?d" using digits by (simp add: is_digit_latin_def list_all_iff)
  ultimately show ?thesis using dec_of_nat_digits(2) by (simp add: parse_content_length_def)
qed

section \<open>Identifiers the agent reads back\<close>

lemma uuid_str_hyphenated: "hyphenated (uuid_str u) = Some (uuid_hex u)"
proof -
  define h where "h = uuid_hex u"
  have len: "length h = 32" by (simp add: h_def)
  have str: "uuid_str u = take 8 h @ ''-'' @ take 4 (drop 8 h) @ ''-'' @ take 4 (drop 12 h) @ ''-'' @
      take 4 (drop 16 h) @ ''-'' @ drop 20 h"
    unfolding uuid_str_def Let_def h_def by (rule refl)
  have "take 8 h @ take 4 (drop 8 h) @ take 4 (drop 12 h) @ take 4 (drop 16 h) @ drop 20 h = h"
    using drop_split [of 0 h 8] drop_split [of 8 h 4] drop_split [of 12 h 4] drop_split [of 16 h 4] by simp
  then show ?thesis
    unfolding hyphenated_def str h_def [symmetric] using len by (simp add: nth_append)
qed

lemma read_uuid_str: "read_uuid (JStr (uuid_str u)) = Some u"
proof -
  have no: "CHR ''_'' \<notin> set (uuid_hex u)" using hex_chars_not [of "CHR ''_''" u] by (auto simp: marks_def)
  have "uuid_digits (uuid_str u) = Some (uuid_hex u)" by (simp add: uuid_digits_def uuid_str_hyphenated)
  moreover have "read_digits 16 False 0 (uuid_hex u) = Some (unat u)"
  proof -
    have "read_digits 16 True 0 (hex_of_nat 32 (unat u) @ []) = Some (unat u mod 16 ^ 32)"
      unfolding read_hex by simp
    moreover have "unat u < 16 ^ 32" using unsigned_less [of u, where ?'a = nat] by simp
    moreover have "uuid_hex u \<noteq> []" using length_uuid_hex [of u] by fastforce
    ultimately show ?thesis
      using read_digits_start [of "uuid_hex u"] no by (simp add: uuid_hex_def) (metis hd_in_set)
  qed
  ultimately show ?thesis using no by (simp add: read_uuid_def list_ex_iff)
qed

lemma hex_lower: "is_hex_lower c \<Longrightarrow> is_lower_ascii c \<or> is_digit_ascii c"
  by (auto simp: char_class_defs)

lemma uuid_hex_lower: "c \<in> set (uuid_hex u) \<Longrightarrow> is_lower_ascii c \<or> is_digit_ascii c"
  using uuid_hex_chars [of u] hex_lower by (auto simp: list_all_iff)

lemma uuid_hex_nonempty: "uuid_hex u \<noteq> []"
  using length_uuid_hex [of u] by fastforce

lemma subfolder_accepted: "subfolder_pattern (''/stream/'' @ uuid_hex u)"
  using uuid_hex_lower [of _ u] uuid_hex_nonempty [of u]
  by (simp add: subfolder_pattern_def Let_def list_all_iff) (metis hd_in_set last_in_set)

text \<open>What the tables of \<open>unicodedata\<close> say of ASCII.\<close>

definition ascii_tables :: "unicode_data \<Rightarrow> bool" where
  "ascii_tables U \<longleftrightarrow>
     (\<forall>c. is_lower_ascii c \<or> is_digit_ascii c \<longrightarrow> is_alnum U (of_char c)) \<and>
     (\<forall>c. c < 32 \<or> c = 127 \<longrightarrow> take 1 (category U c) = ''C'')"

lemma container_name_accepted:
  assumes "ascii_tables U"
  shows "list_all (host_label U) (split_at 46 (ustring_of (container_name u)))"
proof -
  have lower: "is_lower_ascii c \<or> is_digit_ascii c \<or> c = CHR ''-''" if "c \<in> set (container_name u)" for c
    using that uuid_hex_lower [of c u] by (auto simp: container_name_def char_class_defs)
  have ends: "is_lower_ascii (hd (container_name u))" "last (container_name u) = last (uuid_hex u)"
    using uuid_hex_nonempty [of u] by (simp_all add: container_name_def char_class_defs)
  have alnum: "is_alnum U (of_char c)" if "is_lower_ascii c \<or> is_digit_ascii c" for c
    using assms that unfolding ascii_tables_def by blast
  have "46 \<notin> set (ustring_of (container_name u))"
  proof
    assume "46 \<in> set (ustring_of (container_name u))"
    then obtain c where c: "c \<in> set (container_name u)" "of_char c = (46 :: nat)" by (auto simp: ustring_of_def)
    from lower [OF c(1)] c(2) show False by (auto simp: char_class_defs)
  qed
  then have split: "split_at 46 (ustring_of (container_name u)) = [ustring_of (container_name u)]"
    by (rule split_at_plain)
  have nonempty: "container_name u \<noteq> []" by (simp add: container_name_def)
  have "is_alnum U (of_char (hd (container_name u)))" "is_alnum U (of_char (last (container_name u)))"
    using alnum ends uuid_hex_lower [of "last (uuid_hex u)" u] uuid_hex_nonempty [of u] by auto
  moreover have "is_alnum U (of_char c) \<or> of_char c = (45 :: nat)" if "c \<in> set (container_name u)" for c
    using lower [OF that] alnum [of c] by auto
  moreover have "length (container_name u) = 53" by (simp add: container_name_def)
  ultimately show ?thesis
    unfolding split using nonempty
    by (simp add: host_label_def ustring_of_def list_all_iff hd_map last_map)
qed

section \<open>What the manager sends is what the agent reads\<close>

text \<open>The agent's view of a request of the manager.\<close>

definition wire_netplay :: "agent_config \<Rightarrow> runtime_request \<Rightarrow> netplay_request" where
  "wire_netplay c r =
     \<lparr>nr_role = (case rr_role r of Host \<Rightarrow> NetHost | Client \<Rightarrow> NetClient),
      nr_host = map_option (\<lambda>u. ustring_of (container_name u)) (rr_host_participant_id r),
      nr_port = ag_netplay_port c\<rparr>"

definition wire_create :: "hmac \<Rightarrow> agent_config \<Rightarrow> runtime_request \<Rightarrow> create_request" where
  "wire_create H c r =
     \<lparr>q_session_id = rr_session_id r, q_participant_id = rr_participant_id r, q_user_id = rr_user_id r,
      q_player_name = rr_player_name r, q_image = ag_image c, q_rom_path = rr_rom_path r,
      q_rom_sha256 = rr_rom_sha256 r, q_core_profile = rr_core_profile r, q_netplay = wire_netplay c r,
      q_stream_subfolder = ''/stream/'' @ uuid_hex (rr_participant_id r),
      q_stream_network = ag_stream_network c, q_netplay_network = ag_netplay_network c,
      q_gpu_profile = ag_gpu_profile c,
      q_master_token = ustring_of (derive_master_token H (ag_orchestration_secret c) (rr_participant_id r))\<rparr>"

text \<open>
  What the manager's own validation gives, the lengths that only the agent bounds, and the
  display name as the manager's validator leaves it.
\<close>

definition compatible :: "unicode_data \<Rightarrow> hmac \<Rightarrow> agent_config \<Rightarrow> runtime_request \<Rightarrow> bool" where
  "compatible U H c r \<longleftrightarrow> runtime_request_ok r \<and> agent_config_ok c \<and> ag_stream_network c \<noteq> ag_netplay_network c \<and>
     length (ag_stream_network c) \<le> 63 \<and> length (ag_netplay_network c) \<le> 63 \<and> length (ag_image c) \<le> 512 \<and>
     length (rr_core_profile r) \<le> 64 \<and>
     strip (is_space U) (rr_player_name r) = rr_player_name r \<and>
     list_all (\<lambda>x. take 1 (category U x) \<noteq> ''C'') (rr_player_name r) \<and>
     (rr_role r = Client \<longleftrightarrow> rr_host_participant_id r \<noteq> None) \<and>
     (\<forall>k m. length (H k m) = 64)"

lemma netplay_accepted:
  assumes "ascii_tables U" and "compatible U H c r"
  shows "read_netplay U (JObj [(''role'', JStr (case rr_role r of Host \<Rightarrow> ''host'' | Client \<Rightarrow> ''client'')),
      (''host'', case rr_host_participant_id r of None \<Rightarrow> JNull | Some u \<Rightarrow> JStr (container_name u)),
      (''port'', JInt (ag_netplay_port c))]) = Some (wire_netplay c r)"
proof -
  have port: "1024 \<le> ag_netplay_port c" "ag_netplay_port c \<le> 65535"
    and role: "rr_role r = Client \<longleftrightarrow> rr_host_participant_id r \<noteq> None"
    using assms(2) by (simp_all add: compatible_def agent_config_ok_def)
  have size: "length (container_name u) = 53" for u by (simp add: container_name_def)
  have "netplay_ok U (wire_netplay c r)"
    using port role container_name_accepted [OF assms(1)] size
    by (cases "rr_role r") (auto simp: netplay_ok_def wire_netplay_def validate_host_def)
  then show ?thesis
    unfolding wire_netplay_def using role
    by (cases "rr_role r"; cases "rr_host_participant_id r")
      (simp_all add: read_netplay_def only_keys_def read_role_def Let_def)
qed

lemma clean_name_accepted:
  assumes "ascii_tables U" and "compatible U H c r"
  shows "validate_player_name U (rr_player_name r)"
  using assms unfolding compatible_def validate_player_name_def ascii_tables_def list_all_iff
  by (meson not_le)

lemma create_request_accepted:
  assumes "ascii_tables U" and "compatible U H c r"
  shows "create_request_ok U (wire_create H c r)"
proof -
  have image: "1 \<le> length (ag_image c)"
    using assms(2) by (simp add: compatible_def agent_config_ok_def image_pattern_def Let_def)
  have nets: "1 \<le> length s" if "network_pattern s" for s
    using that by (cases s) (simp_all add: network_pattern_def)
  have slug: "1 \<le> length s" if "slug_pattern s" for s
    using that by (cases s) (simp_all add: slug_pattern_def)
  show ?thesis
    using assms(2) clean_name_accepted [OF assms] image subfolder_accepted nets slug
    by (simp add: create_request_ok_def wire_create_def compatible_def runtime_request_ok_def agent_config_ok_def
        network_name_def slug_def derive_master_token_def)
qed

lemma gpu_profile_accepted: "read_gpu_profile (JStr (gpu_profile_text g)) = Some g"
  by (cases g) (simp_all add: read_gpu_profile_def)

lemma read_create_payload:
  assumes "ascii_tables U" and "compatible U H c r"
  shows "read_create_request U (create_payload H c r) = Some (wire_create H c r)"
proof -
  have keys: "only_keys create_request_keys (create_payload H c r) = Some ()"
    by (simp add: only_keys_def create_request_keys_def create_payload_def)
  show ?thesis
    unfolding read_create_request_def keys
    using create_request_accepted [OF assms]
    by (simp add: create_payload_def read_uuid_str netplay_accepted [OF assms] gpu_profile_accepted Let_def)
      (simp add: wire_create_def)
qed

section \<open>The size of a request\<close>

lemma join_with_length: "length (join_with '','' xs) \<le> sum_list (map (\<lambda>x. length x + 1) xs)"
  by (induction "'',''" xs rule: join_with.induct) simp_all

definition member_bound :: "string \<times> json \<Rightarrow> nat" where
  "member_bound m = 6 * length (fst m) + 4 + length (send_json (snd m))"

lemma object_length: "length (send_json (JObj kvs)) \<le> 2 + sum_list (map member_bound kvs)"
proof -
  let ?f = "\<lambda>(k, v). dumps_text (ustring_of k) @ '':'' @ send_json v"
  have "length (?f m) + 1 \<le> member_bound m" for m
    using dumps_ascii_length [of "fst m"] by (cases m) (simp add: member_bound_def)
  then have "sum_list (map (\<lambda>x. length x + 1) (map ?f kvs)) \<le> sum_list (map member_bound kvs)"
    by (simp add: comp_def del: length_append) (rule sum_list_mono, blast)
  then show ?thesis using join_with_length [of "map ?f kvs"] by simp
qed

lemma create_payload_size:
  assumes "compatible U H c r"
  shows "length (send_json (create_payload H c r)) \<le> max_request_bytes"
    "2 \<le> length (send_json (create_payload H c r))"
proof -
  define net where "net = JObj [(''role'', JStr (case rr_role r of Host \<Rightarrow> ''host'' | Client \<Rightarrow> ''client'')),
      (''host'', case rr_host_participant_id r of None \<Rightarrow> JNull | Some u \<Rightarrow> JStr (container_name u)),
      (''port'', JInt (ag_netplay_port c))]"
  have fields: "length (rr_user_id r) \<le> 128" "length (rr_player_name r) \<le> 31" "length (rr_rom_path r) \<le> 4096"
    "length (rr_rom_sha256 r) = 64" "length (rr_core_profile r) \<le> 64" "length (ag_image c) \<le> 512"
    "length (ag_stream_network c) \<le> 63" "length (ag_netplay_network c) \<le> 63"
    and port: "0 \<le> ag_netplay_port c" "ag_netplay_port c \<le> 65535" and mac: "\<And>k m. length (H k m) = 64"
    using assms by (simp_all add: compatible_def runtime_request_ok_def agent_config_ok_def safe_user_id_def sha256_text_def)
  have "length (str_of_int (ag_netplay_port c)) \<le> 5"
    using port dec_of_nat_length [of "nat (ag_netplay_port c)" 4] by (simp add: str_of_int_def nat_less_iff)
  moreover have "length (container_name u) = 53" for u by (simp add: container_name_def)
  ultimately have net: "length (send_json net) \<le> 600"
    unfolding net_def
    using dumps_ascii_length [of "''host''"] dumps_ascii_length [of "''client''"]
      dumps_ascii_length [of "container_name (the (rr_host_participant_id r))"]
    by (intro le_trans [OF object_length])
      (cases "rr_role r"; cases "rr_host_participant_id r"; simp add: member_bound_def)
  show "length (send_json (create_payload H c r)) \<le> max_request_bytes"
    unfolding create_payload_def net_def [symmetric]
    using fields net dec_of_nat_length [of "Suc 0" 0] dumps_ascii_length [of "uuid_str (rr_session_id r)"]
      dumps_ascii_length [of "uuid_str (rr_participant_id r)"] dumps_ascii_length [of "rr_user_id r"]
      dumps_text_length [of "rr_player_name r"] dumps_ascii_length [of "ag_image c"]
      dumps_text_length [of "rr_rom_path r"] dumps_ascii_length [of "rr_rom_sha256 r"]
      dumps_ascii_length [of "rr_core_profile r"] dumps_ascii_length [of "''/stream/'' @ uuid_hex (rr_participant_id r)"]
      dumps_ascii_length [of "ag_stream_network c"] dumps_ascii_length [of "ag_netplay_network c"]
      dumps_ascii_length [of "gpu_profile_text (ag_gpu_profile c)"]
      dumps_ascii_length [of "derive_master_token H (ag_orchestration_secret c) (rr_participant_id r)"]
    by (intro le_trans [OF object_length])
      (cases "ag_gpu_profile c"; simp add: member_bound_def max_request_bytes_def derive_master_token_def mac
        str_of_int_def)
  show "2 \<le> length (send_json (create_payload H c r))"
    by (simp add: create_payload_def)
qed

section \<open>The composition\<close>

text \<open>The handle the manager makes of a record.\<close>

definition handle_of :: "runtime_record \<Rightarrow> runtime_handle" where
  "handle_of x = \<lparr>h_runtime_id = rt_participant_id x, h_state = rt_state x, h_health_status = rt_health x\<rparr>"

text \<open>The status the server answers an exception with.\<close>

definition failure_status :: "agent_exn \<Rightarrow> int" where
  "failure_status e =
     (if is_value_error e then 400 else if is_not_found e then 404 else if is_conflict e then 409
      else case e of AgentOwnership m \<Rightarrow> 403 | AgentEngine m \<Rightarrow> 502 | _ \<Rightarrow> 500)"

definition rejected :: "agent_exn \<Rightarrow> exn" where
  "rejected e =
     OrchestrationError (''Runtime Agent rejected the operation with HTTP '' @ str_of_int (failure_status e))"

text \<open>The manager's side of a call of the service: the exception becomes an \<open>OrchestrationError\<close>.\<close>

definition seen_by_manager ::
  "('a \<Rightarrow> 'b) \<Rightarrow> (agent_exn, 's, 'a) prog \<Rightarrow> (exn, 's, 'b) prog" where
  "seen_by_manager f p =
     (\<lambda>s. case p s of (Inl e, t) \<Rightarrow> (Inl (rejected e), t) | (Inr a, t) \<Rightarrow> (Inr (f a), t))"

lemma fst_failure_answer: "fst (failure_answer V r e) = failure_status e"
  by (cases e) (simp_all add: failure_status_def)

lemma failure_status_range: "failure_status e \<in> {400, 403, 404, 409, 500, 502}"
  by (cases e) (simp_all add: failure_status_def)

lemma failure_status_iff: "failure_status e = 404 \<longleftrightarrow> is_not_found e" "failure_status e \<noteq> 200"
  by (cases e; simp add: failure_status_def)+

lemma handle_failure: "handle (failure_status e) d = Inl (rejected e)"
  using failure_status_range [of e] by (auto simp: handle_def rejected_def)

lemma handle_record: "200 \<le> status \<Longrightarrow> status < 300 \<Longrightarrow> handle status (record_json x) = Inr (handle_of x)"
  by (cases "rt_health x")
    (simp_all add: handle_def record_json_def py_str_def uuid_roundtrip(1) health_of_json_def handle_of_def)

text \<open>Every answer the server may give comes back as it was sent.\<close>

definition answers_delivered :: "'s server \<Rightarrow> reader \<Rightarrow> http_request \<Rightarrow> 's \<Rightarrow> bool" where
  "answers_delivered V loads r s \<longleftrightarrow> delivered loads (snd (projr (fst (agent_handle V r s))))"

lemma seen_over_wire:
  assumes dispatch: "agent_dispatch V (wire_request verb path content) s =
      bindE p (\<lambda>x. returnE (status, record_json x)) s"
    and "200 \<le> status" "status < 300"
    and answers: "answers_delivered V loads (wire_request verb path content) s"
  shows "bindE (agent_request (wire_exchange V) loads verb path content)
      (\<lambda>(status, document). resultE (handle status document)) s = seen_by_manager handle_of p s"
proof (cases "p s")
  case (Pair w t)
  show ?thesis
  proof (cases w)
    case (Inl e)
    have run: "agent_handle V (wire_request verb path content) s =
        (Inr (failure_answer V (wire_request verb path content) e), t)"
      using dispatch Pair Inl by (simp add: agent_handle_def catchE_def bindE_def returnE_def)
    obtain d where answer: "failure_answer V (wire_request verb path content) e = (failure_status e, d)"
      using fst_failure_answer by (metis prod.collapse)
    have "delivered loads d" using answers run answer by (simp add: answers_delivered_def)
    from agent_request_over_wire [OF run [unfolded answer] this] Pair Inl show ?thesis
      by (simp add: bindE_def resultE_def handle_failure seen_by_manager_def)
  next
    case (Inr x)
    have run: "agent_handle V (wire_request verb path content) s = (Inr (status, record_json x), t)"
      using dispatch Pair Inr by (simp add: agent_handle_def catchE_def bindE_def returnE_def)
    have "delivered loads (record_json x)" using answers run by (simp add: answers_delivered_def)
    from agent_request_over_wire [OF run this] Pair Inr show ?thesis
      by (simp add: bindE_def resultE_def handle_record [OF assms(2,3)] seen_by_manager_def)
  qed
qed

lemma wire_path_runtime: "path_runtime_id [] (''/v1/runtimes/'' @ uuid_str u) = Some u"
proof -
  have "CHR ''/'' \<notin> set (uuid_str u)"
  proof
    assume "CHR ''/'' \<in> set (uuid_str u)"
    then have "CHR ''/'' \<in> set (uuid_hex u)" using uuid_str_parts(1) [of u] by auto
    from uuid_hex_lower [OF this] show False by (simp add: char_class_defs)
  qed
  then show ?thesis by (simp add: path_runtime_id_def starts_with_def Let_def uuid_roundtrip(1))
qed

lemma wire_body:
  assumes "compatible U H c r"
    and "sv_loads V reject_duplicate_keys (send_json (create_payload H c r)) = Inr (create_payload H c r)"
  shows "request_body V (wire_request ''POST'' ''/v1/runtimes'' (Some (create_payload H c r))) =
    Inr (create_payload H c r)"
proof -
  let ?d = "create_payload H c r"
  have size: "length (send_json ?d) \<le> max_request_bytes" "2 \<le> length (send_json ?d)"
    using create_payload_size [OF assms(1)] by blast+
  have "parse_content_length (Some (dec_of_nat (length (send_json ?d)))) = Inr (length (send_json ?d))"
    by (rule content_length_roundtrip) (use size in \<open>simp add: max_request_bytes_def\<close>)
  moreover have "is_object ?d" by (simp add: create_payload_def)
  ultimately show ?thesis
    using size assms(2) unfolding request_body_def wire_request_def by simp
qed

text \<open>
  C20. Creating a runtime through the adapter is creating it in the agent: for every request that passes the
  manager's own validation, within the lengths that only the agent bounds, the agent accepts the body
  the adapter sends and runs \<open>create_runtime\<close> on a request with exactly the manager's fields; the
  manager gets the handle of the agent's record, or an \<open>OrchestrationError\<close> with the
  status of the agent's exception, and the host is left in the same state.
\<close>

theorem creation_over_wire:
  fixes V :: "'s server"
  assumes "ascii_tables (sv_unicode V)"
    and "compatible (sv_unicode V) H c r"
    and "sv_loads V reject_duplicate_keys (send_json (create_payload H c r)) = Inr (create_payload H c r)"
    and "answers_delivered V loads (wire_request ''POST'' ''/v1/runtimes'' (Some (create_payload H c r))) s"
  shows "provider_create H c (agent_request (wire_exchange V) loads) r s =
    seen_by_manager handle_of (create_runtime (sv_agent V) (wire_create H c r)) s"
proof -
  let ?q = "wire_request ''POST'' ''/v1/runtimes'' (Some (create_payload H c r))"
  have "agent_dispatch V ?q s =
      bindE (create_runtime (sv_agent V) (wire_create H c r)) (\<lambda>x. returnE (201, record_json x)) s"
    using wire_body [OF assms(2,3)] read_create_payload [OF assms(1,2)]
    by (simp add: agent_dispatch_def wire_request_def verb_of_def bind_result validate_create_request_def)
  from seen_over_wire [OF this _ _ assms(4)] show ?thesis
    using assms(2) unfolding provider_create_def compatible_def by (cases "rr_role r") auto
qed

definition sample_unicode :: unicode_data where
  "sample_unicode =
     \<lparr>normalize_nfc = (\<lambda>t. t), category = (\<lambda>c. if c < 32 \<or> c = 127 then ''Cc'' else ''Ll''), is_space = (\<lambda>c. c = 32)\<rparr>"

definition sample_hmac :: hmac where
  "sample_hmac k m = replicate 64 (CHR ''0'')"

definition sample_provider :: agent_config where
  "sample_provider =
     \<lparr>ag_image = ''sha256:'' @ replicate 64 (CHR ''0''), ag_stream_network = ''stream'', ag_netplay_network = ''netplay'',
      ag_gpu_profile = Gpu_cpu, ag_netplay_port = 1024, ag_orchestration_secret = replicate 32 48\<rparr>"

definition sample_runtime_request :: runtime_request where
  "sample_runtime_request =
     \<lparr>rr_session_id = 1, rr_participant_id = 2, rr_user_id = ''alice'', rr_player_name = ustring_of ''Alice'',
      rr_rom_path = ustring_of ''/roms/a.sfc'', rr_rom_sha256 = replicate 64 (CHR ''a''),
      rr_core_profile = ''snes9x'', rr_role = Host, rr_host_participant_id = None\<rparr>"

definition sample_server :: "unit machine server" where
  "sample_server =
     \<lparr>sv_agent = sample_agent, sv_unicode = sample_unicode,
      sv_loads = (\<lambda>_ _. Inr (create_payload sample_hmac sample_provider sample_runtime_request)),
      sv_details = (\<lambda>_. JNull)\<rparr>"

lemma sample_tables: "ascii_tables sample_unicode"
  by (auto simp: ascii_tables_def sample_unicode_def is_alnum_def char_class_defs)

lemma sample_compatible: "compatible sample_unicode sample_hmac sample_provider sample_runtime_request"
proof -
  have "runtime_request_ok sample_runtime_request" "agent_config_ok sample_provider"
    by code_simp+
  then show ?thesis
    by (simp add: compatible_def sample_provider_def sample_runtime_request_def sample_unicode_def strip_def
        ustring_of_def sample_hmac_def)
qed

lemma sample_wire_create: "wire_create sample_hmac sample_provider sample_runtime_request = sample_create"
proof -
  have "uuid_hex 2 = ''00000000000000000000000000000002''" by code_simp
  moreover have "ustring_of (replicate 64 (CHR ''0'')) = replicate 64 48" by (simp add: ustring_of_def)
  ultimately show ?thesis
    by (simp add: wire_create_def wire_netplay_def sample_provider_def sample_runtime_request_def sample_create_def
        derive_master_token_def sample_hmac_def)
qed

lemma record_json_size:
  assumes "rt_state r = ''running''" "length (rt_container_id r) \<le> 200" "length (rt_container_name r) \<le> 64"
    "length (rt_stream_subfolder r) \<le> 64"
  shows "length (send_json (record_json r)) \<le> agent_max_response"
proof -
  have "length (health_text (rt_health r)) \<le> 9" by (cases "rt_health r") simp_all
  then show ?thesis
    unfolding record_json_def
    using assms dumps_ascii_length [of "uuid_str (rt_participant_id r)"] dumps_ascii_length [of "rt_container_id r"]
      dumps_ascii_length [of "rt_container_name r"] dumps_ascii_length [of "rt_state r"]
      dumps_ascii_length [of "health_text (rt_health r)"] dumps_ascii_length [of "rt_stream_subfolder r"]
    by (intro le_trans [OF object_length]) (simp add: member_bound_def agent_max_response_def)
qed

lemma sample_server_dispatch:
  "agent_dispatch sample_server
     (wire_request ''POST'' ''/v1/runtimes'' (Some (create_payload sample_hmac sample_provider sample_runtime_request))) s =
   bindE (create_runtime sample_agent sample_create) (\<lambda>x. returnE (201, record_json x)) s"
  using wire_body [OF sample_compatible, of sample_server]
    read_create_payload [OF sample_tables sample_compatible]
  by (simp add: sample_server_def agent_dispatch_def wire_request_def verb_of_def bind_result
      validate_create_request_def sample_wire_create)

theorem creation_over_wire_witness:
  "\<exists>loads x t.
     ascii_tables (sv_unicode sample_server) \<and>
     compatible (sv_unicode sample_server) sample_hmac sample_provider sample_runtime_request \<and>
     answers_delivered sample_server loads (wire_request ''POST'' ''/v1/runtimes''
       (Some (create_payload sample_hmac sample_provider sample_runtime_request))) sample_host \<and>
     provider_create sample_hmac sample_provider (agent_request (wire_exchange sample_server) loads)
       sample_runtime_request sample_host = (Inr x, t) \<and> h_state x = ''running''"
proof -
  let ?d = "create_payload sample_hmac sample_provider sample_runtime_request"
  obtain r t where run: "create_runtime sample_agent sample_create sample_host = (Inr r, t)"
    and r: "rt_state r = ''running''" "length (rt_container_id r) \<le> 200" "length (rt_container_name r) \<le> 64"
      "length (rt_stream_subfolder r) \<le> 64"
    by (rule sample_creation)
  define loads :: reader where "loads = (\<lambda>_. Inr (record_json r))"
  have agent: "sv_agent sample_server = sample_agent" "sv_unicode sample_server = sample_unicode"
    and body: "sv_loads sample_server reject_duplicate_keys (send_json ?d) = Inr ?d"
    by (simp_all add: sample_server_def)
  have "agent_handle sample_server (wire_request ''POST'' ''/v1/runtimes'' (Some ?d)) sample_host =
      (Inr (201, record_json r), t)"
    using sample_server_dispatch [of sample_host] run
    by (simp add: agent_handle_def catchE_def bindE_def returnE_def)
  then have answers: "answers_delivered sample_server loads (wire_request ''POST'' ''/v1/runtimes'' (Some ?d)) sample_host"
    using record_json_size [OF r] by (simp add: answers_delivered_def delivered_def loads_def)
  have "provider_create sample_hmac sample_provider (agent_request (wire_exchange sample_server) loads)
      sample_runtime_request sample_host = (Inr (handle_of r), t)"
    using creation_over_wire [OF sample_tables [folded agent(2)] sample_compatible [folded agent(2)] body answers] run
    by (simp add: agent sample_wire_create seen_by_manager_def)
  moreover have "h_state (handle_of r) = ''running''" using r(1) by (simp add: handle_of_def)
  ultimately show ?thesis
    using answers sample_tables sample_compatible unfolding agent by blast
qed

text \<open>
  Removing a runtime through the adapter is removing it in the agent, and a runtime the agent does not
  know counts as removed: the adapter returns exactly when \<open>remove_runtime\<close> returned or found
  no container, and raises \<open>OrchestrationError\<close> otherwise, with the host in the state the
  agent left it.
\<close>

theorem removal_over_wire:
  assumes "answers_delivered V loads (wire_request ''DELETE'' (''/v1/runtimes/'' @ uuid_str u) None) s"
  shows "provider_remove (agent_request (wire_exchange V) loads) u s =
    (case remove_runtime (sv_agent V) u s of
       (Inr _, t) \<Rightarrow> (Inr (), t)
     | (Inl e, t) \<Rightarrow>
         if is_not_found e then (Inr (), t)
         else (Inl (OrchestrationError (''Runtime Agent rejected removal with HTTP '' @ str_of_int (failure_status e))), t))"
proof -
  define path where "path = ''/v1/runtimes/'' @ uuid_str u"
  define q where "q = wire_request ''DELETE'' path None"
  have dispatch: "agent_dispatch V q =
      bindE (remove_runtime (sv_agent V) u) (\<lambda>_. returnE (200, JObj [(''removed'', JBool True)]))"
    using wire_path_runtime [of u, folded path_def]
    by (simp add: q_def agent_dispatch_def wire_request_def verb_of_def)
  obtain w t where run: "remove_runtime (sv_agent V) u s = (w, t)" by fastforce
  define status where "status = (case w of Inr _ \<Rightarrow> 200 | Inl e \<Rightarrow> failure_status e)"
  obtain d where answer: "agent_handle V q s = (Inr (status, d), t)"
  proof (cases w)
    case (Inl e)
    have "agent_handle V q s = (Inr (failure_answer V q e), t)"
      by (simp add: agent_handle_def dispatch catchE_def bindE_def returnE_def run Inl)
    moreover have "failure_answer V q e = (status, snd (failure_answer V q e))"
      by (metis Inl fst_failure_answer old.sum.simps(5) prod.collapse status_def)
    ultimately show ?thesis using that by metis
  next
    case (Inr x)
    have "agent_handle V q s = (Inr (200, JObj [(''removed'', JBool True)]), t)"
      by (simp add: agent_handle_def dispatch catchE_def bindE_def returnE_def run Inr)
    then show ?thesis using that Inr by (simp add: status_def)
  qed
  have "delivered loads d" using assms answer unfolding path_def [symmetric] q_def [symmetric] by (simp add: answers_delivered_def)
  from agent_request_over_wire [OF answer [unfolded q_def] this] show ?thesis
    unfolding run provider_remove_def path_def [symmetric] by (cases w) (simp_all add: status_def bindE_def raiseE_def returnE_def failure_status_iff)
qed

lemma sample_removal_answer:
  "case agent_handle sample_server (wire_request ''DELETE'' (''/v1/runtimes/'' @ uuid_str 3) None) sample_host of
     (Inr (status, d), t) \<Rightarrow> status = 404 \<and> length (send_json d) \<le> 200
   | _ \<Rightarrow> False"
  by code_simp

lemma sample_removal_missing:
  "case remove_runtime (sv_agent sample_server) 3 sample_host of (Inl e, t) \<Rightarrow> is_not_found e | _ \<Rightarrow> False"
  by code_simp

theorem removal_over_wire_witness:
  "\<exists>loads t.
     answers_delivered sample_server loads (wire_request ''DELETE'' (''/v1/runtimes/'' @ uuid_str 3) None) sample_host \<and>
     provider_remove (agent_request (wire_exchange sample_server) loads) 3 sample_host = (Inr (), t)"
proof -
  let ?q = "wire_request ''DELETE'' (''/v1/runtimes/'' @ uuid_str 3) None"
  define d where "d = snd (projr (fst (agent_handle sample_server ?q sample_host)))"
  define loads :: reader where "loads = (\<lambda>_. Inr d)"
  have "length (send_json d) \<le> 200"
    using sample_removal_answer unfolding d_def by (auto split: prod.splits sum.splits)
  then have answers: "answers_delivered sample_server loads ?q sample_host"
    unfolding answers_delivered_def d_def [symmetric] by (simp add: delivered_def loads_def agent_max_response_def)
  obtain e t where "remove_runtime (sv_agent sample_server) 3 sample_host = (Inl e, t)" "is_not_found e"
    using sample_removal_missing by (auto split: prod.splits sum.splits)
  with removal_over_wire [OF answers] answers show ?thesis by auto
qed

end
