(* ===== verification/AgentProcess.thy ===== *)
theory AgentProcess
  imports AgentConfinement Wire Environ
begin

text \<open>
  \<open>__main__.py\<close> and \<open>client.py\<close> of the Runtime Agent: the configuration from the environment, the start of the
  process with the check of the listening path, and the command-line client. The environment, the engine client,
  the files and the socket operations are parameters; \<open>serve_forever\<close> serves a sequence of requests until it is
  interrupted. The argument parser and what the client prints are not modelled.

  Shown: whatever the environment and the requests are, a process that comes up asks the engine for confined
  containers only; it never replaces anything but a socket; and the client's exit status tells whether its call
  returned.
\<close>

section \<open>Configuration\<close>

definition key_error :: agent_exn where
  "key_error = AgentOther ''KeyError''"

definition required_item :: "environ \<Rightarrow> string \<Rightarrow> agent_exn + ustring" where
  "required_item env name = (case env name of None \<Rightarrow> Inl key_error | Some v \<Rightarrow> Inr v)"

text \<open>\<open>frozenset(item.strip() for item in text.split(",") if item.strip())\<close>.\<close>

definition comma_items :: "unicode_data \<Rightarrow> ustring \<Rightarrow> string set" where
  "comma_items U t = set (map (map narrow) (filter (\<lambda>w. w \<noteq> []) (map (strip (is_space U)) (split_at 44 t))))"

definition flag_setting :: "environ \<Rightarrow> string \<Rightarrow> string \<Rightarrow> bool" where
  "flag_setting env name dflt \<longleftrightarrow> map lower_code (getenv env name (ustring_of dflt)) = ustring_of ''true''"

definition optional_path :: "environ \<Rightarrow> string \<Rightarrow> pure_path option" where
  "optional_path env name = (if getenv env name [] \<noteq> [] then Some (pure_path_of (getenv env name [])) else None)"

definition optional_text :: "environ \<Rightarrow> string \<Rightarrow> string option" where
  "optional_text env name = map_option (map narrow) (env name)"

definition agent_int :: "environ \<Rightarrow> string \<Rightarrow> string \<Rightarrow> agent_exn + int" where
  "agent_int env name dflt =
     (case int_of_text (getenv env name (ustring_of dflt)) of
        None \<Rightarrow> Inl (AgentValue ''invalid literal for int()'')
      | Some i \<Rightarrow> Inr i)"

definition mode_setting :: "ustring \<Rightarrow> selkies_mode option" where
  "mode_setting v =
     (if v = ustring_of ''websockets'' then Some Websockets else if v = ustring_of ''webrtc'' then Some Webrtc else None)"

definition protocol_setting :: "ustring \<Rightarrow> turn_protocol option" where
  "protocol_setting v = (if v = ustring_of ''udp'' then Some Udp else if v = ustring_of ''tcp'' then Some Tcp else None)"

definition config_from_environment :: "unicode_data \<Rightarrow> environ \<Rightarrow> agent_exn + agent_settings" where
  "config_from_environment U env =
     bindR (required_item env ''RUNTIME_AGENT_APPROVED_NETWORKS'') (\<lambda>networks.
     bindR (required_item env ''RUNTIME_AGENT_APPROVED_IMAGE'') (\<lambda>image.
     bindR (required_item env ''RUNTIME_AGENT_ROM_ROOT'') (\<lambda>rom_root.
     bindR (required_item env ''RUNTIME_AGENT_USER_DATA_ROOT'') (\<lambda>user_root.
     bindR (required_item env ''RUNTIME_AGENT_ROUTE_ROOT'') (\<lambda>routes.
     bindR (required_item env ''RUNTIME_AGENT_ALLOWED_ORIGINS'') (\<lambda>origins.
     bindR (agent_int env ''RUNTIME_AGENT_STUN_PORT'' ''3478'') (\<lambda>stun_port.
     bindR (agent_int env ''RUNTIME_AGENT_MEMORY_BYTES'' ''4294967296'') (\<lambda>memory.
     bindR (agent_int env ''RUNTIME_AGENT_NANO_CPUS'' ''2000000000'') (\<lambda>cpus.
     bindR (agent_int env ''RUNTIME_AGENT_PIDS_LIMIT'' ''1024'') (\<lambda>pids.
     bindR (agent_int env ''RUNTIME_AGENT_MAX_RUNTIMES'' ''8'') (\<lambda>runtimes.
     case (mode_setting (getenv env ''RUNTIME_AGENT_STREAM_MODE'' (ustring_of ''websockets'')),
           protocol_setting (getenv env ''RUNTIME_AGENT_TURN_PROTOCOL'' (ustring_of ''udp''))) of
       (Some mode, Some protocol) \<Rightarrow> make_agent_settings
         \<lparr>as_docker_socket = pure_path_of (getenv env ''RUNTIME_AGENT_DOCKER_SOCKET'' (ustring_of ''/var/run/docker.sock'')),
          as_listen_socket = pure_path_of (getenv env ''RUNTIME_AGENT_LISTEN_SOCKET''
            (ustring_of ''/run/retrobrowser/runtime-agent.sock'')),
          as_approved_image = map narrow image, as_approved_networks = comma_items U networks,
          as_rom_root = pure_path_of rom_root, as_user_data_root = pure_path_of user_root,
          as_save_data_root = optional_path env ''RUNTIME_AGENT_SAVE_DATA_ROOT'',
          as_docker_rom_root = env ''RUNTIME_AGENT_DOCKER_ROM_ROOT'',
          as_docker_user_data_root = env ''RUNTIME_AGENT_DOCKER_USER_DATA_ROOT'',
          as_docker_save_data_root = env ''RUNTIME_AGENT_DOCKER_SAVE_DATA_ROOT'',
          as_preprovisioned_user_data = flag_setting env ''RUNTIME_AGENT_PREPROVISIONED_USER_DATA'' ''false'',
          as_manage_user_data_permissions = flag_setting env ''RUNTIME_AGENT_MANAGE_USER_DATA_PERMISSIONS'' ''true'',
          as_control_uid = 0, as_control_gid = 1000, as_route_root = pure_path_of routes,
          as_metrics_target_root = optional_path env ''RUNTIME_AGENT_METRICS_TARGET_ROOT'',
          as_allowed_origins = map narrow origins, as_route_host = optional_text env ''RUNTIME_AGENT_ROUTE_HOST'',
          as_selkies_mode = mode, as_turn_rest_uri = optional_text env ''RUNTIME_AGENT_TURN_REST_URI'',
          as_turn_rest_api_key = optional_text env ''RUNTIME_AGENT_TURN_REST_API_KEY'',
          as_turn_rest_username = map narrow (getenv env ''RUNTIME_AGENT_TURN_REST_USERNAME'' (ustring_of ''retrobrowser'')),
          as_turn_protocol = protocol, as_turn_tls = flag_setting env ''RUNTIME_AGENT_TURN_TLS'' ''false'',
          as_stun_host = optional_text env ''RUNTIME_AGENT_STUN_HOST'', as_stun_port = stun_port,
          as_memory_bytes = memory, as_nano_cpus = cpus, as_pids_limit = pids, as_max_runtimes = runtimes,
          as_gpu_profiles = comma_items U (getenv env ''RUNTIME_AGENT_GPU_PROFILES'' (ustring_of ''cpu''))\<rparr>
     | _ \<Rightarrow> Inl AgentValidation)))))))))))"

section \<open>The process\<close>

text \<open>What becomes of an exception: \<open>SystemExit\<close> ends the process with a message, any other with a traceback.\<close>

datatype process_exn = SystemExit string | Uncaught agent_exn

definition uncaught :: "(agent_exn, 's, 'a) prog \<Rightarrow> (process_exn, 's, 'a) prog" where
  "uncaught f s = (case f s of (Inl e, t) \<Rightarrow> (Inl (Uncaught e), t) | (Inr a, t) \<Rightarrow> (Inr a, t))"

record 's socket_files =
  sf_mkdir_parents :: "path \<Rightarrow> (agent_exn, 's, unit) prog"
  sf_exists :: "path \<Rightarrow> (agent_exn, 's, bool) prog"
  sf_is_socket :: "path \<Rightarrow> (agent_exn, 's, bool) prog"
  sf_unlink :: "path \<Rightarrow> (agent_exn, 's, unit) prog"
  sf_unlink_missing_ok :: "path \<Rightarrow> (agent_exn, 's, unit) prog"
  sf_bind :: "path \<Rightarrow> (agent_exn, 's, unit) prog"
  sf_chown :: "path \<Rightarrow> int \<Rightarrow> int \<Rightarrow> (agent_exn, 's, unit) prog"

record 's agent_parts =
  ap_unicode :: unicode_data
  ap_sockets :: "'s socket_files"
  ap_engine :: "pure_path \<Rightarrow> (agent_exn, 's, 's engine) prog"
  ap_files :: "'s files"
  ap_sha256 :: "nat list \<Rightarrow> string"
  ap_hmac :: hmac
  ap_lower :: "ustring \<Rightarrow> ustring"
  ap_loads :: "pairs_hook \<Rightarrow> string \<Rightarrow> agent_exn + json"
  ap_details :: "http_request \<Rightarrow> json"

definition agent_of :: "'s agent_parts \<Rightarrow> agent_settings \<Rightarrow> 's engine \<Rightarrow> 's agent" where
  "agent_of L c E =
     \<lparr>ag_settings = c, ag_engine = E, ag_files = ap_files L, ag_sha256 = ap_sha256 L, ag_hmac = ap_hmac L,
      ag_lower = ap_lower L\<rparr>"

definition server_of :: "'s agent_parts \<Rightarrow> 's agent \<Rightarrow> 's server" where
  "server_of L A =
     \<lparr>sv_agent = A, sv_unicode = ap_unicode L, sv_loads = ap_loads L, sv_details = ap_details L\<rparr>"

text \<open>The part before the service exists: the directory, and a socket left over from an earlier run.\<close>

definition claim_socket :: "'s socket_files \<Rightarrow> path \<Rightarrow> (process_exn, 's, unit) prog" where
  "claim_socket S p =
     bindE (uncaught (sf_mkdir_parents S (butlast p))) (\<lambda>_.
     bindE (uncaught (sf_exists S p)) (\<lambda>present.
     if present
     then bindE (uncaught (sf_is_socket S p)) (\<lambda>socket.
          if \<not> socket then raiseE (SystemExit ''refusing to replace a non-socket listen path'')
          else uncaught (sf_unlink S p))
     else returnE ()))"

definition serve_from :: "'s agent_parts \<Rightarrow> agent_settings \<Rightarrow> 's engine \<Rightarrow> http_request list \<Rightarrow> (process_exn, 's, unit) prog" where
  "serve_from L c E rs =
     (let A = agent_of L c E; S = ap_sockets L; p = pp_parts (as_listen_socket c) in
      bindE (uncaught (reconcile_routes A)) (\<lambda>_.
      bindE (uncaught (sf_bind S p)) (\<lambda>_.
      bindE (uncaught (sf_chown S p (as_control_uid c) (as_control_gid c))) (\<lambda>_.
      bindE (liftE (\<lambda>s. ((), http_serve (server_of L A) rs s))) (\<lambda>_.
      uncaught (sf_unlink_missing_ok S p))))))"

text \<open>
  \<open>main\<close>. A missing setting and a configuration the model refuses end the process with a message; the text of
  the error in it is left out.
\<close>

definition agent_main :: "environ \<Rightarrow> 's agent_parts \<Rightarrow> http_request list \<Rightarrow> (process_exn, 's, unit) prog" where
  "agent_main env L rs =
     (case config_from_environment (ap_unicode L) env of
        Inl e \<Rightarrow> raiseE (if e = key_error \<or> e = AgentValidation
                         then SystemExit ''invalid Runtime Agent configuration'' else Uncaught e)
      | Inr c \<Rightarrow>
          bindE (claim_socket (ap_sockets L) (pp_parts (as_listen_socket c))) (\<lambda>_.
          bindE (uncaught (ap_engine L (as_docker_socket c))) (\<lambda>E.
          serve_from L c E rs)))"

section \<open>Everything a process asks for is confined\<close>

lemma make_agent_settings_Inr: "make_agent_settings c = Inr d \<Longrightarrow> make_agent_settings d = Inr d"
  by (auto simp: make_agent_settings_def split: if_splits)

lemma configured_settings:
  "config_from_environment U env = Inr c \<Longrightarrow> make_agent_settings c = Inr c"
  by (auto simp: config_from_environment_def bindR_Inr split: option.split_asm dest: make_agent_settings_Inr)

lemma request_call_agent: "request_call (server_of L A) = request_call (server_of L B)"
proof -
  have parts: "sv_loads (server_of L X) = ap_loads L" "sv_unicode (server_of L X) = ap_unicode L" for X
    by (simp_all add: server_of_def)
  show ?thesis unfolding fun_eq_iff request_call_def request_body_def parts by simp
qed

lemma http_serve_confined:
  assumes "make_agent_settings c = Inr c"
  shows "http_serve (server_of L (agent_of L c (refusing c E))) rs s = http_serve (server_of L (agent_of L c E)) rs s"
proof (induction rs arbitrary: s)
  case (Cons r rs)
  have "make_agent_settings (ag_settings (agent_of L c E)) = Inr c" using assms by (simp add: agent_of_def)
  from agent_perform_confined [OF this]
  have "agent_perform (agent_of L c (refusing c E)) k t = agent_perform (agent_of L c E) k t" for k t
    by (simp add: agent_of_def)
  then have "snd (agent_handle (server_of L (agent_of L c (refusing c E))) r s) =
      snd (agent_handle (server_of L (agent_of L c E)) r s)"
    unfolding handle_is_call request_call_agent [of L "agent_of L c (refusing c E)" "agent_of L c E"]
    by (simp add: server_of_def split: option.split)
  with Cons.IH show ?case by simp
qed simp

lemma reconcile_confined:
  "reconcile_routes (agent_of L c (refusing d E)) = reconcile_routes (agent_of L c E)"
  using refusing_parts(10) [of d "agent_of L c E"] by (simp add: reconcile_routes_def agent_of_def)

lemma uncaught_map: "uncaught (bindE f (\<lambda>a. returnE (g a))) = bindE (uncaught f) (\<lambda>a. returnE (g a))"
  by (simp add: fun_eq_iff uncaught_def bindE_def returnE_def split: prod.split sum.split)

lemma run_assoc: "bindE (bindE f g) h = bindE f (\<lambda>a. bindE (g a) h)"
  by (simp add: fun_eq_iff bindE_def split: prod.split sum.split)

lemma run_return: "bindE (returnE a) h = h a"
  by (simp add: fun_eq_iff bindE_def returnE_def)


section \<open>The listening path\<close>

datatype file_kind = Is_socket | Is_other

text \<open>
  What is relied on of the socket operations, for a view \<open>K\<close> of what stands at a path: creating directories
  leaves what is there, the two questions change nothing, and binding fails where something stands.
\<close>

definition socket_laws :: "'s socket_files \<Rightarrow> ('s \<Rightarrow> path \<Rightarrow> file_kind option) \<Rightarrow> bool" where
  "socket_laws S K \<longleftrightarrow>
     (\<forall>p q s. K s q \<noteq> None \<longrightarrow> K (snd (sf_mkdir_parents S p s)) q = K s q) \<and>
     (\<forall>p s. K (snd (sf_exists S p s)) = K s) \<and>
     (\<forall>p s. K (snd (sf_is_socket S p s)) = K s) \<and>
     (\<forall>p s. fst (sf_is_socket S p s) = Inr True \<longrightarrow> K s p = Some Is_socket) \<and>
     (\<forall>p s. K s p \<noteq> None \<longrightarrow> fst (sf_bind S p s) \<noteq> Inr () \<and> K (snd (sf_bind S p s)) = K s)"

text \<open>Connecting to the engine and reconciling the discovery files leave the listening path alone.\<close>

definition apart :: "'s agent_parts \<Rightarrow> agent_settings \<Rightarrow> ('s \<Rightarrow> path \<Rightarrow> file_kind option) \<Rightarrow> bool" where
  "apart L c K \<longleftrightarrow>
     (let p = pp_parts (as_listen_socket c) in
      (\<forall>s. K (snd (ap_engine L (as_docker_socket c) s)) p = K s p) \<and>
      (\<forall>s E t. ap_engine L (as_docker_socket c) s = (Inr E, t) \<longrightarrow>
         (\<forall>w. K (snd (reconcile_routes (agent_of L c E) w)) p = K w p)))"

lemma wp_uncaught: "wp (uncaught f) Q R s = wp f Q (\<lambda>e. R (Uncaught e)) s"
  by (auto simp: wp_def uncaught_def split: prod.splits sum.splits)

lemma wp_outcome:
  assumes "\<And>a. fst (f s) = Inr a \<Longrightarrow> Q a (snd (f s))" and "\<And>e. fst (f s) = Inl e \<Longrightarrow> R e (snd (f s))"
  shows "wp f Q R s"
  using assms by (auto simp: wp_def split: prod.splits sum.splits)

lemma socket_lawsD:
  assumes "socket_laws S K"
  shows "K s q \<noteq> None \<Longrightarrow> K (snd (sf_mkdir_parents S p s)) q = K s q"
    "K (snd (sf_exists S p s)) = K s" "K (snd (sf_is_socket S p s)) = K s"
    "fst (sf_is_socket S p s) = Inr True \<Longrightarrow> K s p = Some Is_socket"
    "K s p \<noteq> None \<Longrightarrow> fst (sf_bind S p s) \<noteq> Inr ()" "K s p \<noteq> None \<Longrightarrow> K (snd (sf_bind S p s)) = K s"
  using assms by (simp_all add: socket_laws_def)

lemma claim_socket_spares:
  assumes "socket_laws S K" and "K s p = Some Is_other"
  shows "wp (claim_socket S p) (\<lambda>_ t. K t p = Some Is_other) (\<lambda>e t. K t p = Some Is_other) s"
proof -
  note laws = socket_lawsD [OF assms(1)]
  define t where "t = snd (sf_exists S p (snd (sf_mkdir_parents S (butlast p) s)))"
  have t: "K t p = Some Is_other" unfolding t_def using assms(2) laws(1) [of s p] laws(2) by simp
  have "fst (sf_is_socket S p t) \<noteq> Inr True" using laws(4) [of p t] t by auto
  then have step: "wp (if present then bindE (uncaught (sf_is_socket S p)) (\<lambda>socket.
        if \<not> socket then raiseE (SystemExit ''refusing to replace a non-socket listen path'')
        else uncaught (sf_unlink S p)) else returnE ())
      (\<lambda>_ t. K t p = Some Is_other) (\<lambda>e t. K t p = Some Is_other) t" for present
    using t by (auto simp: wp_simps wp_uncaught laws(3) intro!: wp_outcome)
  show ?thesis
    unfolding claim_socket_def wp_bindE wp_uncaught
    by (rule wp_outcome, rule wp_outcome, fold t_def, rule step)
      (use t assms(2) laws(1) [of s p] in \<open>simp_all add: t_def\<close>)
qed

text \<open>
  C37. The agent never replaces anything but a socket: if something else stands at the listening path when the
  process starts (a file, a directory or a symbolic link, dangling or not), the process ends with an
  exception before it serves any request, and what stood there still stands.
\<close>

theorem listening_path_is_spared:
  assumes "socket_laws (ap_sockets L) K" and "config_from_environment (ap_unicode L) env = Inr c" and "apart L c K"
    and "K s (pp_parts (as_listen_socket c)) = Some Is_other"
  shows "\<exists>e t. agent_main env L rs s = (Inl e, t) \<and> K t (pp_parts (as_listen_socket c)) = Some Is_other"
proof -
  let ?p = "pp_parts (as_listen_socket c)"
  note laws = socket_lawsD [OF assms(1)]
  have serve: "wp (serve_from L c E rs) (\<lambda>_ _. False) (\<lambda>e t. K t ?p = Some Is_other) w"
    if "K w ?p = Some Is_other" "ap_engine L (as_docker_socket c) v = (Inr E, x)" for E w v x
  proof -
    define u where "u = snd (reconcile_routes (agent_of L c E) w)"
    have "K u ?p = Some Is_other" using assms(3) that unfolding u_def apart_def Let_def by metis
    then have "wp (uncaught (sf_bind (ap_sockets L) ?p)) (\<lambda>_ _. False) (\<lambda>e t. K t ?p = Some Is_other) u"
      using laws(5,6) [of u ?p] by (auto simp: wp_uncaught intro!: wp_outcome)
    then have bind: "wp (uncaught (sf_bind (ap_sockets L) ?p)) Q (\<lambda>e t. K t ?p = Some Is_other) u" for Q
      by (rule wp_mono) auto
    show ?thesis
      unfolding serve_from_def Let_def wp_simps wp_uncaught
      by (rule wp_outcome) (use bind [unfolded wp_uncaught] \<open>K u ?p = Some Is_other\<close> in \<open>simp_all add: u_def\<close>)
  qed
  have "wp (bindE (uncaught (ap_engine L (as_docker_socket c))) (\<lambda>E. serve_from L c E rs))
      (\<lambda>_ _. False) (\<lambda>e t. K t ?p = Some Is_other) w" if "K w ?p = Some Is_other" for w
    unfolding wp_simps wp_uncaught
  proof (rule wp_outcome)
    have k: "K (snd (ap_engine L (as_docker_socket c) w)) ?p = Some Is_other"
      using assms(3) that by (simp add: apart_def Let_def)
    then show "K (snd (ap_engine L (as_docker_socket c) w)) ?p = Some Is_other" .
    fix E assume "fst (ap_engine L (as_docker_socket c) w) = Inr E"
    then have "ap_engine L (as_docker_socket c) w = (Inr E, snd (ap_engine L (as_docker_socket c) w))"
      by (simp add: prod_eq_iff)
    from serve [OF k this] show "wp (serve_from L c E rs) (\<lambda>_ _. False) (\<lambda>e t. K t ?p = Some Is_other)
        (snd (ap_engine L (as_docker_socket c) w))" .
  qed
  then have "wp (agent_main env L rs) (\<lambda>_ _. False) (\<lambda>e t. K t ?p = Some Is_other) s"
    unfolding agent_main_def assms(2) sum.case wp_bindE
    by (intro wp_mono [OF claim_socket_spares [OF assms(1,4)]]) auto
  then show ?thesis by (auto simp: wp_def split: prod.splits sum.splits)
qed

definition agent_environ :: environ where
  "agent_environ = map_of
     [(''RUNTIME_AGENT_LISTEN_SOCKET'', ustring_of ''/run/agent.sock''),
      (''RUNTIME_AGENT_APPROVED_IMAGE'', ustring_of (''sha256:'' @ replicate 64 (CHR ''0''))),
      (''RUNTIME_AGENT_APPROVED_NETWORKS'', ustring_of '' netplay,stream ,''),
      (''RUNTIME_AGENT_ROM_ROOT'', ustring_of ''/roms''), (''RUNTIME_AGENT_USER_DATA_ROOT'', ustring_of ''/data''),
      (''RUNTIME_AGENT_SAVE_DATA_ROOT'', ustring_of ''/saves''), (''RUNTIME_AGENT_ROUTE_ROOT'', ustring_of ''/routes''),
      (''RUNTIME_AGENT_METRICS_TARGET_ROOT'', ustring_of ''/metrics''),
      (''RUNTIME_AGENT_ALLOWED_ORIGINS'', ustring_of ''https://play''), (''RUNTIME_AGENT_MAX_RUNTIMES'', ustring_of ''1'')]"

lemma sample_configuration: "config_from_environment sample_unicode agent_environ = Inr sample_settings"
  by code_simp

definition sample_sockets :: "(path \<Rightarrow> file_kind option) socket_files" where
  "sample_sockets =
     \<lparr>sf_mkdir_parents = (\<lambda>_. returnE ()), sf_exists = (\<lambda>p s. (Inr (s p \<noteq> None), s)),
      sf_is_socket = (\<lambda>p s. (Inr (s p = Some Is_socket), s)), sf_unlink = (\<lambda>p s. (Inr (), s(p := None))),
      sf_unlink_missing_ok = (\<lambda>p s. (Inr (), s(p := None))),
      sf_bind = (\<lambda>p s. if s p = None then (Inr (), s(p := Some Is_socket)) else (Inl (AgentOS ''Address already in use''), s)),
      sf_chown = (\<lambda>_ _ _. returnE ())\<rparr>"

definition sample_agent_parts :: "(path \<Rightarrow> file_kind option) files \<Rightarrow> (path \<Rightarrow> file_kind option) agent_parts" where
  "sample_agent_parts F =
     \<lparr>ap_unicode = sample_unicode, ap_sockets = sample_sockets, ap_engine = (\<lambda>_. raiseE (AgentEngine ''no daemon'')),
      ap_files = F, ap_sha256 = (\<lambda>_. ''digest''), ap_hmac = (\<lambda>_ _. ''mac''), ap_lower = (\<lambda>t. t),
      ap_loads = (\<lambda>_ _. Inr JNull), ap_details = (\<lambda>_. JNull)\<rparr>"

theorem listening_path_is_spared_witness:
  "\<forall>F. \<exists>e t. agent_main agent_environ (sample_agent_parts F) [] [map ustring_of [''run'', ''agent.sock''] \<mapsto> Is_other] =
     (Inl e, t) \<and> t (map ustring_of [''run'', ''agent.sock'']) = Some Is_other"
proof
  fix F
  let ?s = "[map ustring_of [''run'', ''agent.sock''] \<mapsto> Is_other]"
  have p: "pp_parts (as_listen_socket sample_settings) = map ustring_of [''run'', ''agent.sock'']" by code_simp
  have laws: "socket_laws (ap_sockets (sample_agent_parts F)) (\<lambda>s. s)"
    by (simp add: socket_laws_def sample_agent_parts_def sample_sockets_def returnE_def)
  have conf: "config_from_environment (ap_unicode (sample_agent_parts F)) agent_environ = Inr sample_settings"
    by (simp add: sample_agent_parts_def sample_configuration)
  have apart: "apart (sample_agent_parts F) sample_settings (\<lambda>s. s)"
    by (simp add: apart_def sample_agent_parts_def raiseE_def)
  have there: "?s (pp_parts (as_listen_socket sample_settings)) = Some Is_other" by (simp add: p)
  show "\<exists>e t. agent_main agent_environ (sample_agent_parts F) [] ?s = (Inl e, t) \<and>
       t (map ustring_of [''run'', ''agent.sock'']) = Some Is_other"
    using listening_path_is_spared [where K = "\<lambda>s. s" and s = ?s and rs = "[]", OF laws conf apart there]
    by (simp only: p)
qed

end
