(* ===== verification/AgentClient.thy ===== *)
theory AgentClient
  imports AgentProcess
begin

text \<open>
  \<open>client.py\<close> of the Runtime Agent, the command-line client of the UNIX-socket API, over the server of
  \<open>api/server.py\<close>: the request of every action and the exit status. What it prints is not modelled.

  Shown: the client ends normally exactly when the service call of its action returned.
\<close>

datatype agent_action =
    Do_create string
  | Do_list
  | Do_health
  | Do_capacity
  | Do_inspect uuid
  | Do_stop uuid
  | Do_remove uuid

definition client_max_response :: nat where
  "client_max_response = 1024 * 1024"

text \<open>\<open>RuntimeAgentClient.request\<close>: an answer beyond the limit is cut off and does not parse.\<close>

definition client_exchange ::
  "'s server \<Rightarrow> agent_reader \<Rightarrow> string \<Rightarrow> string \<Rightarrow> json option \<Rightarrow> (agent_exn, 's, int \<times> json) prog" where
  "client_exchange V loads meth path content =
     bindE (agent_handle V (wire_request meth path content)) (\<lambda>(status, d).
     bindE (resultE (loads (take client_max_response (send_json d)))) (\<lambda>response. returnE (status, response)))"

definition client_finish :: "(agent_exn, 's, int \<times> json) prog \<Rightarrow> (process_exn, 's, unit) prog" where
  "client_finish f =
     bindE (uncaught f) (\<lambda>(status, response).
     if status < 200 \<or> 300 \<le> status then raiseE (SystemExit ''1'') else returnE ())"

definition runtime_path :: "uuid \<Rightarrow> string" where
  "runtime_path u = ''/v1/runtimes/'' @ uuid_str u"

text \<open>The request of an action; the creation request is read from a file.\<close>

fun action_request :: "agent_reader \<Rightarrow> agent_action \<Rightarrow> process_exn + string \<times> string \<times> json option" where
  "action_request loads (Do_create raw) =
     (if 64 * 1024 < length raw then Inl (SystemExit ''request file is too large'')
      else case loads raw of
        Inl e \<Rightarrow> Inl (Uncaught e)
      | Inr d \<Rightarrow>
          if \<not> is_object d then Inl (SystemExit ''request file must contain a JSON object'')
          else Inr (''POST'', ''/v1/runtimes'', Some d))"
| "action_request loads Do_list = Inr (''GET'', ''/v1/runtimes'', None)"
| "action_request loads Do_health = Inr (''GET'', ''/v1/health'', None)"
| "action_request loads Do_capacity = Inr (''GET'', ''/v1/capacity'', None)"
| "action_request loads (Do_inspect u) = Inr (''GET'', runtime_path u, None)"
| "action_request loads (Do_stop u) = Inr (''POST'', runtime_path u @ ''/stop'', None)"
| "action_request loads (Do_remove u) = Inr (''DELETE'', runtime_path u, None)"

definition agent_client_main :: "'s server \<Rightarrow> agent_reader \<Rightarrow> agent_action \<Rightarrow> (process_exn, 's, unit) prog" where
  "agent_client_main V loads act =
     (case action_request loads act of
        Inl e \<Rightarrow> raiseE e
      | Inr (meth, path, content) \<Rightarrow> client_finish (client_exchange V loads meth path content))"

section \<open>What the exit status tells\<close>

text \<open>The call an action asks for; a file that is no creation request asks for none.\<close>

fun action_call :: "'s server \<Rightarrow> agent_reader \<Rightarrow> agent_action \<Rightarrow> agent_call option" where
  "action_call V loads (Do_create raw) =
     (case action_request loads (Do_create raw) of
        Inl e \<Rightarrow> None
      | Inr (meth, path, content) \<Rightarrow> request_call V (wire_request meth path content))"
| "action_call V loads Do_list = Some ListRuntimes"
| "action_call V loads Do_health = Some Health"
| "action_call V loads Do_capacity = Some Capacity"
| "action_call V loads (Do_inspect u) = Some (InspectRuntime u)"
| "action_call V loads (Do_stop u) = Some (StopRuntime u)"
| "action_call V loads (Do_remove u) = Some (RemoveRuntime u)"

text \<open>The call returned, and a health call found the engine responding.\<close>

definition fulfilled :: "'s server \<Rightarrow> agent_call \<Rightarrow> 's \<Rightarrow> bool" where
  "fulfilled V c s \<longleftrightarrow> fst (agent_perform (sv_agent V) c s) = Inr () \<and>
     (c = Health \<longrightarrow> fst (agent_health (sv_agent V) s) = Inr True)"

text \<open>The client's reader gives back the server's answer.\<close>

definition answer_readable :: "'s server \<Rightarrow> agent_reader \<Rightarrow> http_request \<Rightarrow> 's \<Rightarrow> bool" where
  "answer_readable V loads r s \<longleftrightarrow>
     (case fst (agent_handle V r s) of
        Inl e \<Rightarrow> True
      | Inr (status, d) \<Rightarrow> loads (take client_max_response (send_json d)) = Inr d)"

lemma refusal_status: "400 \<le> fst (failure_answer V r e)"
  by (cases e) simp_all

lemma finish_answered:
  assumes "answer_readable V loads (wire_request m p b) s" and "fst (agent_handle V (wire_request m p b) s) = Inr (status, d)"
  shows "(fst (client_finish (client_exchange V loads m p b) s) = Inr () \<longleftrightarrow> 200 \<le> status \<and> status < 300) \<and>
    snd (client_finish (client_exchange V loads m p b) s) = snd (agent_handle V (wire_request m p b) s)"
proof -
  obtain t where run: "agent_handle V (wire_request m p b) s = (Inr (status, d), t)"
    using assms(2) by (metis prod.collapse)
  have "loads (take client_max_response (send_json d)) = Inr d"
    using assms by (auto simp: answer_readable_def)
  then show ?thesis
    by (simp add: client_finish_def client_exchange_def uncaught_def bindE_def resultE_def returnE_def raiseE_def run)
qed

lemma dispatched_outcome:
  assumes "agent_dispatch V r s = bindE f (\<lambda>a. returnE (g a)) s"
  shows "\<exists>status d. fst (agent_handle V r s) = Inr (status, d) \<and>
    (200 \<le> status \<and> status < 300 \<longleftrightarrow> (\<exists>a. fst (f s) = Inr a \<and> 200 \<le> fst (g a) \<and> fst (g a) < 300))"
proof (cases "f s")
  case (Pair w t)
  show ?thesis
  proof (cases w)
    case (Inl e)
    then show ?thesis using refusal_status [of V r e] Pair
      by (cases "failure_answer V r e") (auto simp: fst_handle assms bindE_def)
  next
    case (Inr a)
    then show ?thesis using Pair by (cases "g a") (auto simp: fst_handle assms bindE_def returnE_def)
  qed
qed

lemma refused_outcome:
  assumes "agent_dispatch V r s = (Inl e, s)"
  shows "\<exists>status d. fst (agent_handle V r s) = Inr (status, d) \<and> \<not> (200 \<le> status \<and> status < 300)"
  using refusal_status [of V r e] by (cases "failure_answer V r e") (simp add: fst_handle assms)

lemma stop_path: "path_runtime_id ''/stop'' (runtime_path u @ ''/stop'') = Some u"
  using wire_path_runtime [of u]
  by (simp add: runtime_path_def path_runtime_id_def starts_with_def ends_with_def Let_def split: if_splits)

lemma other_paths:
  "runtime_path u \<noteq> ''/v1/runtimes''" "runtime_path u \<noteq> ''/v1/health''" "runtime_path u \<noteq> ''/v1/capacity''"
  "runtime_path u @ x \<noteq> ''/v1/runtimes''"
  by (simp_all add: runtime_path_def)

lemmas client_routes = agent_dispatch_def wire_request_def verb_of_def Let_def stop_path other_paths
  wire_path_runtime [folded runtime_path_def]

lemma returned_call:
  "fst (bindE f (\<lambda>_. returnE ()) s) = Inr () \<longleftrightarrow> (\<exists>a. fst (f s) = Inr a)"
  by (auto simp: bindE_def returnE_def split: prod.splits sum.splits)

lemma action_dispatched:
  assumes "action_request loads act = Inr (m, p, b)"
  shows "\<exists>status d. fst (agent_handle V (wire_request m p b) s) = Inr (status, d) \<and>
    (200 \<le> status \<and> status < 300 \<longleftrightarrow> (\<exists>c. action_call V loads act = Some c \<and> fulfilled V c s))"
proof (cases act)
  case (Do_create raw)
  with assms have r: "m = ''POST''" "p = ''/v1/runtimes''" by (auto split: if_splits sum.splits)
  let ?r = "wire_request m p b"
  have call: "action_call V loads act = request_call V ?r" using assms Do_create by simp
  show ?thesis
  proof (cases "request_body V ?r")
    case (Inl e)
    then have "agent_dispatch V ?r s = (Inl e, s)" "request_call V ?r = None"
      by (simp_all add: r client_routes request_call_def bind_result)
    with refused_outcome call show ?thesis by fastforce
  next
    case (Inr d)
    show ?thesis
    proof (cases "read_create_request (sv_unicode V) d")
      case None
      with Inr have "agent_dispatch V ?r s = (Inl AgentValidation, s)" "request_call V ?r = None"
        by (simp_all add: r client_routes request_call_def bind_result validate_create_request_def)
      with refused_outcome call show ?thesis by fastforce
    next
      case (Some q)
      with Inr have "agent_dispatch V ?r s = bindE (create_runtime (sv_agent V) q) (\<lambda>x. returnE (201, record_json x)) s"
          "request_call V ?r = Some (CreateRuntime q)"
        by (simp_all add: r client_routes request_call_def bind_result validate_create_request_def)
      with dispatched_outcome [OF this(1)] call show ?thesis by (simp add: fulfilled_def returned_call)
    qed
  qed
next
  case Do_list
  with assms have "agent_dispatch V (wire_request m p b) s = bindE (list_managed_runtimes (sv_agent V))
      (\<lambda>records. returnE (200, JObj [(''items'', JList (map record_json records))])) s"
    by (auto simp: client_routes)
  from dispatched_outcome [OF this] Do_list show ?thesis by (simp add: fulfilled_def returned_call)
next
  case Do_health
  with assms have "agent_dispatch V (wire_request m p b) s = bindE (agent_health (sv_agent V)) (\<lambda>healthy.
      returnE (if healthy then 200 else 503, JObj [(''ok'', JBool healthy)])) s"
    by (auto simp: client_routes)
  from dispatched_outcome [OF this] Do_health show ?thesis
    by (auto simp: fulfilled_def returned_call split: if_splits)
next
  case Do_capacity
  with assms have "agent_dispatch V (wire_request m p b) s =
      bindE (agent_capacity_of (sv_agent V)) (\<lambda>c. returnE (200, capacity_json c)) s"
    by (auto simp: client_routes)
  from dispatched_outcome [OF this] Do_capacity show ?thesis by (simp add: fulfilled_def returned_call)
next
  case (Do_inspect u)
  with assms have "agent_dispatch V (wire_request m p b) s =
      bindE (inspect_runtime (sv_agent V) u) (\<lambda>x. returnE (200, record_json x)) s"
    by (auto simp: client_routes)
  from dispatched_outcome [OF this] Do_inspect show ?thesis by (simp add: fulfilled_def returned_call)
next
  case (Do_stop u)
  with assms have "agent_dispatch V (wire_request m p b) s =
      bindE (stop_runtime (sv_agent V) u) (\<lambda>x. returnE (200, record_json x)) s"
    by (auto simp: client_routes)
  from dispatched_outcome [OF this] Do_stop show ?thesis by (simp add: fulfilled_def returned_call)
next
  case (Do_remove u)
  with assms have "agent_dispatch V (wire_request m p b) s =
      bindE (remove_runtime (sv_agent V) u) (\<lambda>_. returnE (200, JObj [(''removed'', JBool True)])) s"
    by (auto simp: client_routes)
  from dispatched_outcome [OF this] Do_remove show ?thesis by (simp add: fulfilled_def)
qed

lemma action_routed:
  assumes "action_request loads act = Inr (m, p, b)"
  shows "request_call V (wire_request m p b) = action_call V loads act"
proof (cases act)
  case (Do_create raw)
  with assms show ?thesis by simp
qed (use assms in \<open>auto simp: request_call_def client_routes\<close>)

text \<open>
  C38. The exit status of the Runtime Agent's command-line client tells what happened: the client ends normally
  exactly when the service call its action stands for returned (for a health check, with an engine that
  responds), and the host is left as that call leaves it. An unreadable file, one that is too large or not an
  object, and a request the server refuses change nothing and never look like success.
\<close>

theorem agent_client_tells_outcome:
  assumes "\<And>m p b. action_request loads act = Inr (m, p, b) \<Longrightarrow> answer_readable V loads (wire_request m p b) s"
  shows "(fst (agent_client_main V loads act s) = Inr () \<longleftrightarrow>
      (\<exists>c. action_call V loads act = Some c \<and> fulfilled V c s)) \<and>
    snd (agent_client_main V loads act s) =
      (case action_call V loads act of None \<Rightarrow> s | Some c \<Rightarrow> snd (agent_perform (sv_agent V) c s))"
proof (cases "action_request loads act")
  case (Inl e)
  then obtain raw where "act = Do_create raw" by (cases act) auto
  with Inl show ?thesis by (simp add: agent_client_main_def raiseE_def)
next
  case (Inr x)
  obtain m p b where x: "x = (m, p, b)" by (cases x)
  note req = Inr [unfolded x]
  obtain status d where st: "fst (agent_handle V (wire_request m p b) s) = Inr (status, d)"
      "200 \<le> status \<and> status < 300 \<longleftrightarrow> (\<exists>c. action_call V loads act = Some c \<and> fulfilled V c s)"
    using action_dispatched [OF req, of V s] by (elim exE conjE)
  note finish = finish_answered [OF assms [OF req] st(1)]
  have main: "agent_client_main V loads act = client_finish (client_exchange V loads m p b)"
    by (simp add: agent_client_main_def req)
  have "snd (agent_handle V (wire_request m p b) s) =
      (case action_call V loads act of None \<Rightarrow> s | Some c \<Rightarrow> snd (agent_perform (sv_agent V) c s))"
    using handle_is_call [of V "wire_request m p b" s] unfolding action_routed [OF req] .
  with finish have state: "snd (client_finish (client_exchange V loads m p b) s) =
      (case action_call V loads act of None \<Rightarrow> s | Some c \<Rightarrow> snd (agent_perform (sv_agent V) c s))"
    by (rule trans [OF conjunct2])
  show ?thesis unfolding main using finish st(2) state by blast
qed

theorem agent_client_tells_outcome_witness:
  "fst (agent_client_main sample_server (\<lambda>_. Inr (JObj [(''ok'', JBool True)])) Do_health sample_host) = Inr ()"
proof -
  have "answer_readable sample_server (\<lambda>_. Inr (JObj [(''ok'', JBool True)])) (wire_request ''GET'' ''/v1/health'' None) sample_host"
    by code_simp
  then have "answer_readable sample_server (\<lambda>_. Inr (JObj [(''ok'', JBool True)])) (wire_request m p b) sample_host"
    if "action_request (\<lambda>_. Inr (JObj [(''ok'', JBool True)])) Do_health = Inr (m, p, b)" for m p b
    using that by simp
  from agent_client_tells_outcome [where act = Do_health, OF this]
  have "fst (agent_client_main sample_server (\<lambda>_. Inr (JObj [(''ok'', JBool True)])) Do_health sample_host) = Inr () \<longleftrightarrow>
      fulfilled sample_server Health sample_host" by simp
  moreover have "fulfilled sample_server Health sample_host" by code_simp
  ultimately show ?thesis by blast
qed

end
