(* ===== verification/Entrypoint.thy ===== *)
theory Entrypoint
  imports AgentService
begin

text \<open>
  The process inside a runtime container: \<open>models.py\<close> and \<open>launcher.py\<close> of
  \<open>images/retro-session/session_entrypoint\<close>. It reads the specification the Runtime Agent wrote, checks
  the ROM, the core and the emulator against their hashes and the mounts against the specification, writes
  the emulator's configuration and replaces itself by the emulator.

  The operating system is the record \<open>entry_os\<close>: file operations, \<open>findmnt\<close>, the environment and
  \<open>execv\<close>. The JSON and YAML readers are fields of it. Text is code points; what the process prints is
  not modelled.
\<close>

section \<open>Exceptions\<close>

datatype entry_exn =
    RuntimeValidation string
  | EntryOS
  | EntryProcess
  | EntryUnicode
  | EntryJson
  | EntryYaml
  | EntryValidation
  | EntryKey
  | EntryIndex
  | EntryType
  | EntryOther string

fun is_validation :: "entry_exn \<Rightarrow> bool" where
  "is_validation (RuntimeValidation m) = True"
| "is_validation _ = False"

section \<open>The specification\<close>

record runtime_spec_model =
  sp_session_id :: uuid
  sp_participant_id :: uuid
  sp_user_id :: string
  sp_player_name :: ustring
  sp_canonical_path :: ustring
  sp_expected_sha256 :: string
  sp_core_profile :: string
  sp_netplay :: netplay_request
  sp_subfolder :: string
  sp_host_authoritative :: bool

definition spec_host_valid :: "unicode_data \<Rightarrow> ustring option \<Rightarrow> bool" where
  "spec_host_valid U host \<longleftrightarrow>
     (case host of None \<Rightarrow> True
      | Some v \<Rightarrow> 1 \<le> length v \<and> length v \<le> 253 \<and>
          \<not> list_ex (\<lambda>w. w = [] \<or> length w > 63 \<or> \<not> is_alnum U (hd w) \<or> \<not> is_alnum U (last w) \<or>
               list_ex (\<lambda>c. \<not> (is_alnum U c \<or> c = 45)) w) (split_at 46 v))"

definition role_host_valid :: "netplay_request \<Rightarrow> bool" where
  "role_host_valid n \<longleftrightarrow>
     \<not> (nr_role n = NetClient \<and> nr_host n = None) \<and> \<not> (nr_role n \<noteq> NetClient \<and> nr_host n \<noteq> None)"

definition read_netplay_spec :: "unicode_data \<Rightarrow> json \<Rightarrow> netplay_request option" where
  "read_netplay_spec U d = do {
     only_keys [''role'', ''host'', ''port''] d;
     role \<leftarrow> Option.bind (json_get d ''role'') read_role;
     host \<leftarrow> (case json_get d ''host'' of
                None \<Rightarrow> Some None | Some JNull \<Rightarrow> Some None | Some v \<Rightarrow> map_option Some (json_ustring v));
     port \<leftarrow> Option.bind (json_get d ''port'') strict_int;
     let n = \<lparr>nr_role = role, nr_host = host, nr_port = port\<rparr>;
     if spec_host_valid U host \<and> 1024 \<le> port \<and> port \<le> 65535 \<and> role_host_valid n then Some n else None }"

definition spec_player_name_valid :: "unicode_data \<Rightarrow> ustring \<Rightarrow> bool" where
  "spec_player_name_valid U v \<longleftrightarrow>
     \<not> (v \<noteq> strip (is_space U) v \<or> list_ex (\<lambda>c. c < 32 \<or> c = 127) v)"

definition runtime_spec_ok :: "unicode_data \<Rightarrow> runtime_spec_model \<Rightarrow> bool" where
  "runtime_spec_ok U p \<longleftrightarrow> safe_user_id (sp_user_id p) \<and>
     1 \<le> length (sp_player_name p) \<and> length (sp_player_name p) \<le> 31 \<and> spec_player_name_valid U (sp_player_name p) \<and>
     1 \<le> length (sp_canonical_path p) \<and> length (sp_canonical_path p) \<le> 4096 \<and>
     sha256_text (sp_expected_sha256 p) \<and> slug (sp_core_profile p) \<and>
     9 \<le> length (sp_subfolder p) \<and> length (sp_subfolder p) \<le> 96 \<and> subfolder_pattern (sp_subfolder p) \<and>
     (sp_host_authoritative p \<longrightarrow> nr_role (sp_netplay p) = NetHost)"

definition read_save_mode :: "json \<Rightarrow> bool option" where
  "read_save_mode d = do {
     only_keys [''save_mode''] d;
     case json_get d ''save_mode'' of
       None \<Rightarrow> Some False
     | Some v \<Rightarrow> do {
         s \<leftarrow> json_text v;
         if s = ''ephemeral'' then Some False else if s = ''host-authoritative'' then Some True else None } }"

definition read_stream :: "json \<Rightarrow> string option" where
  "read_stream d = do {
     only_keys [''subfolder'', ''display_profile''] d;
     subfolder \<leftarrow> Option.bind (json_get d ''subfolder'') json_text;
     display \<leftarrow> Option.bind (json_get d ''display_profile'') json_text;
     if display = ''hd-720p60'' then Some subfolder else None }"

definition read_game :: "json \<Rightarrow> (ustring \<times> string) option" where
  "read_game d = do {
     only_keys [''canonical_path'', ''expected_sha256''] d;
     path \<leftarrow> Option.bind (json_get d ''canonical_path'') json_ustring;
     sha \<leftarrow> Option.bind (json_get d ''expected_sha256'') json_text;
     Some (path, sha) }"

definition read_emulator :: "json \<Rightarrow> string option" where
  "read_emulator d = do {
     only_keys [''core_profile''] d;
     Option.bind (json_get d ''core_profile'') json_text }"

definition runtime_spec_keys :: "string list" where
  "runtime_spec_keys =
     [''schema_version'', ''session_id'', ''participant_id'', ''user_id'', ''player_name'', ''game'', ''emulator'',
      ''netplay'', ''stream'', ''persistence'']"

definition read_runtime_spec :: "unicode_data \<Rightarrow> json \<Rightarrow> runtime_spec_model option" where
  "read_runtime_spec U d = do {
     only_keys runtime_spec_keys d;
     version \<leftarrow> Option.bind (json_get d ''schema_version'') strict_int;
     session \<leftarrow> Option.bind (json_get d ''session_id'') read_uuid;
     participant \<leftarrow> Option.bind (json_get d ''participant_id'') read_uuid;
     user \<leftarrow> Option.bind (json_get d ''user_id'') json_text;
     player \<leftarrow> Option.bind (json_get d ''player_name'') json_ustring;
     game \<leftarrow> Option.bind (json_get d ''game'') read_game;
     core \<leftarrow> Option.bind (json_get d ''emulator'') read_emulator;
     netplay \<leftarrow> Option.bind (json_get d ''netplay'') (read_netplay_spec U);
     subfolder \<leftarrow> Option.bind (json_get d ''stream'') read_stream;
     save \<leftarrow> (case json_get d ''persistence'' of None \<Rightarrow> Some False | Some v \<Rightarrow> read_save_mode v);
     let p = \<lparr>sp_session_id = session, sp_participant_id = participant, sp_user_id = user, sp_player_name = player,
              sp_canonical_path = fst game, sp_expected_sha256 = snd game, sp_core_profile = core,
              sp_netplay = netplay, sp_subfolder = subfolder, sp_host_authoritative = save\<rparr>;
     if version = 1 \<and> runtime_spec_ok U p then Some p else None }"

section \<open>The core manifest\<close>

text \<open>What \<open>yaml.safe_load\<close> returns; keys need not be text.\<close>

datatype yaml =
    YNull
  | YBool bool
  | YInt int
  | YText ustring
  | YList "yaml list"
  | YMap "(yaml \<times> yaml) list"
  | YOther string

record artifact =
  ar_name :: ustring
  ar_version :: ustring
  ar_path :: pure_path
  ar_sha256 :: string

record manifest_profile =
  mp_max_players :: int
  mp_topology :: string
  mp_port_devices :: "(int \<times> int) list"
  mp_netplay_validated :: bool
  mp_frontend :: artifact
  mp_core :: artifact

type_synonym core_manifest = "(string \<times> manifest_profile) list"

fun yaml_get :: "yaml \<Rightarrow> string \<Rightarrow> yaml option" where
  "yaml_get (YMap kvs) k = map_of kvs (YText (ustring_of k))"
| "yaml_get _ k = None"

fun yaml_text :: "yaml \<Rightarrow> ustring option" where
  "yaml_text (YText t) = Some t"
| "yaml_text _ = None"

fun yaml_int :: "yaml \<Rightarrow> int option" where
  "yaml_int (YInt i) = Some i"
| "yaml_int _ = None"

definition yaml_ascii :: "yaml \<Rightarrow> string option" where
  "yaml_ascii v = map_option (map narrow) (yaml_text v)"

definition read_artifact :: "yaml \<Rightarrow> artifact option" where
  "read_artifact d = do {
     name \<leftarrow> Option.bind (yaml_get d ''name'') yaml_text;
     version \<leftarrow> Option.bind (yaml_get d ''version'') yaml_text;
     path \<leftarrow> Option.bind (yaml_get d ''artifact_path'') yaml_text;
     sha \<leftarrow> Option.bind (yaml_get d ''artifact_sha256'') yaml_ascii;
     if 1 \<le> length name \<and> length name \<le> 128 \<and> 1 \<le> length version \<and> length version \<le> 64 \<and> sha256_text sha
     then Some \<lparr>ar_name = name, ar_version = version, ar_path = pure_path_of path, ar_sha256 = sha\<rparr> else None }"

definition read_port_device :: "yaml \<times> yaml \<Rightarrow> (int \<times> int) option" where
  "read_port_device e = do {
     port \<leftarrow> yaml_int (fst e);
     device \<leftarrow> yaml_int (snd e);
     if 1 \<le> port \<and> port \<le> 16 \<and> 0 \<le> device \<and> device \<le> 65535 then Some (port, device) else None }"

definition read_port_devices :: "yaml option \<Rightarrow> (int \<times> int) list option" where
  "read_port_devices v =
     (case v of
        None \<Rightarrow> Some []
      | Some (YMap kvs) \<Rightarrow> if length kvs \<le> 16 then those (map read_port_device kvs) else None
      | Some _ \<Rightarrow> None)"

definition read_profile :: "yaml \<Rightarrow> manifest_profile option" where
  "read_profile d = do {
     platform \<leftarrow> Option.bind (yaml_get d ''platform'') yaml_ascii;
     players \<leftarrow> Option.bind (yaml_get d ''max_players'') yaml_int;
     topology \<leftarrow> Option.bind (yaml_get d ''controller_topology'') yaml_ascii;
     devices \<leftarrow> read_port_devices (yaml_get d ''controller_port_devices'');
     status \<leftarrow> Option.bind (yaml_get d ''netplay_status'') yaml_ascii;
     frontend \<leftarrow> Option.bind (yaml_get d ''frontend'') read_artifact;
     core \<leftarrow> Option.bind (yaml_get d ''core'') read_artifact;
     if platform = ''linux-amd64'' \<and> 1 \<le> players \<and> players \<le> 16 \<and> slug topology \<and>
        (status = ''not-tested'' \<or> status = ''validated'')
     then Some \<lparr>mp_max_players = players, mp_topology = topology, mp_port_devices = devices,
                mp_netplay_validated = (status = ''validated''), mp_frontend = frontend, mp_core = core\<rparr>
     else None }"

definition read_named_profile :: "yaml \<times> yaml \<Rightarrow> (string \<times> manifest_profile) option" where
  "read_named_profile e = do {
     name \<leftarrow> yaml_ascii (fst e);
     p \<leftarrow> read_profile (snd e);
     if slug name then Some (name, p) else None }"

definition read_core_manifest :: "yaml \<Rightarrow> core_manifest option" where
  "read_core_manifest d =
     (case d of
        YMap kvs \<Rightarrow>
          if set (map fst kvs) \<subseteq> {YText (ustring_of ''schema_version''), YText (ustring_of ''profiles'')} \<and>
             yaml_get d ''schema_version'' = Some (YInt 1)
          then (case yaml_get d ''profiles'' of
              Some (YMap ps) \<Rightarrow> if ps = [] then None else those (map read_named_profile ps)
            | _ \<Rightarrow> None)
          else None
      | _ \<Rightarrow> None)"

section \<open>The operating system\<close>

record 's entry_os =
  en_unicode :: unicode_data
  en_size :: "path \<Rightarrow> (entry_exn, 's, int) prog"
  en_is_symlink :: "path \<Rightarrow> 's \<Rightarrow> bool \<times> 's"
  en_is_file :: "path \<Rightarrow> 's \<Rightarrow> bool \<times> 's"
  en_read :: "path \<Rightarrow> (entry_exn, 's, string) prog"
  en_read_text :: "path \<Rightarrow> (entry_exn, 's, ustring) prog"
  en_resolve :: "pure_path \<Rightarrow> (entry_exn, 's, path) prog"
  en_sha256 :: "path \<Rightarrow> (entry_exn, 's, string) prog"
  en_findmnt :: "path \<Rightarrow> string \<Rightarrow> (entry_exn, 's, string) prog"
  en_mkdir :: "path \<Rightarrow> nat \<Rightarrow> (entry_exn, 's, unit) prog"
  en_write :: "path \<Rightarrow> ustring \<Rightarrow> (entry_exn, 's, unit) prog"
  en_chmod :: "path \<Rightarrow> nat \<Rightarrow> (entry_exn, 's, unit) prog"
  en_replace :: "path \<Rightarrow> path \<Rightarrow> (entry_exn, 's, unit) prog"
  en_copy :: "path \<Rightarrow> path \<Rightarrow> (entry_exn, 's, unit) prog"
  en_execv :: "ustring list \<Rightarrow> (entry_exn, 's, unit) prog"
  en_environ :: "string \<Rightarrow> ustring option"
  en_cwd :: path
  en_loads :: "((string \<times> json) list \<Rightarrow> entry_exn + json) \<Rightarrow> string \<Rightarrow> entry_exn + json"
  en_plain_loads :: "string \<Rightarrow> entry_exn + json"
  en_safe_load :: "ustring \<Rightarrow> entry_exn + yaml"
  en_spec_locations :: "json \<Rightarrow> string"
  en_manifest_locations :: "yaml \<Rightarrow> string"

record runtime_paths =
  pa_rom_root :: path
  pa_core_root :: path
  pa_frontend_path :: path
  pa_base_config :: path
  pa_core_options :: path
  pa_session_root :: path
  pa_persistent_save_root :: path

record resolved_runtime =
  rv_spec :: runtime_spec_model
  rv_profile :: manifest_profile
  rv_rom_path :: path
  rv_rom_sha256 :: string
  rv_core_path :: path
  rv_core_sha256 :: string
  rv_frontend_path :: path
  rv_frontend_sha256 :: string
  rv_session_home :: path

text \<open>\<open>except OSError as error: raise RuntimeValidationError(message) from error\<close>.\<close>

definition on_os_error :: "string \<Rightarrow> (entry_exn, 's, 'a) prog \<Rightarrow> (entry_exn, 's, 'a) prog" where
  "on_os_error message f =
     catchE f (\<lambda>e. if e = EntryOS then raiseE (RuntimeValidation message) else raiseE e)"

section \<open>Reading the specification and the manifest\<close>

fun spec_reject_loop :: "(string \<times> json) list \<Rightarrow> (string \<times> json) list \<Rightarrow> entry_exn + json" where
  "spec_reject_loop result [] = Inr (JObj result)"
| "spec_reject_loop result ((key, v) # ps) =
     (if key \<in> fst ` set result then Inl (RuntimeValidation (''duplicate JSON key: '' @ key))
      else spec_reject_loop (result @ [(key, v)]) ps)"

definition max_spec_bytes :: int where
  "max_spec_bytes = 65536"

definition load_runtime_spec :: "'s entry_os \<Rightarrow> path \<Rightarrow> (entry_exn, 's, runtime_spec_model) prog" where
  "load_runtime_spec E path =
     bindE (on_os_error ''RuntimeSpec file is unavailable'' (en_size E path)) (\<lambda>size.
     bindE (liftE (en_is_symlink E path)) (\<lambda>link.
     bindE (if link then returnE False else liftE (en_is_file E path)) (\<lambda>file.
     if \<not> file then raiseE (RuntimeValidation ''RuntimeSpec must be a regular non-symlink file'')
     else if size > max_spec_bytes then raiseE (RuntimeValidation ''RuntimeSpec exceeds maximum size'')
     else bindE (en_read E path) (\<lambda>raw.
          bindE (catchE (resultE (en_loads E (spec_reject_loop []) raw))
                   (\<lambda>e. if e = EntryUnicode \<or> e = EntryJson
                        then raiseE (RuntimeValidation ''RuntimeSpec is not valid UTF-8 JSON'') else raiseE e)) (\<lambda>document.
          case read_runtime_spec (en_unicode E) document of
            Some spec \<Rightarrow> returnE spec
          | None \<Rightarrow> raiseE (RuntimeValidation
              (''RuntimeSpec validation failed at: '' @ en_spec_locations E document)))))))"

definition load_core_manifest :: "'s entry_os \<Rightarrow> path \<Rightarrow> (entry_exn, 's, core_manifest) prog" where
  "load_core_manifest E path =
     bindE (catchE (bindE (en_read_text E path) (\<lambda>t. resultE (en_safe_load E t)))
              (\<lambda>e. if e = EntryOS \<or> e = EntryUnicode \<or> e = EntryYaml
                   then raiseE (RuntimeValidation ''core manifest is unavailable or malformed'') else raiseE e)) (\<lambda>document.
     case read_core_manifest document of
       Some m \<Rightarrow> returnE m
     | None \<Rightarrow> raiseE (RuntimeValidation
         (''core manifest validation failed at: '' @ en_manifest_locations E document)))"

section \<open>Resolving the artifacts\<close>

definition artifact_sha256 :: "'s entry_os \<Rightarrow> path \<Rightarrow> (entry_exn, 's, string) prog" where
  "artifact_sha256 E path = on_os_error ''approved artifact could not be read'' (en_sha256 E path)"

text \<open>\<open>path.absolute()\<close>.\<close>

definition absolute_path :: "'s entry_os \<Rightarrow> pure_path \<Rightarrow> path" where
  "absolute_path E p = (if pp_absolute p then pp_parts p else en_cwd E @ pp_parts p)"

definition resolve_approved_file ::
  "'s entry_os \<Rightarrow> pure_path \<Rightarrow> path \<Rightarrow> string \<Rightarrow> (entry_exn, 's, path) prog" where
  "resolve_approved_file E candidate root label =
     bindE (on_os_error (label @ '' does not exist'')
              (bindE (en_resolve E (at_root root)) (\<lambda>r. bindE (en_resolve E candidate) (\<lambda>p. returnE (r, p)))))
       (\<lambda>(resolved_root, resolved).
     if relative_to resolved resolved_root = None
     then raiseE (RuntimeValidation (label @ '' is outside the approved '' @ label @ '' root''))
     else bindE (liftE (en_is_file E resolved)) (\<lambda>file.
       if \<not> file then raiseE (RuntimeValidation (label @ '' is not a regular file''))
       else if [46, 46] \<in> set (pp_parts candidate) \<or> absolute_path E candidate \<noteq> resolved
       then raiseE (RuntimeValidation (label @ '' path is not canonical''))
       else returnE resolved))"

definition resolve_frontend ::
  "'s entry_os \<Rightarrow> runtime_paths \<Rightarrow> manifest_profile \<Rightarrow> (entry_exn, 's, path) prog" where
  "resolve_frontend E paths profile =
     bindE (on_os_error ''approved RetroArch artifact does not exist''
              (bindE (en_resolve E (at_root (pa_frontend_path paths))) (\<lambda>f.
               bindE (en_resolve E (ar_path (mp_frontend profile))) (\<lambda>m. returnE (f, m)))))
       (\<lambda>(frontend, manifest_frontend).
     bindE (if manifest_frontend \<noteq> frontend then returnE False else liftE (en_is_file E frontend)) (\<lambda>ok.
     if \<not> ok then raiseE (RuntimeValidation ''core profile selects an unapproved RetroArch artifact'')
     else returnE frontend))"

definition checked_sha256 :: "'s entry_os \<Rightarrow> path \<Rightarrow> string \<Rightarrow> string \<Rightarrow> (entry_exn, 's, string) prog" where
  "checked_sha256 E path expected label =
     bindE (artifact_sha256 E path) (\<lambda>digest.
     if digest \<noteq> expected then raiseE (RuntimeValidation (label @ '' SHA-256 mismatch'')) else returnE digest)"

definition resolve_runtime ::
  "'s entry_os \<Rightarrow> runtime_spec_model \<Rightarrow> core_manifest \<Rightarrow> runtime_paths \<Rightarrow> (entry_exn, 's, resolved_runtime) prog" where
  "resolve_runtime E spec manifest paths =
     (case map_of manifest (sp_core_profile spec) of
        None \<Rightarrow> raiseE (RuntimeValidation ''RuntimeSpec does not select an approved core profile'')
      | Some profile \<Rightarrow>
          bindE (resolve_approved_file E (pure_path_of (sp_canonical_path spec)) (pa_rom_root paths) ''ROM'') (\<lambda>rom.
          bindE (checked_sha256 E rom (sp_expected_sha256 spec) ''ROM'') (\<lambda>rom_sha.
          bindE (resolve_approved_file E (ar_path (mp_core profile)) (pa_core_root paths) ''core'') (\<lambda>core.
          bindE (checked_sha256 E core (ar_sha256 (mp_core profile)) ''core'') (\<lambda>core_sha.
          bindE (resolve_frontend E paths profile) (\<lambda>frontend.
          bindE (checked_sha256 E frontend (ar_sha256 (mp_frontend profile)) ''RetroArch'') (\<lambda>frontend_sha.
          returnE \<lparr>rv_spec = spec, rv_profile = profile, rv_rom_path = rom, rv_rom_sha256 = rom_sha,
            rv_core_path = core, rv_core_sha256 = core_sha, rv_frontend_path = frontend,
            rv_frontend_sha256 = frontend_sha,
            rv_session_home = pa_session_root paths @
              [ustring_of (uuid_str (sp_session_id spec)), ustring_of (uuid_str (sp_participant_id spec))]\<rparr>)))))))"

section \<open>The emulator's configuration and command line\<close>

text \<open>\<open>text.replace(c, r)\<close> for a single character.\<close>

definition replace_char :: "nat \<Rightarrow> ustring \<Rightarrow> ustring \<Rightarrow> ustring" where
  "replace_char c r t = concat (map (\<lambda>x. if x = c then r else [x]) t)"

definition quote_config :: "ustring \<Rightarrow> ustring" where
  "quote_config v = [34] @ replace_char 34 [92, 34] (replace_char 92 [92, 92] v) @ [34]"

definition below :: "path \<Rightarrow> string list \<Rightarrow> path" where
  "below p ns = p @ map ustring_of ns"

definition config_values :: "resolved_runtime \<Rightarrow> (string \<times> ustring) list" where
  "config_values rt =
     (let spec = rv_spec rt; home = rv_session_home rt; net = sp_netplay spec;
          false = ustring_of ''false''; true = ustring_of ''true'' in
      [(''netplay_nickname'', sp_player_name spec),
       (''netplay_ip_port'', ustring_of (str_of_int (nr_port net))),
       (''netplay_mode'', if nr_role net = NetClient then true else false),
       (''netplay_ip_address'', case nr_host net of None \<Rightarrow> [] | Some h \<Rightarrow> h),
       (''netplay_public_announce'', false),
       (''netplay_use_mitm_server'', false),
       (''netplay_nat_traversal'', false),
       (''netplay_spectator_mode_enable'', false),
       (''netplay_client_swap_input'', false),
       (''netplay_delay_frames'', ustring_of ''0''),
       (''netplay_allow_pausing'', false),
       (''netplay_max_connections'', ustring_of (str_of_int (max (mp_max_players (rv_profile rt) - 1) 1))),
       (''config_save_on_exit'', false),
       (''block_sram_overwrite'', true),
       (''core_options_path'', path_text (below home [''config'', ''retroarch-core-options.cfg''])),
       (''savefile_directory'', if sp_host_authoritative spec then ustring_of ''/run/retro-saves''
          else path_text (below home [''saves''])),
       (''savestate_directory'', path_text (below home [''states''])),
       (''system_directory'', path_text (below home [''system'']))] @
      map (\<lambda>(port, device). (''input_libretro_device_p'' @ str_of_int port, ustring_of (str_of_int device)))
        (sort_key fst (mp_port_devices (rv_profile rt))))"

definition config_line :: "string \<times> ustring \<Rightarrow> ustring" where
  "config_line kv = ustring_of (fst kv) @ ustring_of '' = '' @ quote_config (snd kv)"

fun join_lines :: "ustring list \<Rightarrow> ustring" where
  "join_lines [] = []"
| "join_lines [l] = l"
| "join_lines (l # m # ls) = l @ [10] @ join_lines (m # ls)"

definition rstrip :: "('c \<Rightarrow> bool) \<Rightarrow> 'c list \<Rightarrow> 'c list" where
  "rstrip sp cs = rev (dropWhile sp (rev cs))"

definition render_retroarch_config :: "unicode_data \<Rightarrow> ustring \<Rightarrow> resolved_runtime \<Rightarrow> ustring" where
  "render_retroarch_config U base rt =
     rstrip (is_space U) base @ [10, 10] @ ustring_of ''# Generated by session-entrypoint; do not edit.'' @ [10] @
     join_lines (map config_line (config_values rt)) @ [10]"

definition build_retroarch_argv :: "resolved_runtime \<Rightarrow> path \<Rightarrow> ustring list" where
  "build_retroarch_argv rt config_path =
     (let spec = rv_spec rt; net = sp_netplay spec;
          port = ustring_of (''--port='' @ str_of_int (nr_port net));
          nick = ustring_of ''--nick='' @ sp_player_name spec in
      [path_text (rv_frontend_path rt), ustring_of ''--verbose'', ustring_of ''--config'', path_text config_path] @
      (case nr_role net of
         NetHost \<Rightarrow> [ustring_of ''--host'', port, nick]
       | NetClient \<Rightarrow>
           [ustring_of ''--connect='' @ (case nr_host net of None \<Rightarrow> ustring_of ''None'' | Some h \<Rightarrow> h), port, nick]
       | Standalone \<Rightarrow> []) @
      [ustring_of ''-L'', path_text (rv_core_path rt), path_text (rv_rom_path rt)])"

section \<open>Mounts\<close>

text \<open>\<open>value[key]\<close> and \<open>value[0]\<close>.\<close>

definition item_key :: "json \<Rightarrow> string \<Rightarrow> entry_exn + json" where
  "item_key v k =
     (case v of JObj kvs \<Rightarrow> (case map_of kvs k of None \<Rightarrow> Inl EntryKey | Some x \<Rightarrow> Inr x) | _ \<Rightarrow> Inl EntryType)"

definition item_first :: "json \<Rightarrow> entry_exn + json" where
  "item_first v =
     (case v of
        JList xs \<Rightarrow> (case xs of [] \<Rightarrow> Inl EntryIndex | x # _ \<Rightarrow> Inr x)
      | JStr cs \<Rightarrow> (case cs of [] \<Rightarrow> Inl EntryIndex | c # _ \<Rightarrow> Inr (JStr [c]))
      | JText cs \<Rightarrow> (case cs of [] \<Rightarrow> Inl EntryIndex | c # _ \<Rightarrow> Inr (JText [c]))
      | JObj _ \<Rightarrow> Inl EntryKey
      | _ \<Rightarrow> Inl EntryType)"

definition mount_options_are_read_only :: "ustring \<Rightarrow> bool" where
  "mount_options_are_read_only options \<longleftrightarrow> ustring_of ''ro'' \<in> set (split_at 44 options)"

definition is_mount_error :: "entry_exn \<Rightarrow> bool" where
  "is_mount_error e \<longleftrightarrow> e \<in> {EntryOS, EntryProcess, EntryJson, EntryKey, EntryIndex}"

definition first_filesystem :: "'s entry_os \<Rightarrow> path \<Rightarrow> string \<Rightarrow> (entry_exn, 's, json) prog" where
  "first_filesystem E path columns =
     bindE (en_findmnt E path columns) (\<lambda>out.
     bindE (resultE (en_plain_loads E out)) (\<lambda>document.
     bindE (resultE (item_key document ''filesystems'')) (\<lambda>systems.
     resultE (item_first systems))))"

definition validate_read_only_mount :: "'s entry_os \<Rightarrow> path \<Rightarrow> (entry_exn, 's, unit) prog" where
  "validate_read_only_mount E path =
     bindE (catchE (bindE (first_filesystem E path ''OPTIONS'') (\<lambda>fs. resultE (item_key fs ''options'')))
              (\<lambda>e. if is_mount_error e
                   then raiseE (RuntimeValidation ''ROM mount options could not be verified'') else raiseE e)) (\<lambda>options.
     case json_ustring options of
       None \<Rightarrow> raiseE (RuntimeValidation ''ROM must be mounted read-only'')
     | Some t \<Rightarrow> if mount_options_are_read_only t then returnE ()
                 else raiseE (RuntimeValidation ''ROM must be mounted read-only''))"

definition validate_persistent_save_mount :: "'s entry_os \<Rightarrow> path \<Rightarrow> (entry_exn, 's, unit) prog" where
  "validate_persistent_save_mount E path =
     bindE (catchE (bindE (first_filesystem E path ''TARGET,OPTIONS'') (\<lambda>fs.
                    bindE (resultE (item_key fs ''target'')) (\<lambda>target.
                    bindE (resultE (item_key fs ''options'')) (\<lambda>options. returnE (target, options)))))
              (\<lambda>e. if is_mount_error e
                   then raiseE (RuntimeValidation ''persistent save mount could not be verified'') else raiseE e))
       (\<lambda>(target, options).
     let failed = raiseE (RuntimeValidation ''persistent save directory must be an exact writable mount'') in
     if json_ustring target \<noteq> Some (path_text path) then failed
     else case json_ustring options of
         None \<Rightarrow> failed
       | Some t \<Rightarrow> if ustring_of ''rw'' \<in> set (split_at 44 t) then returnE () else failed)"

section \<open>Starting\<close>

definition prepare_session :: "'s entry_os \<Rightarrow> resolved_runtime \<Rightarrow> runtime_paths \<Rightarrow> (entry_exn, 's, path) prog" where
  "prepare_session E rt paths =
     (let home = rv_session_home rt; config_path = below home [''config'', ''retroarch.cfg''];
          temporary = below home [''config'', ''retroarch.tmp''] in
      on_os_error ''per-session configuration could not be generated'' (
        bindE (forE (\<lambda>d. en_mkdir E d 448)
                 [home, below home [''config''], below home [''saves''], below home [''states''], below home [''system'']]) (\<lambda>_.
        bindE (en_read_text E (pa_base_config paths)) (\<lambda>base.
        bindE (en_write E temporary (render_retroarch_config (en_unicode E) base rt)) (\<lambda>_.
        bindE (en_chmod E temporary 384) (\<lambda>_.
        bindE (en_replace E temporary config_path) (\<lambda>_.
        bindE (en_copy E (pa_core_options paths) (below home [''config'', ''retroarch-core-options.cfg''])) (\<lambda>_.
        returnE config_path))))))))"

definition expected_environment :: "runtime_spec_model \<Rightarrow> (string \<times> string) list" where
  "expected_environment spec =
     [(''SELKIES_SUBFOLDER'', sp_subfolder spec), (''SELKIES_MANUAL_WIDTH'', ''1280''),
      (''SELKIES_MANUAL_HEIGHT'', ''720''), (''SELKIES_FRAMERATE'', ''60-60'')]"

definition validate_stream_environment :: "'s entry_os \<Rightarrow> runtime_spec_model \<Rightarrow> (entry_exn, 's, unit) prog" where
  "validate_stream_environment E spec =
     (let mismatches = filter (\<lambda>(n, v). en_environ E n \<noteq> Some (ustring_of v)) (expected_environment spec) in
      if mismatches \<noteq> []
      then raiseE (RuntimeValidation (''Selkies environment does not match RuntimeSpec fields: '' @
             join_with '', '' (map fst mismatches)))
      else returnE ())"

definition image_paths :: runtime_paths where
  "image_paths =
     \<lparr>pa_rom_root = map ustring_of [''run'', ''roms''], pa_core_root = map ustring_of [''opt'', ''libretro''],
      pa_frontend_path = map ustring_of [''usr'', ''local'', ''bin'', ''retroarch''],
      pa_base_config = map ustring_of [''etc'', ''retro-session'', ''retroarch.cfg''],
      pa_core_options = map ustring_of [''etc'', ''retro-session'', ''retroarch-core-options.cfg''],
      pa_session_root = map ustring_of [''tmp'', ''retro-sessions''],
      pa_persistent_save_root = map ustring_of [''run'', ''retro-saves'']\<rparr>"

text \<open>\<open>run\<close>: the value is the command line the process was replaced by.\<close>

definition entry_run :: "'s entry_os \<Rightarrow> (entry_exn, 's, ustring list) prog" where
  "entry_run E =
     bindE (load_runtime_spec E (map ustring_of [''run'', ''retro-session'', ''runtime-spec.json''])) (\<lambda>spec.
     bindE (load_core_manifest E (map ustring_of [''etc'', ''retro-session'', ''cores.yaml''])) (\<lambda>manifest.
     bindE (validate_stream_environment E spec) (\<lambda>_.
     bindE (resolve_runtime E spec manifest image_paths) (\<lambda>rt.
     bindE (validate_read_only_mount E (rv_rom_path rt)) (\<lambda>_.
     bindE (if sp_host_authoritative spec
            then validate_persistent_save_mount E (pa_persistent_save_root image_paths) else returnE ()) (\<lambda>_.
     bindE (prepare_session E rt image_paths) (\<lambda>config_path.
     bindE (en_execv E (build_retroarch_argv rt config_path)) (\<lambda>_.
     returnE (build_retroarch_argv rt config_path)))))))))"

text \<open>\<open>main\<close>: a validation failure is exit status 64; other exceptions propagate.\<close>

definition entry_main :: "'s entry_os \<Rightarrow> (entry_exn, 's, int + ustring list) prog" where
  "entry_main E =
     catchE (bindE (entry_run E) (\<lambda>argv. returnE (Inr argv)))
       (\<lambda>e. if is_validation e then returnE (Inl 64) else raiseE e)"

end
