(* ===== verification/EntryBehaviour.thy ===== *)
theory EntryBehaviour
  imports Entrypoint Wire
begin

text \<open>
  The entrypoint of a runtime container: that it accepts what the Runtime Agent gives a container,
  that it starts nothing but the approved emulator, core and ROM, and that no value of a
  specification can add a setting to the emulator's configuration.
\<close>

section \<open>What the agent writes is what the entrypoint reads\<close>

text \<open>The specification the entrypoint gets for a request.\<close>

definition spec_of :: "'s agent \<Rightarrow> create_request \<Rightarrow> runtime_spec_model" where
  "spec_of A q =
     \<lparr>sp_session_id = q_session_id q, sp_participant_id = q_participant_id q, sp_user_id = q_user_id q,
      sp_player_name = q_player_name q,
      sp_canonical_path = container_rom A (path_suffix (pp_parts (pure_path_of (q_rom_path q)))),
      sp_expected_sha256 = q_rom_sha256 q, sp_core_profile = q_core_profile q, sp_netplay = q_netplay q,
      sp_subfolder = q_stream_subfolder q,
      sp_host_authoritative = (as_save_data_root (ag_settings A) \<noteq> None \<and> nr_role (q_netplay q) = NetHost)\<rparr>"

text \<open>The value of a variable in the environment list of a container.\<close>

fun env_value :: "ustring list \<Rightarrow> string \<Rightarrow> ustring option" where
  "env_value [] n = None"
| "env_value (e # es) n =
     (let p = ustring_of (n @ ''='') in if take (length p) e = p then Some (drop (length p) e) else env_value es n)"

lemma spec_host_accepted: "netplay_ok U n \<Longrightarrow> spec_host_valid U (nr_host n) \<and> role_host_valid n"
  unfolding netplay_ok_def validate_host_def spec_host_valid_def role_host_valid_def host_label_def
  by (auto simp: list_all_iff list_ex_iff not_less split: option.splits)

lemma read_netplay_json:
  assumes "netplay_ok U n"
  shows "read_netplay_spec U (netplay_json n) = Some n"
proof (cases n)
  case (fields role host port)
  have "1024 \<le> port" "port \<le> 65535" using assms by (simp_all add: netplay_ok_def fields)
  then show ?thesis
    using spec_host_accepted [OF assms] unfolding fields
    by (cases role; cases host)
      (simp_all add: read_netplay_spec_def netplay_json_def only_keys_def read_role_def role_host_valid_def Let_def)
qed

lemma save_mode_roundtrip:
  "read_save_mode (JObj [(''save_mode'', JStr (if b then ''host-authoritative'' else ''ephemeral''))]) = Some b"
  by (simp add: read_save_mode_def only_keys_def)

lemma spec_of_accepted:
  assumes "create_request_ok U q" and "length (q_player_name q) \<le> 31"
    and "length (sp_canonical_path (spec_of A q)) \<le> 4096"
  shows "runtime_spec_ok U (spec_of A q)"
  using assms unfolding create_request_ok_def runtime_spec_ok_def validate_player_name_def
  by (auto simp: spec_of_def spec_player_name_valid_def container_rom_def list_all_iff list_ex_iff not_less)

lemma read_written_spec:
  assumes "create_request_ok U q" and "netplay_ok U (q_netplay q)" and "length (q_player_name q) \<le> 31"
    and "length (sp_canonical_path (spec_of A q)) \<le> 4096"
  shows "read_runtime_spec U (runtime_spec A q) = Some (spec_of A q)"
proof -
  have keys: "only_keys runtime_spec_keys (runtime_spec A q) = Some ()"
    by (simp add: only_keys_def runtime_spec_keys_def runtime_spec_def)
  show ?thesis
    unfolding read_runtime_spec_def keys
    using spec_of_accepted [OF assms(1,3,4)] unfolding spec_of_def
    by (simp add: runtime_spec_def read_uuid_str read_game_def read_emulator_def read_stream_def save_mode_roundtrip
        only_keys_def read_netplay_json [OF assms(2)] Let_def del: not_None_eq split del: if_split)
qed

lemma environment_values:
  assumes "environment A q = Inr env"
  shows "env_value env ''SELKIES_SUBFOLDER'' = Some (ustring_of (q_stream_subfolder q))"
    "env_value env ''SELKIES_MANUAL_WIDTH'' = Some (ustring_of ''1280'')"
    "env_value env ''SELKIES_MANUAL_HEIGHT'' = Some (ustring_of ''720'')"
    "env_value env ''SELKIES_FRAMERATE'' = Some (ustring_of ''60-60'')"
  using assms unfolding environment_def Let_def
  by (auto simp: ustring_of_def split: sum.splits)

lemma environment_accepted:
  assumes "environment A q = Inr env" and "en_environ E = env_value env"
  shows "validate_stream_environment E (spec_of A q) s = (Inr (), s)"
  unfolding validate_stream_environment_def expected_environment_def assms(2)
  by (simp add: environment_values [OF assms(1)] spec_of_def returnE_def)

text \<open>
  C22. A container the Runtime Agent makes passes the entrypoint's own checks of it: for every request the
  agent accepts, with a player name of at most 31 characters, the entrypoint reads the
  specification the agent wrote back to the fields of the request, the environment the agent
  gave the container agrees with it, and it asks for the persistent save mount exactly
  when the agent mounts one.
\<close>

theorem container_passes_own_checks:
  assumes "create_request_ok U q" and "netplay_ok U (q_netplay q)" and "length (q_player_name q) \<le> 31"
    and "length (sp_canonical_path (spec_of A q)) \<le> 4096"
    and "environment A q = Inr env" and "en_environ E = env_value env"
  shows "read_runtime_spec U (runtime_spec A q) = Some (spec_of A q) \<and>
    validate_stream_environment E (spec_of A q) s = (Inr (), s) \<and>
    (sp_host_authoritative (spec_of A q) \<longleftrightarrow> save_key_of A q \<noteq> None)"
  using read_written_spec [OF assms(1-4)] environment_accepted [OF assms(5,6)]
  by (simp add: spec_of_def save_key_of_def persistence_key_def)

definition sample_artifact :: "string \<Rightarrow> yaml" where
  "sample_artifact p =
     YMap [(YText (ustring_of ''name''), YText (ustring_of ''artifact'')), (YText (ustring_of ''version''), YText (ustring_of ''1'')),
       (YText (ustring_of ''artifact_path''), YText (ustring_of p)),
       (YText (ustring_of ''artifact_sha256''), YText (replicate 64 97))]"

definition sample_manifest :: yaml where
  "sample_manifest =
     YMap [(YText (ustring_of ''schema_version''), YInt 1),
       (YText (ustring_of ''profiles''), YMap [(YText (ustring_of ''snes9x''), YMap [
          (YText (ustring_of ''platform''), YText (ustring_of ''linux-amd64'')), (YText (ustring_of ''max_players''), YInt 2),
          (YText (ustring_of ''controller_topology''), YText (ustring_of ''pads'')),
          (YText (ustring_of ''controller_port_devices''), YMap [(YInt 2, YInt 1), (YInt 1, YInt 1)]),
          (YText (ustring_of ''netplay_status''), YText (ustring_of ''validated'')),
          (YText (ustring_of ''frontend''), sample_artifact ''/usr/local/bin/retroarch''),
          (YText (ustring_of ''core''), sample_artifact ''/opt/libretro/core.so'')])])]"

definition sample_entry :: "unit entry_os" where
  "sample_entry =
     \<lparr>en_unicode = sample_unicode, en_size = (\<lambda>_. returnE 1000), en_is_symlink = (\<lambda>_ s. (False, s)),
      en_is_file = (\<lambda>_ s. (True, s)), en_read = (\<lambda>_. returnE ''spec''), en_read_text = (\<lambda>_. returnE []),
      en_resolve = (\<lambda>p. returnE (pp_parts p)), en_sha256 = (\<lambda>_. returnE (replicate 64 (CHR ''a''))),
      en_findmnt = (\<lambda>_ columns. returnE columns), en_mkdir = (\<lambda>_ _. returnE ()), en_write = (\<lambda>_ _. returnE ()),
      en_chmod = (\<lambda>_ _. returnE ()), en_replace = (\<lambda>_ _. returnE ()), en_copy = (\<lambda>_ _. returnE ()),
      en_execv = (\<lambda>_. returnE ()),
      en_environ = env_value (case environment sample_agent sample_create of Inr env \<Rightarrow> env | Inl _ \<Rightarrow> []),
      en_cwd = [], en_loads = (\<lambda>_ _. Inr (runtime_spec sample_agent sample_create)),
      en_plain_loads = (\<lambda>columns. Inr (JObj [(''filesystems'', JList [JObj [(''target'', JStr ''/run/retro-saves''),
        (''options'', JStr (if columns = ''OPTIONS'' then ''ro,relatime'' else ''rw,relatime''))]])])),
      en_safe_load = (\<lambda>_. Inr sample_manifest), en_spec_locations = (\<lambda>_. []), en_manifest_locations = (\<lambda>_. [])\<rparr>"

theorem container_passes_own_checks_witness:
  "create_request_ok sample_unicode sample_create \<and>
   read_runtime_spec sample_unicode (runtime_spec sample_agent sample_create) = Some (spec_of sample_agent sample_create) \<and>
   validate_stream_environment sample_entry (spec_of sample_agent sample_create) () = (Inr (), ()) \<and>
   sp_host_authoritative (spec_of sample_agent sample_create)"
proof -
  have request: "create_request_ok sample_unicode sample_create"
    using create_request_accepted [OF sample_tables sample_compatible] unfolding sample_wire_create .
  have netplay: "netplay_ok sample_unicode (q_netplay sample_create)"
    and name: "length (q_player_name sample_create) \<le> 31"
    and path: "length (sp_canonical_path (spec_of sample_agent sample_create)) \<le> 4096"
    by (simp_all add: sample_create_def netplay_ok_def validate_host_def spec_of_def container_rom_def machine_agent_def
        pure_path_of_def text_parts_def path_suffix_def name_suffix_def ustring_of_def)
  obtain env where env: "environment sample_agent sample_create = Inr env"
    by (simp add: environment_def webrtc_environment_def machine_agent_def sample_settings_def Let_def)
  have "en_environ sample_entry = env_value env" by (simp add: sample_entry_def env)
  from container_passes_own_checks [OF request netplay name path env this, of "()"] request show ?thesis
    by (simp add: save_key_of_def persistence_key_def machine_agent_def sample_settings_def sample_create_def)
qed

section \<open>Nothing but approved artifacts is started\<close>

lemma bindE_returnsE:
  assumes "bindE f g s = (Inr b, t)"
  obtains a u where "f s = (Inr a, u)" and "g a u = (Inr b, t)"
  using assms by (auto simp: bindE_def split: prod.splits sum.splits)

lemma on_os_error_returns: "on_os_error m f s = (Inr a, t) \<longleftrightarrow> f s = (Inr a, t)"
  by (auto simp: on_os_error_def catchE_def raiseE_def split: prod.splits sum.splits if_splits)

text \<open>The files of the container do not change while the entrypoint looks at them.\<close>

definition static_image :: "'s entry_os \<Rightarrow> (path \<Rightarrow> string) \<Rightarrow> (pure_path \<Rightarrow> path) \<Rightarrow> bool" where
  "static_image E digest real \<longleftrightarrow>
     (\<forall>p s d t. en_sha256 E p s = (Inr d, t) \<longrightarrow> d = digest p) \<and>
     (\<forall>p s r t. en_resolve E p s = (Inr r, t) \<longrightarrow> r = real p)"

lemma static_resolve: "static_image E digest real \<Longrightarrow> en_resolve E p s = (Inr r, t) \<Longrightarrow> r = real p"
  unfolding static_image_def by blast

lemma checked_sha256_returns:
  assumes "static_image E digest real" and "checked_sha256 E p expected label s = (Inr d, t)"
  shows "digest p = expected"
  using assms(2)
proof (unfold checked_sha256_def artifact_sha256_def, elim bindE_returnsE)
  fix a u
  assume "on_os_error ''approved artifact could not be read'' (en_sha256 E p) s = (Inr a, u)"
  then have "a = digest p" using assms(1) unfolding static_image_def on_os_error_returns by blast
  moreover assume "(if a \<noteq> expected then raiseE (RuntimeValidation (label @ '' SHA-256 mismatch'')) else returnE a) u = (Inr d, t)"
  ultimately show ?thesis by (simp add: raiseE_def split: if_splits)
qed

lemma resolve_approved_file_returns:
  assumes "static_image E digest real" and "resolve_approved_file E candidate root label s = (Inr p, t)"
  shows "is_relative_to p (real (at_root root))"
proof -
  from assms(2) obtain r q u where pair: "on_os_error (label @ '' does not exist'')
      (bindE (en_resolve E (at_root root)) (\<lambda>r. bindE (en_resolve E candidate) (\<lambda>p. returnE (r, p)))) s = (Inr (r, q), u)"
    and rest: "relative_to q r \<noteq> None" "p = q"
    unfolding resolve_approved_file_def
    by (elim bindE_returnsE) (auto simp: raiseE_def returnE_def split: if_splits elim!: bindE_returnsE)
  have "r = real (at_root root)"
    using pair unfolding on_os_error_returns
    by (elim bindE_returnsE) (auto simp: returnE_def dest: static_resolve [OF assms(1)])
  with rest show ?thesis by (simp add: relative_to_def split: if_splits)
qed

lemma resolve_frontend_returns:
  assumes "static_image E digest real" and "resolve_frontend E paths profile s = (Inr f, t)"
  shows "f = real (at_root (pa_frontend_path paths))"
proof -
  from assms(2) obtain g m u where pair: "on_os_error ''approved RetroArch artifact does not exist''
      (bindE (en_resolve E (at_root (pa_frontend_path paths))) (\<lambda>f.
         bindE (en_resolve E (ar_path (mp_frontend profile))) (\<lambda>m. returnE (f, m)))) s = (Inr (g, m), u)"
    and rest: "f = g"
    unfolding resolve_frontend_def
    by (elim bindE_returnsE) (auto simp: raiseE_def returnE_def split: if_splits elim!: bindE_returnsE)
  show ?thesis
    using pair rest unfolding on_os_error_returns
    by (elim bindE_returnsE) (auto simp: returnE_def dest: static_resolve [OF assms(1)])
qed

lemma resolve_runtime_returns:
  assumes static: "static_image E digest real" and "resolve_runtime E spec manifest paths s = (Inr rt, t)"
  shows "rv_spec rt = spec" "map_of manifest (sp_core_profile spec) = Some (rv_profile rt)"
    "is_relative_to (rv_rom_path rt) (real (at_root (pa_rom_root paths)))"
    "digest (rv_rom_path rt) = sp_expected_sha256 spec"
    "is_relative_to (rv_core_path rt) (real (at_root (pa_core_root paths)))"
    "digest (rv_core_path rt) = ar_sha256 (mp_core (rv_profile rt))"
    "rv_frontend_path rt = real (at_root (pa_frontend_path paths))"
    "digest (rv_frontend_path rt) = ar_sha256 (mp_frontend (rv_profile rt))"
proof -
  obtain profile where profile: "map_of manifest (sp_core_profile spec) = Some profile"
    using assms(2) by (auto simp: resolve_runtime_def raiseE_def split: option.splits)
  note steps = resolve_approved_file_returns [OF static] checked_sha256_returns [OF static]
    resolve_frontend_returns [OF static]
  have "rv_spec rt = spec \<and> rv_profile rt = profile \<and>
      is_relative_to (rv_rom_path rt) (real (at_root (pa_rom_root paths))) \<and> digest (rv_rom_path rt) = sp_expected_sha256 spec \<and>
      is_relative_to (rv_core_path rt) (real (at_root (pa_core_root paths))) \<and> digest (rv_core_path rt) = ar_sha256 (mp_core profile) \<and>
      rv_frontend_path rt = real (at_root (pa_frontend_path paths)) \<and> digest (rv_frontend_path rt) = ar_sha256 (mp_frontend profile)"
    using assms(2) unfolding resolve_runtime_def profile option.case
    by (elim bindE_returnsE) (auto simp: returnE_def dest: steps)
  with profile show "rv_spec rt = spec" "map_of manifest (sp_core_profile spec) = Some (rv_profile rt)"
    "is_relative_to (rv_rom_path rt) (real (at_root (pa_rom_root paths)))"
    "digest (rv_rom_path rt) = sp_expected_sha256 spec"
    "is_relative_to (rv_core_path rt) (real (at_root (pa_core_root paths)))"
    "digest (rv_core_path rt) = ar_sha256 (mp_core (rv_profile rt))"
    "rv_frontend_path rt = real (at_root (pa_frontend_path paths))"
    "digest (rv_frontend_path rt) = ar_sha256 (mp_frontend (rv_profile rt))"
    by auto
qed

lemma argv_parts:
  "hd (build_retroarch_argv rt config) = path_text (rv_frontend_path rt)"
  "\<exists>options. build_retroarch_argv rt config =
     options @ [ustring_of ''-L'', path_text (rv_core_path rt), path_text (rv_rom_path rt)]"
  by (simp_all add: build_retroarch_argv_def Let_def)

text \<open>What a started command line has to be, for a specification and a manifest.\<close>

definition approved_launch ::
  "(path \<Rightarrow> string) \<Rightarrow> (pure_path \<Rightarrow> path) \<Rightarrow> runtime_spec_model \<Rightarrow> core_manifest \<Rightarrow> ustring list \<Rightarrow> bool" where
  "approved_launch digest real spec manifest argv \<longleftrightarrow>
     (\<exists>profile rom core options.
        map_of manifest (sp_core_profile spec) = Some profile \<and>
        hd argv = path_text (real (at_root (pa_frontend_path image_paths))) \<and>
        digest (real (at_root (pa_frontend_path image_paths))) = ar_sha256 (mp_frontend profile) \<and>
        argv = options @ [ustring_of ''-L'', path_text core, path_text rom] \<and>
        is_relative_to core (real (at_root (pa_core_root image_paths))) \<and> digest core = ar_sha256 (mp_core profile) \<and>
        is_relative_to rom (real (at_root (pa_rom_root image_paths))) \<and> digest rom = sp_expected_sha256 spec)"

text \<open>
  C23. The entrypoint starts nothing but what was approved: whenever it replaces itself by a command,
  the program is the image's RetroArch with the hash the manifest gives for the profile the
  specification selects, the core is a file below the core root with the manifest's hash and the
  ROM a file below the ROM root with the specification's hash; the specification and
  the manifest are the ones it read.
\<close>

theorem launch_is_approved:
  assumes "static_image E digest real" and "entry_run E s = (Inr argv, t)"
  shows "\<exists>spec manifest u v.
    load_runtime_spec E (map ustring_of [''run'', ''retro-session'', ''runtime-spec.json'']) s = (Inr spec, u) \<and>
    load_core_manifest E (map ustring_of [''etc'', ''retro-session'', ''cores.yaml'']) u = (Inr manifest, v) \<and>
    approved_launch digest real spec manifest argv"
  using assms(2)
proof (unfold entry_run_def, elim bindE_returnsE)
  fix spec u manifest v w rt x config y z
  assume spec: "load_runtime_spec E (map ustring_of [''run'', ''retro-session'', ''runtime-spec.json'']) s = (Inr spec, u)"
    and manifest: "load_core_manifest E (map ustring_of [''etc'', ''retro-session'', ''cores.yaml'']) u = (Inr manifest, v)"
    and rt: "resolve_runtime E spec manifest image_paths w = (Inr rt, x)"
    and argv: "returnE (build_retroarch_argv rt config) y = (Inr argv, z)"
  have "argv = build_retroarch_argv rt config" using argv by (simp add: returnE_def)
  then have "approved_launch digest real spec manifest argv"
    using resolve_runtime_returns [OF assms(1) rt] argv_parts [of rt config] unfolding approved_launch_def by metis
  with spec manifest show ?thesis by blast
qed

lemma sample_entry_runs: "case entry_run sample_entry () of (Inr argv, t) \<Rightarrow> length argv = 10 | _ \<Rightarrow> False"
  by code_simp

theorem launch_is_approved_witness:
  "\<exists>argv spec manifest. static_image sample_entry (\<lambda>_. replicate 64 (CHR ''a'')) pp_parts \<and>
     entry_run sample_entry () = (Inr argv, ()) \<and>
     approved_launch (\<lambda>_. replicate 64 (CHR ''a'')) pp_parts spec manifest argv"
proof -
  have static: "static_image sample_entry (\<lambda>_. replicate 64 (CHR ''a'')) pp_parts"
    by (auto simp: static_image_def sample_entry_def returnE_def)
  obtain argv where run: "entry_run sample_entry () = (Inr argv, ())"
    using sample_entry_runs by (auto split: prod.splits sum.splits)
  from launch_is_approved [OF static run] static run show ?thesis by blast
qed

end
