(* ===== verification/EntryConfig.thy ===== *)
theory EntryConfig
  imports EntryBehaviour
begin

text \<open>
  The emulator configuration the entrypoint renders, read back: one line per managed setting, each with the
  value it was given, whatever the specification holds.
\<close>

section \<open>Reading a rendered configuration\<close>

fun unescape :: "ustring \<Rightarrow> ustring" where
  "unescape [] = []"
| "unescape [c] = [c]"
| "unescape (c # d # cs) = (if c = 92 then d # unescape cs else c # unescape (d # cs))"

definition parse_line :: "ustring \<Rightarrow> ustring \<times> ustring" where
  "parse_line l =
     (let key = takeWhile (\<lambda>c. c \<noteq> 32) l in (key, unescape (butlast (drop (length key + 4) l))))"

definition parse_settings :: "ustring \<Rightarrow> (ustring \<times> ustring) list" where
  "parse_settings text = map parse_line (split_at 10 text)"

lemma unescape_quoted: "unescape (replace_char 34 [92, 34] (replace_char 92 [92, 92] v)) = v"
proof (induction v)
  case Nil
  then show ?case by (simp add: replace_char_def)
next
  case (Cons c v)
  obtain w where w: "replace_char 34 [92, 34] (replace_char 92 [92, 92] v) = w" by blast
  have "unescape (c # w) = c # unescape w" if "c \<noteq> 92" using that by (cases w) simp_all
  with Cons.IH show ?case unfolding w by (auto simp: w [symmetric] replace_char_def)
qed

lemma ustring_of_mem: "n \<in> set (ustring_of s) \<Longrightarrow> char_of n \<in> set s"
  by (auto simp: ustring_of_def)

lemma char_of_separators: "char_of (32 :: nat) = CHR '' ''" "char_of (10 :: nat) = CHR 0x0A"
  by (simp_all add: char_of_def bit_0)

lemma parse_config_line:
  assumes "CHR '' '' \<notin> set k"
  shows "parse_line (config_line (k, v)) = (ustring_of k, v)"
proof -
  have "32 \<notin> set (ustring_of k)" using assms ustring_of_mem [of 32 k] unfolding char_of_separators by blast
  then have "takeWhile (\<lambda>c. c \<noteq> 32) (config_line (k, v)) = ustring_of k"
    unfolding config_line_def by (subst takeWhile_append2) (auto simp: ustring_of_def)
  then show ?thesis
    by (simp add: parse_line_def Let_def config_line_def quote_config_def unescape_quoted)
qed

section \<open>No value holds a line break\<close>

definition one_line :: "ustring \<Rightarrow> bool" where
  "one_line v \<longleftrightarrow> 10 \<notin> set v"

lemma one_line_simps [simp]:
  "one_line []" "one_line (c # v) \<longleftrightarrow> c \<noteq> 10 \<and> one_line v" "one_line (v @ w) \<longleftrightarrow> one_line v \<and> one_line w"
  by (auto simp: one_line_def)

lemma one_line_ascii: "list_all (\<lambda>c. c \<noteq> CHR 0x0A) s \<Longrightarrow> one_line (ustring_of s)"
  using ustring_of_mem [of 10 s] unfolding one_line_def list_all_iff char_of_separators by blast

lemma one_line_numbers: "one_line (ustring_of (str_of_int i))" "one_line (ustring_of (uuid_str u))"
proof -
  have digit: "c \<noteq> CHR 0x0A" if "is_digit_ascii c" for c using that by (auto simp: char_class_defs)
  have dec: "list_all (\<lambda>c. c \<noteq> CHR 0x0A) (dec_of_nat n)" for n
    using dec_of_nat_digits(1) [of n] digit by (auto simp: list_all_iff)
  show "one_line (ustring_of (str_of_int i))"
    by (rule one_line_ascii) (simp add: str_of_int_def dec)
  have "c \<noteq> CHR 0x0A" if "c \<in> set (uuid_str u)" for c
    using that uuid_str_parts(1) [of u] uuid_hex_lower [of c u] by (auto simp: char_class_defs)
  then show "one_line (ustring_of (uuid_str u))" by (intro one_line_ascii) (simp add: list_all_iff)
qed

lemma one_line_quote: "one_line v \<Longrightarrow> one_line (quote_config v)"
  by (auto simp: quote_config_def replace_char_def one_line_def split: if_splits)

lemma one_line_path: "list_all one_line p \<Longrightarrow> one_line (path_text p)"
  by (auto simp: path_text_def one_line_def list_all_iff)

lemma split_at_covers: "c \<in> set v \<Longrightarrow> c \<noteq> sep \<Longrightarrow> \<exists>w \<in> set (split_at sep v). c \<in> set w"
  by (induction v) (auto split: list.splits)

lemma one_line_host:
  assumes "ascii_tables U" and "spec_host_valid U (Some h)"
  shows "one_line h"
  unfolding one_line_def
proof
  assume "10 \<in> set h"
  from split_at_covers [OF this, of 46] obtain w where "w \<in> set (split_at 46 h)" "10 \<in> set w" by auto
  with assms(2) have "is_alnum U 10 \<or> 10 = (45 :: nat)" unfolding spec_host_valid_def option.case list_ex_iff by blast
  then have "is_alnum U 10" by simp
  moreover have "take 1 (category U 10) = ''C''" using assms(1) by (simp add: ascii_tables_def)
  ultimately show False by (simp add: is_alnum_def)
qed

lemma split_join_lines:
  assumes "ls \<noteq> []" and "list_all one_line ls"
  shows "split_at 10 (join_lines ls) = ls"
  using assms
proof (induction ls rule: join_lines.induct)
  case (2 l)
  then show ?case by (simp add: one_line_def split_at_plain)
next
  case (3 l m ls)
  then show ?case using split_at_append [of 10 l "join_lines (m # ls)"] by (simp add: one_line_def)
qed simp

section \<open>The managed settings\<close>

text \<open>The home directory \<open>resolve_runtime\<close> gives a runtime.\<close>

definition session_home_of :: "runtime_spec_model \<Rightarrow> path" where
  "session_home_of spec =
     pa_session_root image_paths @
       [ustring_of (uuid_str (sp_session_id spec)), ustring_of (uuid_str (sp_participant_id spec))]"

lemma one_line_home: "list_all one_line (session_home_of spec)"
  unfolding session_home_of_def image_paths_def
  by (simp add: one_line_numbers) (simp add: ustring_of_def)

lemma below_one_line: "list_all one_line p \<Longrightarrow> list_all (list_all (\<lambda>c. c \<noteq> CHR 0x0A)) ns \<Longrightarrow> list_all one_line (below p ns)"
  by (auto simp: below_def list_all_iff intro!: one_line_ascii)

lemma config_values_one_line:
  assumes tables: "ascii_tables U" and spec: "runtime_spec_ok U (rv_spec rt)"
    and host: "spec_host_valid U (nr_host (sp_netplay (rv_spec rt)))"
    and home: "rv_session_home rt = session_home_of (rv_spec rt)"
    and mem: "(k, v) \<in> set (config_values rt)"
  shows "one_line v" "list_all (\<lambda>c. c \<noteq> CHR 0x0A \<and> c \<noteq> CHR '' '') k"
proof -
  have name: "one_line (sp_player_name (rv_spec rt))"
    using spec by (auto simp: runtime_spec_ok_def spec_player_name_valid_def one_line_def list_ex_iff)
  have address: "one_line (case nr_host (sp_netplay (rv_spec rt)) of None \<Rightarrow> [] | Some h \<Rightarrow> h)"
    using host one_line_host [OF tables] by (cases "nr_host (sp_netplay (rv_spec rt))") simp_all
  have paths: "one_line (path_text (below (rv_session_home rt) ns))"
    if "list_all (list_all (\<lambda>c. c \<noteq> CHR 0x0A)) ns" for ns
    unfolding home by (intro one_line_path below_one_line one_line_home that)
  have words: "one_line (ustring_of ''true'')" "one_line (ustring_of ''false'')" "one_line (ustring_of ''0'')"
    "one_line (ustring_of ''/run/retro-saves'')"
    by (simp_all add: ustring_of_def)
  show "one_line v"
    using mem name address words one_line_numbers(1) paths
    unfolding config_values_def Let_def by (auto split: if_splits)
  have "c \<noteq> CHR 0x0A \<and> c \<noteq> CHR '' ''" if "is_digit_ascii c" for c using that by (auto simp: char_class_defs)
  then have "list_all (\<lambda>c. c \<noteq> CHR 0x0A \<and> c \<noteq> CHR '' '') (dec_of_nat n)" for n
    using dec_of_nat_digits(1) [of n] unfolding list_all_iff by blast
  then have number: "list_all (\<lambda>c. c \<noteq> CHR 0x0A \<and> c \<noteq> CHR '' '') (str_of_int i)" for i
    by (simp add: str_of_int_def)
  show "list_all (\<lambda>c. c \<noteq> CHR 0x0A \<and> c \<noteq> CHR '' '') k"
    using mem number unfolding config_values_def Let_def by auto
qed


definition sample_runtime :: resolved_runtime where
  "sample_runtime =
     (let spec = (spec_of sample_agent sample_create)\<lparr>sp_player_name := ustring_of (''A'' @ [CHR 0x22, CHR 0x5C])\<rparr>;
          a = \<lparr>ar_name = [], ar_version = [], ar_path = at_root [], ar_sha256 = []\<rparr> in
      \<lparr>rv_spec = spec,
       rv_profile = \<lparr>mp_max_players = 2, mp_topology = ''pads'', mp_port_devices = [(2, 1), (1, 1)],
         mp_netplay_validated = True, mp_frontend = a, mp_core = a\<rparr>,
       rv_rom_path = [], rv_rom_sha256 = [], rv_core_path = [], rv_core_sha256 = [], rv_frontend_path = [],
       rv_frontend_sha256 = [], rv_session_home = session_home_of spec\<rparr>)"


end
