(* ===== verification/MetricsProxy.thy ===== *)
theory MetricsProxy
  imports Api RomMUrl
begin

text \<open>
  \<open>metrics_proxy.py\<close> of the session image: the handler that lets a scraper with the runtime's metrics token
  read the stream server's metrics. The upstream request and the decoding of bytes with
  replacement characters are parameters; the socket server is not modelled.

  Shown: nobody reaches the stream server without the token, and the master credential goes
  nowhere else; with the token the upstream document comes back unchanged or not at all.
\<close>

section \<open>Query strings\<close>

text \<open>
  \<open>urllib.parse.unquote\<close>: the bytes of an ASCII run with its escapes resolved are decoded; other code points
  stay. \<open>hex_code\<close> reads one hexadecimal digit of either case.
\<close>

definition hex_code :: "nat \<Rightarrow> nat option" where
  "hex_code c =
     (if 48 \<le> c \<and> c \<le> 57 then Some (c - 48)
      else if 65 \<le> c \<and> c \<le> 70 then Some (c - 55)
      else if 97 \<le> c \<and> c \<le> 102 then Some (c - 87) else None)"

fun unquote_bytes :: "ustring \<Rightarrow> nat list" where
  "unquote_bytes (c # a # b # t) =
     (if c = 37
      then (case (hex_code a, hex_code b) of
              (Some x, Some y) \<Rightarrow> (16 * x + y) # unquote_bytes t
            | _ \<Rightarrow> c # unquote_bytes (a # b # t))
      else c # unquote_bytes (a # b # t))"
| "unquote_bytes (c # t) = c # unquote_bytes t"
| "unquote_bytes [] = []"

function unquote_runs :: "(nat list \<Rightarrow> ustring) \<Rightarrow> ustring \<Rightarrow> ustring" where
  "unquote_runs decode [] = []"
| "unquote_runs decode (c # t) =
     (if c < 128
      then decode (unquote_bytes (takeWhile (\<lambda>x. x < 128) (c # t))) @
           unquote_runs decode (dropWhile (\<lambda>x. x < 128) t)
      else c # unquote_runs decode t)"
  by pat_completeness auto
termination
  by (relation "measure (length \<circ> snd)") (auto simp: less_Suc_eq_le length_dropWhile_le)

definition unquote :: "(nat list \<Rightarrow> ustring) \<Rightarrow> ustring \<Rightarrow> ustring" where
  "unquote decode t = (if 37 \<notin> set t then t else unquote_runs decode t)"

definition unquote_plus :: "(nat list \<Rightarrow> ustring) \<Rightarrow> ustring \<Rightarrow> ustring" where
  "unquote_plus decode t = unquote decode (map (\<lambda>c. if c = 43 then 32 else c) t)"

text \<open>\<open>parse_qs(query, keep_blank_values=True)\<close> as the list of its pairs, and \<open>values.get(name, [])\<close>.\<close>

definition parse_query :: "(nat list \<Rightarrow> ustring) \<Rightarrow> ustring \<Rightarrow> (ustring \<times> ustring) list" where
  "parse_query decode q =
     map (\<lambda>w. case partition_at 61 w of (name, _, v) \<Rightarrow> (unquote_plus decode name, unquote_plus decode v))
       (filter (\<lambda>w. w \<noteq> []) (split_at 38 q))"

definition query_values :: "(ustring \<times> ustring) list \<Rightarrow> ustring \<Rightarrow> ustring list" where
  "query_values ps name = map snd (filter (\<lambda>(k, v). k = name) ps)"

section \<open>The handler\<close>

record proxy_answer =
  pa_status :: int
  pa_body :: "nat list"

definition respond :: "int \<Rightarrow> nat list \<Rightarrow> proxy_answer" where
  "respond st b = \<lparr>pa_status = st, pa_body = b\<rparr>"

definition bytes_of :: "string \<Rightarrow> nat list" where
  "bytes_of s = map of_char s"

text \<open>
  \<open>urlopen\<close> of a URL with a header value, read up to a limit. \<open>HTTPError\<close>, \<open>URLError\<close> and \<open>TimeoutError\<close>
  are caught; anything else ends the handler without an answer.
\<close>

record 's proxy =
  px_environ :: environ
  px_urls :: url_library
  px_decode :: "nat list \<Rightarrow> ustring"
  px_upstream :: "ustring \<Rightarrow> ustring \<Rightarrow> (exn, 's, nat list) prog"

definition upstream_failures :: "exn set" where
  "upstream_failures = OtherException ` {''HTTPError'', ''URLError'', ''TimeoutError''}"

definition max_metrics_bytes :: nat where
  "max_metrics_bytes = 2 * 1024 * 1024"

definition environ_value :: "environ \<Rightarrow> string \<Rightarrow> (exn, 's, ustring) prog" where
  "environ_value env name = (case env name of None \<Rightarrow> raiseE KeyError | Some v \<Rightarrow> returnE v)"

definition forward :: "'s proxy \<Rightarrow> (exn, 's, proxy_answer) prog" where
  "forward P =
     bindE (environ_value (px_environ P) ''SELKIES_SUBFOLDER'') (\<lambda>subfolder.
     bindE (environ_value (px_environ P) ''SELKIES_MASTER_TOKEN'') (\<lambda>master.
     catchE
       (bindE (px_upstream P (ustring_of ''http://127.0.0.1:8080'' @ subfolder @ ustring_of ''/api/metrics'')
                             (ustring_of ''Bearer '' @ master)) (\<lambda>data.
        returnE (if length (take (max_metrics_bytes + 1) data) > max_metrics_bytes
                 then respond 502 (bytes_of ''upstream response too large'' @ [10])
                 else respond 200 (take (max_metrics_bytes + 1) data))))
       (\<lambda>e. if e \<in> upstream_failures then returnE (respond 502 (bytes_of ''metrics upstream unavailable'' @ [10]))
            else raiseE e)))"

definition do_GET :: "'s proxy \<Rightarrow> ustring \<Rightarrow> (exn, 's, proxy_answer) prog" where
  "do_GET P path =
     bindE (resultE (urlsplit (px_urls P) path)) (\<lambda>parsed.
     if su_path parsed = ustring_of ''/healthz'' then returnE (respond 200 (bytes_of ''ok'' @ [10]))
     else
       let supplied = query_values (parse_query (px_decode P) (su_query parsed)) (ustring_of ''token'') in
       bindE (environ_value (px_environ P) ''RETROBROWSER_METRICS_TOKEN'') (\<lambda>expected.
       if su_path parsed \<noteq> ustring_of ''/metrics'' \<or> length supplied \<noteq> 1
       then returnE (respond 401 (bytes_of ''unauthorized'' @ [10]))
       else bindE (resultE (compare_digest (hd supplied) expected)) (\<lambda>same.
            if \<not> same then returnE (respond 401 (bytes_of ''unauthorized'' @ [10])) else forward P)))"

section \<open>Who is served, and with what\<close>

text \<open>A request that names the metrics endpoint and carries the configured token, once.\<close>

definition authorised :: "'s proxy \<Rightarrow> ustring \<Rightarrow> bool" where
  "authorised P path \<longleftrightarrow>
     (\<exists>u token. urlsplit (px_urls P) path = Inr u \<and> su_path u = ustring_of ''/metrics'' \<and>
        px_environ P ''RETROBROWSER_METRICS_TOKEN'' = Some token \<and>
        query_values (parse_query (px_decode P) (su_query u)) (ustring_of ''token'') = [token])"

lemma forward_only_authorised:
  assumes "\<not> authorised P path"
  shows "wp (do_GET P path)
    (\<lambda>r t. t = s \<and> (pa_status r = 401 \<or> r = respond 200 (bytes_of ''ok'' @ [10]))) (\<lambda>e t. t = s) s"
proof -
  have "\<not> same" if "urlsplit (px_urls P) path = Inr u" "su_path u = ustring_of ''/metrics''"
      "px_environ P ''RETROBROWSER_METRICS_TOKEN'' = Some token"
      "length (query_values (parse_query (px_decode P) (su_query u)) (ustring_of ''token'')) = 1"
      "compare_digest (hd (query_values (parse_query (px_decode P) (su_query u)) (ustring_of ''token''))) token = Inr same"
    for u token same
    using assms that
    by (cases "query_values (parse_query (px_decode P) (su_query u)) (ustring_of ''token'')")
      (auto simp: authorised_def compare_digest_def split: if_splits)
  then show ?thesis
    unfolding do_GET_def Let_def environ_value_def
    by (auto simp: wp_simps respond_def split: sum.splits option.splits)
qed

lemma authorised_forwards:
  assumes "authorised P path" and "px_environ P ''RETROBROWSER_METRICS_TOKEN'' = Some token"
  shows "do_GET P path = (if list_all (\<lambda>c. c < 128) token then forward P else raiseE (OtherException ''TypeError''))"
proof -
  obtain u where u: "urlsplit (px_urls P) path = Inr u" "su_path u = ustring_of ''/metrics''"
      "query_values (parse_query (px_decode P) (su_query u)) (ustring_of ''token'') = [token]"
    using assms by (auto simp: authorised_def)
  then show ?thesis
    by (simp add: do_GET_def assms(2) environ_value_def compare_digest_def bindE_def resultE_def returnE_def
        raiseE_def fun_eq_iff ustring_of_def)
qed

lemma forward_exact:
  assumes "px_environ P ''SELKIES_SUBFOLDER'' = Some subfolder" and "px_environ P ''SELKIES_MASTER_TOKEN'' = Some master"
    and "px_upstream P (ustring_of ''http://127.0.0.1:8080'' @ subfolder @ ustring_of ''/api/metrics'')
           (ustring_of ''Bearer '' @ master) s = (Inr data, t)"
  shows "forward P s =
    (Inr (if length data \<le> max_metrics_bytes then respond 200 data
          else respond 502 (bytes_of ''upstream response too large'' @ [10])), t)"
proof (cases "length data \<le> max_metrics_bytes")
  case True
  then have "take (max_metrics_bytes + 1) data = data" by simp
  with True show ?thesis
    by (simp add: forward_def environ_value_def assms bindE_def catchE_def returnE_def)
next
  case False
  then have "length (take (max_metrics_bytes + 1) data) > max_metrics_bytes" by simp
  with False show ?thesis
    by (simp add: forward_def environ_value_def assms bindE_def catchE_def returnE_def)
qed

text \<open>
  C39. The proxy serves the holder of the token only: a request that is not authorised never reaches the stream
  server, whatever its path and query hold, and its answer is a refusal or the fixed text of the health check. An
  authorised request is forwarded to the loopback address with the master credential, and the answer is the
  upstream document unchanged, or a gateway error if it has more than two mebibytes.
\<close>

theorem proxy_requires_token:
  "wp (do_GET P path)
     (\<lambda>r t. authorised P path \<and> forward P s = (Inr r, t) \<or>
        t = s \<and> (pa_status r = 401 \<or> r = respond 200 (bytes_of ''ok'' @ [10])))
     (\<lambda>e t. authorised P path \<and> forward P s = (Inl e, t) \<or> t = s) s \<and>
   (authorised P path \<and> px_environ P ''RETROBROWSER_METRICS_TOKEN'' = Some token \<and> list_all (\<lambda>c. c < 128) token \<and>
    px_environ P ''SELKIES_SUBFOLDER'' = Some subfolder \<and> px_environ P ''SELKIES_MASTER_TOKEN'' = Some master \<and>
    px_upstream P (ustring_of ''http://127.0.0.1:8080'' @ subfolder @ ustring_of ''/api/metrics'')
      (ustring_of ''Bearer '' @ master) s = (Inr data, t) \<longrightarrow>
    do_GET P path s =
      (Inr (if length data \<le> 2 * 1024 * 1024 then respond 200 data
            else respond 502 (bytes_of ''upstream response too large'' @ [10])), t))"
proof (intro conjI impI)
  show "wp (do_GET P path)
     (\<lambda>r t. authorised P path \<and> forward P s = (Inr r, t) \<or>
        t = s \<and> (pa_status r = 401 \<or> r = respond 200 (bytes_of ''ok'' @ [10])))
     (\<lambda>e t. authorised P path \<and> forward P s = (Inl e, t) \<or> t = s) s"
  proof (cases "authorised P path")
    case True
    then obtain tok where "px_environ P ''RETROBROWSER_METRICS_TOKEN'' = Some tok" by (auto simp: authorised_def)
    from authorised_forwards [OF True this] True show ?thesis
      by (cases "list_all (\<lambda>c. c < 128) tok") (auto simp: wp_def raiseE_def split: prod.splits sum.splits)
  next
    case False
    from forward_only_authorised [OF this] show ?thesis by (rule wp_mono) auto
  qed
qed (auto simp: authorised_forwards forward_exact max_metrics_bytes_def)

section \<open>A scrape\<close>

definition sample_proxy :: "nat proxy" where
  "sample_proxy =
     \<lparr>px_environ = map_of [(''RETROBROWSER_METRICS_TOKEN'', ustring_of ''k+1''), (''SELKIES_SUBFOLDER'', ustring_of ''/stream/2''),
        (''SELKIES_MASTER_TOKEN'', ustring_of ''m'')],
      px_urls = sample_url_library, px_decode = (\<lambda>bs. bs),
      px_upstream = (\<lambda>url auth n. (Inr (bytes_of ''up 1''), n + 1))\<rparr>"

theorem proxy_requires_token_witness:
  "do_GET sample_proxy (ustring_of ''/metrics?token=k%2B1'') 0 = (Inr (respond 200 (bytes_of ''up 1'')), 1)"
proof -
  have parts: "urlsplit sample_url_library (ustring_of ''/metrics?token=k%2B1'') =
      Inr \<lparr>su_scheme = [], su_netloc = [], su_path = ustring_of ''/metrics'', su_query = ustring_of ''token=k%2B1'', su_fragment = []\<rparr>"
    by code_simp
  have query: "query_values (parse_query (\<lambda>bs. bs) (ustring_of ''token=k%2B1'')) (ustring_of ''token'') = [ustring_of ''k+1'']"
    by code_simp
  have auth: "authorised sample_proxy (ustring_of ''/metrics?token=k%2B1'')"
    using parts query by (simp add: authorised_def sample_proxy_def)
  have env: "px_environ sample_proxy ''RETROBROWSER_METRICS_TOKEN'' = Some (ustring_of ''k+1'')"
      "px_environ sample_proxy ''SELKIES_SUBFOLDER'' = Some (ustring_of ''/stream/2'')"
      "px_environ sample_proxy ''SELKIES_MASTER_TOKEN'' = Some (ustring_of ''m'')"
    by (simp_all add: sample_proxy_def)
  have up: "px_upstream sample_proxy url bearer 0 = (Inr (bytes_of ''up 1''), 1)" for url bearer
    by (simp add: sample_proxy_def)
  have ascii: "list_all (\<lambda>c. c < 128) (ustring_of ''k+1'')" by (simp add: ustring_of_def)
  have small: "length (bytes_of ''up 1'') \<le> 2 * 1024 * 1024" by (simp add: bytes_of_def)
  show ?thesis
    using proxy_requires_token [of sample_proxy "ustring_of ''/metrics?token=k%2B1''" 0 "ustring_of ''k+1''"
        "ustring_of ''/stream/2''" "ustring_of ''m''" "bytes_of ''up 1''" 1] auth env up ascii small by simp
qed

end
