(* ===== verification/Observability.thy ===== *)
theory Observability
  imports Wire Environ
begin

text \<open>
  What the services tell operators: \<open>observability/logging.py\<close> of both services and the gauges of
  \<open>observability/metrics.py\<close> of the Session Manager. The clock's text and the record of the logging
  library are arguments; writing the line and rendering the registry are not modelled.

  Shown: an event is always one line of printable ASCII, whatever its texts hold; the gauges account for every
  session and participant.
\<close>

section \<open>Log events\<close>

text \<open>
  A record of the logging library: \<open>lr_fields\<close> gives the text of an attribute that is present and not
  \<open>None\<close>; \<open>lr_exception\<close> is the name of the exception's class.
\<close>

record log_record =
  lr_level :: ustring
  lr_logger :: ustring
  lr_event :: "ustring option"
  lr_message :: ustring
  lr_fields :: "string \<rightharpoonup> ustring"
  lr_exception :: "ustring option"

definition log_document :: "string list \<Rightarrow> ustring \<Rightarrow> log_record \<Rightarrow> json" where
  "log_document names now r =
     JObj ([(''timestamp'', JText now), (''level'', JText (map lower_code (lr_level r))),
            (''logger'', JText (lr_logger r)),
            (''event'', JText (case lr_event r of None \<Rightarrow> ustring_of ''log'' | Some e \<Rightarrow> e)),
            (''message'', JText (lr_message r))] @
           List.map_filter (\<lambda>k. map_option (\<lambda>v. (k, JText v)) (lr_fields r k)) names @
           (case lr_exception r of None \<Rightarrow> [] | Some x \<Rightarrow> [(''exception_type'', JText x)]))"

definition manager_fields :: "string list" where
  "manager_fields =
     [''category'', ''operation'', ''action'', ''outcome'', ''actor_id'', ''session_id'', ''participant_id'']"

definition agent_fields :: "string list" where
  "agent_fields = [''category'', ''operation'', ''participant_id'']"

definition manager_log_line :: "ustring \<Rightarrow> log_record \<Rightarrow> string" where
  "manager_log_line now r = send_json (log_document manager_fields now r)"

definition agent_log_line :: "ustring \<Rightarrow> log_record \<Rightarrow> string" where
  "agent_log_line now r = send_json (log_document agent_fields now r)"

text \<open>\<open>log_event\<close>: the keyword arguments become attributes, the exception only when it is asked for.\<close>

definition log_event :: "ustring \<Rightarrow> ustring \<Rightarrow> ustring \<Rightarrow> (string \<rightharpoonup> ustring) \<Rightarrow> bool \<Rightarrow> ustring option \<Rightarrow> log_record" where
  "log_event logger level message extra exc_info current =
     \<lparr>lr_level = level, lr_logger = logger, lr_event = extra ''event'', lr_message = message,
      lr_fields = extra, lr_exception = (if exc_info then current else None)\<rparr>"

section \<open>Gauges\<close>

record gauges =
  gg_sessions :: "(session_state \<times> int) list"
  gg_participants :: "(participant_state \<times> int) list"
  gg_runtime_capacity :: int
  gg_runtime_used :: int
  gg_runtime_available :: int

definition session_states :: "session_state list" where
  "session_states = [CREATING, STARTING, OPEN, RUNNING, DRAINING, CLOSED, ERROR]"

definition participant_states :: "participant_state list" where
  "participant_states =
     [P_ALLOCATING, P_STARTING, P_STREAM_READY, P_NETPLAY_CONNECTING, P_ACTIVE, P_LEAVING, P_LEFT, P_ERROR]"

definition refresh_gauges :: "session list \<Rightarrow> int \<Rightarrow> int \<Rightarrow> gauges" where
  "refresh_gauges current used cap =
     \<lparr>gg_sessions = map (\<lambda>st. (st, \<Sum>x\<leftarrow>current. if s_state x = st then 1 else 0)) session_states,
      gg_participants = map (\<lambda>st. (st, \<Sum>p\<leftarrow>concat (map s_participants current). if p_state p = st then 1 else 0))
        participant_states,
      gg_runtime_capacity = cap, gg_runtime_used = used, gg_runtime_available = max 0 (cap - used)\<rparr>"

section \<open>One line per event\<close>

definition printable :: "char \<Rightarrow> bool" where
  "printable c \<longleftrightarrow> 32 \<le> (of_char c :: nat) \<and> (of_char c :: nat) \<le> 126"

lemma printable_hex: "list_all printable (hex_of_nat w n)"
proof (induction w arbitrary: n)
  case (Suc w)
  have "printable (digit_char d)" if "d < 16" for d
    using less_16_cases [OF that] by (auto simp: printable_def)
  with Suc show ?case by simp
qed simp

lemma printable_char: "list_all printable (dumps_char c)"
  using printable_hex by (auto simp: dumps_char_def printable_def)

lemma printable_text: "list_all printable (dumps_text t)"
  using printable_char by (simp add: dumps_text_def list_all_iff printable_def)

lemma printable_join: "list_all printable sep \<Longrightarrow> list_all (list_all printable) ws \<Longrightarrow> list_all printable (join_with sep ws)"
  by (induction sep ws rule: join_with.induct) auto

lemma printable_object:
  assumes "list_all (\<lambda>(k, v). \<exists>t. v = JText t) kvs"
  shows "list_all printable (send_json (JObj kvs))"
proof -
  have "list_all printable (dumps_text (ustring_of k) @ '':'' @ send_json v)" if "(k, v) \<in> set kvs" for k v
    using that assms printable_text by (fastforce simp: list_all_iff printable_def)
  then have "list_all (list_all printable) (map (\<lambda>(k, v). dumps_text (ustring_of k) @ '':'' @ send_json v) kvs)"
    by (auto simp: list_all_iff split: prod.splits)
  then have "list_all printable (join_with '','' (map (\<lambda>(k, v). dumps_text (ustring_of k) @ '':'' @ send_json v) kvs))"
    by (intro printable_join) (simp add: printable_def)
  then show ?thesis by (simp add: printable_def)
qed

lemma log_document_texts:
  "\<exists>kvs. log_document names now r = JObj kvs \<and> list_all (\<lambda>(k, v). \<exists>t. v = JText t) kvs"
  by (auto simp: log_document_def list_all_iff map_filter_def split: option.splits)

text \<open>
  C40. One event, one line: whatever messages, names and identifiers an event carries, line breaks and control
  characters included, both formatters write printable ASCII only, so no text can end a line or forge
  another event.
\<close>

theorem events_stay_on_one_line:
  "list_all printable (manager_log_line now r) \<and> list_all printable (agent_log_line now r)"
  using log_document_texts [of manager_fields now r] log_document_texts [of agent_fields now r] printable_object
  unfolding manager_log_line_def agent_log_line_def by metis

section \<open>The gauges account for everything\<close>

lemma sum_over_states:
  assumes "distinct sts" and "\<And>x. x \<in> set xs \<Longrightarrow> f x \<in> set sts"
  shows "(\<Sum>st\<leftarrow>sts. \<Sum>x\<leftarrow>xs. if f x = st then 1 else (0 :: int)) = int (length xs)"
  using assms(2)
proof (induction xs)
  case (Cons x xs)
  have "(\<Sum>st\<leftarrow>sts. if f x = st then 1 else (0 :: int)) = 1"
    using assms(1) Cons.prems by (simp add: sum_list_distinct_conv_sum_set)
  with Cons show ?case by (simp add: sum_list_addf)
qed simp

text \<open>
  After a refresh every session is counted under exactly one state, and every participant too: the gauges of
  the states add up to the number of sessions and of participants, each state has one gauge, and the
  available capacity is never negative and is what is not used unless more is used than configured.
\<close>

theorem gauges_account:
  "(\<Sum>(st, n)\<leftarrow>gg_sessions (refresh_gauges xs used cap). n) = int (length xs) \<and>
   (\<Sum>(st, n)\<leftarrow>gg_participants (refresh_gauges xs used cap). n) = int (length (concat (map s_participants xs))) \<and>
   (\<forall>st. \<exists>!n. (st, n) \<in> set (gg_sessions (refresh_gauges xs used cap))) \<and>
   (\<forall>st. \<exists>!n. (st, n) \<in> set (gg_participants (refresh_gauges xs used cap))) \<and>
   0 \<le> gg_runtime_available (refresh_gauges xs used cap) \<and>
   gg_runtime_available (refresh_gauges xs used cap) + min used cap = cap"
proof -
  have s: "st \<in> set session_states" "distinct session_states" for st
    by (cases st; simp add: session_states_def) (simp add: session_states_def)
  have p: "st \<in> set participant_states" "distinct participant_states" for st
    by (cases st; simp add: participant_states_def) (simp add: participant_states_def)
  have "(\<Sum>(st, n)\<leftarrow>gg_sessions (refresh_gauges xs used cap). n) = int (length xs)"
    using sum_over_states [OF s(2), of xs s_state] s(1) by (simp add: refresh_gauges_def comp_def)
  moreover have "(\<Sum>(st, n)\<leftarrow>gg_participants (refresh_gauges xs used cap). n) =
      int (length (concat (map s_participants xs)))"
    using sum_over_states [OF p(2), of "concat (map s_participants xs)" p_state] p(1)
    by (simp add: refresh_gauges_def comp_def)
  ultimately show ?thesis using s(1) p(1) by (auto simp: refresh_gauges_def)
qed

end
