(* ===== verification/Spec2Isabelle.thy ===== *)
theory Spec2Isabelle
  imports ServiceBehaviour ValkeyServer ApiClient Liveness ManagerProcess AgentBehaviour AgentDiscovery
    AgentClient EntryConfig MetricsProxy Observability
begin

text \<open>
  A verification library for the retro browser multiplayer services: a Session Manager that keeps lobbies and
  answers an HTTP API, a Runtime Agent that runs one container per participant through the Docker engine, and the
  programs inside such a container. All sources are under \<open>src/services/session-manager/src/retro_sessions\<close>
  (SM), \<open>src/services/runtime-agent/src/retro_runtime\<close> (RA) and
  \<open>src/images/retro-session/session_entrypoint\<close> (EP).

  \<^bold>\<open>How the parts interact.\<close> A browser backend sends HTTP requests to the Session Manager (\<open>SM/api/app.py\<close>),
  which checks the credential and calls \<open>SessionService\<close>. The service resolves the game (RomM, or one pinned
  file), stores the lobby (Valkey, or memory), asks the Runtime Agent for a container over a UNIX socket, waits until
  it is healthy, and has the stream server in the container accept a controller token. A cleanup loop sweeps
  expired lobbies. The Runtime Agent validates a request, prepares directories and a specification file, creates
  and starts the container, and publishes a route and a metrics target. In the container the entrypoint checks the
  specification and every artifact before it starts the emulator, and a proxy serves the metrics.

  \<^bold>\<open>How code is modelled.\<close> A method that touches state or raises is a program \<open>('e, 's, 'a) prog\<close>: from a state to
  an exception or a value, and a new state (\<open>Prelude\<close>, with weakest preconditions \<open>wp\<close> and the collection
  \<open>wp_simps\<close>). Collaborators are records of programs, so every theorem holds whatever they do and whenever they
  fail, unless a hypothesis says otherwise. Python integers are \<open>int\<close>, UUIDs \<open>128 word\<close>, times and durations
  microseconds, text that is not restricted to ASCII a list of code points (\<open>PyText\<close>, \<open>Json\<close>, \<open>Paths\<close>, \<open>Environ\<close>).
  Validators of pydantic models are executable predicates; constructing a model is a function that may raise.

  \<^bold>\<open>The Session Manager.\<close>
  \<^item> \<open>Domain\<close>: \<open>errors.py\<close>, \<open>models/domain.py\<close>, \<open>models/state.py\<close>. \<open>Interfaces\<close>: the protocols of \<open>providers\<close> and
    \<open>repositories\<close> as the record \<open>services\<close>, and their contracts as locales (\<open>session_env\<close> and its extensions).
  \<^item> \<open>SessionService\<close>: every method of \<open>services/session_service.py\<close>.
  \<^item> \<open>Lobby\<close>: the abstract specification, a step relation on single records with its invariant. \<open>ServiceRefinement\<close>
    and \<open>OperationRefinement\<close>: inside the contract every write of every operation is such a step. \<open>ServiceQuotas\<close>:
    the quotas. \<open>ServiceTermination\<close>: no request outlives its time limits. \<open>ServiceQuiescence\<close>: no request leaves a
    participant half started. \<open>ServiceBehaviour\<close>: the operations one by one, and what a crash leaves behind.
    \<open>Liveness\<close>: the next sweep closes what has expired.
  \<^item> \<open>MemoryRepository\<close> (\<open>repositories/memory.py\<close>, \<open>providers/static.py\<close>) and \<open>Valkey\<close>, \<open>ValkeyServer\<close>
    (\<open>repositories/valkey.py\<close> over a key space with transactions, expiry, other clients and failing connections)
    interpret the contracts; \<open>SampleDeployment\<close> is a concrete environment for the witnesses.
  \<^item> \<open>Providers\<close>: \<open>security/tokens.py\<close> and the adapters to the Runtime Agent, Selkies and RomM; \<open>RomMUrl\<close>: the RomM
    configuration with its URL validator.
  \<^item> \<open>Api\<close>: \<open>api/app.py\<close>. \<open>ApiClient\<close>: \<open>client.py\<close>. \<open>ManagerProcess\<close>: \<open>__main__.py\<close>.

  \<^bold>\<open>The Runtime Agent.\<close>
  \<^item> \<open>AgentModels\<close>, \<open>AgentFiles\<close>, \<open>AgentService\<close>: \<open>models\<close>, \<open>validation/paths.py\<close>, \<open>routes/provider.py\<close>,
    \<open>observability/targets.py\<close> and \<open>service.py\<close>.
  \<^item> \<open>AgentHost\<close>: what is relied on of the engine and the files, as the locale \<open>runtime_host\<close>; \<open>AgentLifecycle\<close>: what
    the operations do inside it; \<open>AgentMachine\<close>: a host with arbitrary faults that satisfies it; \<open>SampleHost\<close>: a
    concrete one. \<open>AgentBehaviour\<close>: capacity, exclusive saves, ownership, idempotence. \<open>AgentDiscovery\<close>: routes,
    metrics targets, clean-up and reconciliation. \<open>AgentConfinement\<close>: what containers may be asked for.
  \<^item> \<open>DockerClient\<close>: \<open>docker/client.py\<close>. \<open>AgentServer\<close>: \<open>api/server.py\<close>. \<open>AgentProcess\<close>: \<open>__main__.py\<close>. \<open>AgentClient\<close>:
    \<open>client.py\<close>. \<open>Wire\<close>: the manager's adapter and the agent's server composed over one exchange.

  \<^bold>\<open>In the container.\<close> \<open>Entrypoint\<close> (\<open>models.py\<close>, \<open>launcher.py\<close>), \<open>EntryBehaviour\<close> (it accepts what the agent
  writes and starts only approved artifacts), \<open>EntryConfig\<close> (the rendered configuration reads back) and
  \<open>MetricsProxy\<close> (\<open>metrics_proxy.py\<close>). \<open>Observability\<close>: log events of both services and the manager's gauges.

  \<^bold>\<open>What the theorems show.\<close> Lobbies: the invariant and the quotas hold after any sequence of requests, in memory,
  over Valkey and behind the API; the state tables are followed; requests end; expired lobbies are closed. Access:
  only the holder of the token changes or reads anything, credentials of participants never coincide, games and ROMs
  stay below their roots with their pinned hashes. Containers: capacity, exclusive saves and ownership hold whichever
  calls fail; a failed start is undone; only confined containers are ever asked for, over the life of a process.
  Composition: a creation through the adapter and the server is the service's creation, HTTP requests are service
  calls, the exit status of both clients tells the outcome. Error theorems state the failures found: a
  half-started participant blocks closing, a crash lets a user be seated twice, a failing metrics target leaks a
  container, a refused login puts a session identifier into a label.

  \<^bold>\<open>Bounds and fuel.\<close> The only loop with an iteration bound is the readiness loop of \<open>_wait_ready\<close>: its bound is
  computed from the timeout and the polling interval, and \<open>ServiceTermination\<close> proves that it is never used up when
  each call ends and sleeping advances the clock by the requested time; otherwise the model raises \<open>Diverged\<close>.
  \<open>Json.remove_all_fuel\<close> removes a non-empty text from a string and takes its length as fuel, since every step
  shortens the string. All other recursion is structural or has a termination proof. Witnesses are
  evaluated in the kernel.

  \<^bold>\<open>Not modelled.\<close> FastAPI, pydantic's parsing of requests, the Valkey client library, the Docker daemon, sockets,
  HTTP connections, JSON readers, hash functions, Unicode tables and the file system are parameters: code outside the
  repository or input and output, with what is relied on as hypotheses or laws of a locale. Left out are the argument
  parsers, what the clients print, the WebSocket check of \<open>verify-stream\<close>, the request duration histogram and the
  rendering of the registry, the set-up of log handlers, the writing of responses to sockets, and threads: the
  service's lock and the agent's lifecycle lock make their operations atomic, so requests are sequences. The
  deployment files, the PowerShell scripts and the tests of the repository are not modelled.
\<close>

section \<open>The Session Manager as a whole\<close>

text \<open>
  C1. After any sequence of requests, whatever the catalogue, the runtimes, the streams and
  the clock do and whichever of their calls fail, every stored session satisfies the lobby
  invariant: its fields are valid, participant ids and occupied slots are unique and within
  capacity, an active user is active once, the owner heads the roster in slot 1, the
  session state fits the participants' states, a closed session holds nobody and has a
  reason, and the lease never exceeds the session's lifetime.
\<close>

theorem requests_keep_lobbies:
  assumes "uuid4_fresh (memory_services X U) memory_view"
    and "store_inv (session_ttl cfg) (memory_view s)"
  shows "store_inv (session_ttl cfg) (memory_view (serve cfg (memory_services X U) cs s))"
  using assms(2,1) by (rule mem.serve_store_inv)

theorem requests_keep_lobbies_witness:
  "uuid4_fresh (memory_services sample_services next_uuid) memory_view \<and>
   store_inv (session_ttl sample_config) (memory_view sample_start) \<and>
   store_inv (session_ttl sample_config) (memory_view (serve sample_config
     (memory_services sample_services next_uuid) [Create alice sample_request, Join 1 bob] sample_start))"
proof -
  have f: "uuid4_fresh (memory_services sample_services next_uuid) memory_view"
    by (rule sample_fresh)
  have i: "store_inv (session_ttl sample_config) (memory_view sample_start)" by simp
  from f i requests_keep_lobbies [OF f i] show ?thesis by blast
qed

text \<open>
  C2. Quotas: after any sequence of requests no more than the configured number of sessions
  is active, and no user holds more than the configured number of live participants in
  active sessions.
\<close>

theorem requests_keep_quotas:
  assumes "uuid4_fresh (memory_services X U) memory_view"
    and "store_inv (session_ttl cfg) (memory_view s)" and "within_quota cfg (memory_view s)"
  shows "within_quota cfg (memory_view (serve cfg (memory_services X U) cs s))"
  using assms(2,1,3) by (rule mem.serve_within_quota)

theorem requests_keep_quotas_witness:
  "uuid4_fresh sample_manager memory_view \<and> within_quota sample_config (memory_view sample_start) \<and>
   within_quota sample_config (memory_view (serve sample_config sample_manager
     [Create alice sample_request, Join 1 bob] sample_start))"
proof -
  have i: "store_inv (session_ttl sample_config) (memory_view sample_start)" by simp
  have q: "within_quota sample_config (memory_view sample_start)"
    by (simp add: sample_config_def)
  from sample_fresh q requests_keep_quotas [OF sample_fresh i q]
  show ?thesis by blast
qed

text \<open>
  C3. With validated catalogue records and collaborators whose calls end, every request
  leaves no participant half started, whether it returns or raises; so every stored
  session passes the model validator that decoding runs.
\<close>

theorem requests_settle_participants:
  assumes "uuid4_fresh (memory_services X U) memory_view" and "valid_catalogue (memory_services X U)"
    and "sound_setup cfg (memory_services X U) now"
    and "store_inv (session_ttl cfg) (memory_view s)" and "quiet (memory_view s)"
    and "memory_view (serve cfg (memory_services X U) cs s) k = Some x"
  shows "settled x \<and> consistent_participants x = Inr x"
proof
  show st: "settled x"
    using mem.serve_quiet [OF assms(4,1,2,3,5), of cs] assms(6) by (simp add: quiet_def)
  have "store_inv (session_ttl cfg) (memory_view (serve cfg (memory_services X U) cs s))"
    using assms(4,1) by (rule mem.serve_store_inv)
  with assms(6) have "lobby_inv (session_ttl cfg) x" by (simp add: store_inv_def)
  then show "consistent_participants x = Inr x" using st by (rule settled_consistent)
qed

theorem requests_settle_participants_witness:
  "\<exists>x. memory_view (serve sample_config sample_manager [Create alice sample_request] sample_start) 1 = Some x \<and>
     settled x \<and> consistent_participants x = Inr x"
proof -
  note hyps = sample_fresh sample_catalogue sample_sound
  have i: "store_inv (session_ttl sample_config) (memory_view sample_start)" "quiet (memory_view sample_start)"
    by simp_all
  have "memory_view (serve sample_config sample_manager [Create alice sample_request] sample_start) 1 \<noteq> None"
    by code_simp
  then obtain x where x: "memory_view (serve sample_config sample_manager
      [Create alice sample_request] sample_start) 1 = Some x" by auto
  from requests_settle_participants [OF hyps i x] x
  show ?thesis by blast
qed

text \<open>
  C4. Every request ends: the readiness loop of a starting participant never outlives its
  timeout, whatever the runtime reports.
\<close>

theorem requests_end:
  assumes "sound_setup cfg D now"
  shows "perform cfg D c s \<noteq> (Inl Diverged, t)"
  using perform_ends [OF assms, of c] by (simp add: ends_iff)

theorem requests_end_witness:
  "sound_setup sample_config sample_manager (\<lambda>s. ticks (world s)) \<and>
   perform sample_config sample_manager (Join 1 bob) sample_start \<noteq> (Inl Diverged, sample_start)"
  using sample_sound requests_end [OF sample_sound] by blast

end
